(* ===== verification/Go_Prelude.thy ===== *)
theory Go_Prelude
  imports
    Main
    "HOL-Library.AList"
    "HOL-Library.List_Lexorder"
    "HOL-Library.Char_ord"
    "HOL-Library.Word"
    "HOL-Library.Multiset"
begin

text \<open>
  Shared vocabulary of the devmesh development: Go maps (association lists with
  distinct keys, in an arbitrary iteration order), Go durations and times
  (nanoseconds, with the 64-bit wrap-around written out where the code multiplies),
  error results, the reachability predicate of a step relation, and the two
  interfaces every component uses: \<open>dict\<close> (what a Go map promises) and
  \<open>inv_system\<close> (what an inductive invariant gives in all reachable states).
\<close>

named_theorems go_map_simps
  \<open>lookup laws of Go maps after updates and deletions\<close>
named_theorems wf_intros
  \<open>preservation of well-formedness invariants\<close>

section \<open>Definitions\<close>

subsection \<open>Integers, durations, times\<close>

type_synonym duration = int
type_synonym gotime = int
type_synonym ('e, 'a) result = "'e + 'a"

text \<open>Go's \<open>int\<close> and \<open>time.Duration\<close> are 64-bit two's complement.\<close>

definition wrap64 :: "int \<Rightarrow> int" where
  "wrap64 x = (x + 2 ^ 63) mod 2 ^ 64 - 2 ^ 63"

abbreviation (input) int64 :: "int \<Rightarrow> bool" where
  "int64 x \<equiv> - (2 ^ 63) \<le> x \<and> x < 2 ^ 63"

abbreviation (input) Millisecond :: duration where "Millisecond \<equiv> 1000000"
abbreviation (input) Second :: duration where "Second \<equiv> 1000000000"
abbreviation (input) Hour :: duration where "Hour \<equiv> 3600000000000"

text \<open>The zero \<open>time.Time\<close>; every clock reading is later.\<close>

abbreviation (input) zero_time :: gotime where "zero_time \<equiv> 0"

subsection \<open>Go maps\<close>

text \<open>
  A Go map is an association list with distinct keys. The order of the list is the
  iteration order of one \<open>range\<close> over the map, which Go leaves unspecified: where a
  result could depend on it, a lemma shows that it does not.
\<close>

type_synonym ('k, 'v) gomap = "('k \<times> 'v) list"

definition mget :: "('k, 'v) gomap \<Rightarrow> 'k \<Rightarrow> 'v option" where
  "mget m k = map_of m k"

definition mput :: "'k \<Rightarrow> 'v \<Rightarrow> ('k, 'v) gomap \<Rightarrow> ('k, 'v) gomap" where
  "mput k v m = AList.update k v m"

definition mdel :: "'k \<Rightarrow> ('k, 'v) gomap \<Rightarrow> ('k, 'v) gomap" where
  "mdel k m = AList.delete k m"

definition mkeys :: "('k, 'v) gomap \<Rightarrow> 'k list" where
  "mkeys m = map fst m"

definition mwf :: "('k, 'v) gomap \<Rightarrow> bool" where
  "mwf m \<longleftrightarrow> distinct (map fst m)"

text \<open>Go's \<open>m[k]\<close> without the second result: the zero value of a missing key.\<close>

definition mget0 :: "'v \<Rightarrow> ('k, 'v) gomap \<Rightarrow> 'k \<Rightarrow> 'v" where
  "mget0 z m k = (case mget m k of None \<Rightarrow> z | Some v \<Rightarrow> v)"

subsection \<open>Reachable states of a step relation\<close>

inductive reach :: "('s \<Rightarrow> bool) \<Rightarrow> ('s \<Rightarrow> 's \<Rightarrow> bool) \<Rightarrow> 's \<Rightarrow> bool"
  for init :: "'s \<Rightarrow> bool" and step :: "'s \<Rightarrow> 's \<Rightarrow> bool" where
  reach_init: "init s \<Longrightarrow> reach init step s"
| reach_step: "reach init step s \<Longrightarrow> step s t \<Longrightarrow> reach init step t"

section \<open>Lemmas\<close>

subsection \<open>64-bit arithmetic\<close>

lemma wrap64_id [simp]: "int64 x \<Longrightarrow> wrap64 x = x"
  by (simp add: wrap64_def)

lemma wrap64_int64: "int64 (wrap64 x)"
proof -
  have "0 \<le> (x + 2 ^ 63) mod 2 ^ 64" "(x + 2 ^ 63) mod 2 ^ 64 < 2 ^ 64"
    by simp_all
  then show ?thesis
    unfolding wrap64_def by simp
qed

subsection \<open>Go maps\<close>

lemma mget_Nil [simp]: "mget [] k = None"
  by (simp add: mget_def)

lemma mget_Cons [simp]: "mget ((k, v) # m) j = (if j = k then Some v else mget m j)"
  by (simp add: mget_def)

lemma mwf_Cons [simp]: "mwf ((k, v) # m) \<longleftrightarrow> mget m k = None \<and> mwf m"
  by (simp add: mwf_def mget_def map_of_eq_None_iff)

lemma mget_mput [simp, go_map_simps]:
  "mget (mput k v m) j = (if j = k then Some v else mget m j)"
  by (simp add: mget_def mput_def update_conv')

lemma mget_mdel [simp, go_map_simps]:
  "mget (mdel k m) j = (if j = k then None else mget m j)"
  by (simp add: mget_def mdel_def delete_conv')

lemma mwf_Nil [simp]: "mwf []"
  by (simp add: mwf_def)

lemma mwf_mput [simp, wf_intros]: "mwf m \<Longrightarrow> mwf (mput k v m)"
  by (simp add: mwf_def mput_def distinct_update)

lemma mwf_mdel [simp, wf_intros]: "mwf m \<Longrightarrow> mwf (mdel k m)"
  by (simp add: mwf_def mdel_def distinct_delete)

lemma set_mput: "x \<in> set (mput k v m) \<Longrightarrow> x = (k, v) \<or> x \<in> set m"
  by (induction m) (auto simp: mput_def split: if_splits)

lemma set_mdel: "x \<in> set (mdel k m) \<Longrightarrow> x \<in> set m"
  by (auto simp: mdel_def AList.delete_eq)

lemma list_all_mput: "list_all P m \<Longrightarrow> P (k, v) \<Longrightarrow> list_all P (mput k v m)"
  by (auto simp: list_all_iff dest: set_mput)

lemma list_all_mdel: "list_all P m \<Longrightarrow> list_all P (mdel k m)"
  by (auto simp: list_all_iff dest: set_mdel)

lemma mget_in: "mget m k = Some v \<Longrightarrow> (k, v) \<in> set m"
  by (simp add: mget_def map_of_SomeD)

lemma mget_iff: "mwf m \<Longrightarrow> mget m k = Some v \<longleftrightarrow> (k, v) \<in> set m"
  by (simp add: mget_def mwf_def)

lemma mget_None_iff: "mget m k = None \<longleftrightarrow> k \<notin> set (mkeys m)"
  by (simp add: mget_def mkeys_def map_of_eq_None_iff)

lemma mget_filter:
  "mwf m \<Longrightarrow> mget (filter P m) k =
     (case mget m k of None \<Rightarrow> None | Some v \<Rightarrow> if P (k, v) then Some v else None)"
  by (induction m) (auto simp: mget_def mwf_def map_of_eq_None_iff image_iff
      split: option.splits if_splits)

lemma mwf_filter [simp, wf_intros]: "mwf m \<Longrightarrow> mwf (filter P m)"
  by (induction m) (auto simp: mwf_def)

lemma mget_permute:
  assumes "mset m = mset m'" and "mwf m"
  shows "mget m = mget m'"
proof -
  from assms have "mwf m'"
    unfolding mwf_def by (metis mset_eq_imp_distinct_iff mset_map)
  moreover have "set m = set m'"
    using assms(1) by (rule mset_eq_setD)
  ultimately show ?thesis
    using \<open>mwf m\<close> unfolding mget_def mwf_def by (metis map_of_inject_set)
qed

lemma mput_new: "mget m k = None \<Longrightarrow> mput k v m = m @ [(k, v)]"
  by (induction m) (auto simp: mput_def split: if_splits)

lemma mdel_filter: "mdel k m = filter (\<lambda>(k', _). k' \<noteq> k) m"
  by (auto simp: mdel_def AList.delete_eq intro!: filter_cong)

lemma distinct_map_in_eq:
  "distinct (map f xs) \<Longrightarrow> x \<in> set xs \<Longrightarrow> y \<in> set xs \<Longrightarrow> f x = f y \<Longrightarrow> x = y"
  by (simp add: distinct_map inj_on_def)

lemma count_list_distinct: "distinct xs \<Longrightarrow> count_list xs x = (if x \<in> set xs then 1 else 0)"
  by (induction xs) auto

lemma mget0_mput [simp, go_map_simps]:
  "mget0 z (mput k v m) j = (if j = k then v else mget0 z m j)"
  by (simp add: mget0_def)

lemma mget0_mdel [simp, go_map_simps]:
  "mget0 z (mdel k m) j = (if j = k then z else mget0 z m j)"
  by (simp add: mget0_def)

lemma mget0_Nil [simp]: "mget0 z [] k = z"
  by (simp add: mget0_def)

subsection \<open>The interface of a Go map\<close>

text \<open>
  What a client of a Go map relies on: reads after writes and deletions, and a
  well-formedness invariant that every operation keeps.
\<close>

locale dict =
  fixes get :: "'m \<Rightarrow> 'k \<Rightarrow> 'v option"
    and put :: "'k \<Rightarrow> 'v \<Rightarrow> 'm \<Rightarrow> 'm"
    and del :: "'k \<Rightarrow> 'm \<Rightarrow> 'm"
    and none :: 'm
    and ok :: "'m \<Rightarrow> bool"
  assumes get_none: "get none k = None"
    and get_put: "get (put k v m) j = (if j = k then Some v else get m j)"
    and get_del: "get (del k m) j = (if j = k then None else get m j)"
    and ok_none: "ok none"
    and ok_put: "ok m \<Longrightarrow> ok (put k v m)"
    and ok_del: "ok m \<Longrightarrow> ok (del k m)"
begin

lemma put_put_same: "get (put k v (put k u m)) = get (put k v m)"
  by (simp add: fun_eq_iff get_put)

lemma put_swap: "j \<noteq> k \<Longrightarrow> get (put k v (put j u m)) = get (put j u (put k v m))"
  by (auto simp: fun_eq_iff get_put)

lemma del_put: "get (del k (put k v m)) = get (del k m)"
  by (simp add: fun_eq_iff get_put get_del)

lemma dels_get: "get (fold del ks m) j = (if j \<in> set ks then None else get m j)"
  by (induction ks arbitrary: m) (auto simp: get_del)

lemma dels_ok: "ok m \<Longrightarrow> ok (fold del ks m)"
  by (induction ks arbitrary: m) (auto simp: ok_del)

end

interpretation gm: dict mget mput mdel "[]" mwf
  by unfold_locales simp_all

subsection \<open>Inductive invariants\<close>

text \<open>
  An invariant of a step relation: it holds initially and every step keeps it. The
  interpretation of this interface on a component's steps discharges both; the
  consequences for all reachable states are proved once, here.
\<close>

locale inv_system =
  fixes init :: "'s \<Rightarrow> bool"
    and step :: "'s \<Rightarrow> 's \<Rightarrow> bool"
    and inv :: "'s \<Rightarrow> bool"
  assumes inv_init: "init s \<Longrightarrow> inv s"
    and inv_step: "inv s \<Longrightarrow> step s t \<Longrightarrow> inv t"
begin

lemma reach_inv: "reach init step s \<Longrightarrow> inv s"
  by (induction rule: reach.induct) (blast intro: inv_init inv_step)+

lemma steps_inv: "step\<^sup>*\<^sup>* s t \<Longrightarrow> inv s \<Longrightarrow> inv t"
  by (induction rule: rtranclp_induct) (blast intro: inv_step)+

end

end
