(* ===== verification/Go_Std.thy ===== *)
theory Go_Std
  imports Go_Prelude
begin

text \<open>
  The parts of Go's standard library that devmesh computes with, written from their
  documented behaviour over byte strings: \<open>strings\<close> (TrimSpace, TrimPrefix, Trim,
  ToLower, EqualFold, Contains), \<open>strconv\<close> (Itoa, Atoi), \<open>net\<close> (SplitHostPort,
  JoinHostPort, ParseIP, IP.IsLoopback), \<open>fmt.Sscanf\<close> with \<open>%d\<close>, \<open>hash/fnv\<close> and
  \<open>crypto/subtle\<close>. What depends on tables or services outside the program (the
  Unicode case table, the host resolver) is a field of \<open>go_env\<close>.

  The lemmas are the laws the components use: trimming is idempotent, numbers and
  addresses survive printing and parsing, the constant-time comparison is equality.
\<close>

unbundle bit_operations_syntax

section \<open>Definitions\<close>

subsection \<open>What the program asks of its environment\<close>

record go_env =
  env_ToLower :: "string \<Rightarrow> string"
    \<comment> \<open>\<open>strings.ToLower\<close> on strings with a non-ASCII byte\<close>
  env_LookupHost :: "string \<Rightarrow> string list option"
    \<comment> \<open>\<open>net.LookupHost\<close>; \<open>None\<close> is an error\<close>

subsection \<open>Package strings\<close>

abbreviation byte :: "char \<Rightarrow> nat" where
  "byte c \<equiv> of_char c"

definition HasPrefix :: "string \<Rightarrow> string \<Rightarrow> bool" where
  "HasPrefix s p \<longleftrightarrow> take (length p) s = p"

definition TrimPrefix :: "string \<Rightarrow> string \<Rightarrow> string" where
  "TrimPrefix s p = (if HasPrefix s p then drop (length p) s else s)"

definition TrimSuffix :: "string \<Rightarrow> string \<Rightarrow> string" where
  "TrimSuffix s p = rev (TrimPrefix (rev s) (rev p))"

text \<open>\<open>unicode.IsSpace\<close>, as the UTF-8 sequences of the characters it accepts.\<close>

definition unicode_spaces :: "string list" where
  "unicode_spaces =
     [[CHR 0x09], [CHR 0x0A], [CHR 0x0B], [CHR 0x0C], [CHR 0x0D], [CHR 0x20],
      [CHR 0xC2, CHR 0x85], [CHR 0xC2, CHR 0xA0], [CHR 0xE1, CHR 0x9A, CHR 0x80],
      [CHR 0xE2, CHR 0x80, CHR 0x80], [CHR 0xE2, CHR 0x80, CHR 0x81],
      [CHR 0xE2, CHR 0x80, CHR 0x82], [CHR 0xE2, CHR 0x80, CHR 0x83],
      [CHR 0xE2, CHR 0x80, CHR 0x84], [CHR 0xE2, CHR 0x80, CHR 0x85],
      [CHR 0xE2, CHR 0x80, CHR 0x86], [CHR 0xE2, CHR 0x80, CHR 0x87],
      [CHR 0xE2, CHR 0x80, CHR 0x88], [CHR 0xE2, CHR 0x80, CHR 0x89],
      [CHR 0xE2, CHR 0x80, CHR 0x8A], [CHR 0xE2, CHR 0x80, CHR 0xA8],
      [CHR 0xE2, CHR 0x80, CHR 0xA9], [CHR 0xE2, CHR 0x80, CHR 0xAF],
      [CHR 0xE2, CHR 0x81, CHR 0x9F], [CHR 0xE3, CHR 0x80, CHR 0x80]]"

fun first_prefix :: "string list \<Rightarrow> string \<Rightarrow> string option" where
  "first_prefix [] s = None"
| "first_prefix (p # ps) s =
     (if p \<noteq> [] \<and> HasPrefix s p then Some p else first_prefix ps s)"

lemma first_prefix_Some:
  "first_prefix ps s = Some p \<Longrightarrow> p \<in> set ps \<and> p \<noteq> [] \<and> HasPrefix s p"
  by (induction ps) (auto split: if_splits)

function trim_left :: "string list \<Rightarrow> string \<Rightarrow> string" where
  "trim_left ps s =
     (case first_prefix ps s of None \<Rightarrow> s | Some p \<Rightarrow> trim_left ps (drop (length p) s))"
  by pat_completeness auto
termination
proof (relation "measure (\<lambda>(ps, s). length s)")
  fix ps s p
  assume "first_prefix ps s = Some p"
  then have "p \<noteq> []" "HasPrefix s p"
    by (auto dest: first_prefix_Some)
  then have "s \<noteq> []"
    by (auto simp: HasPrefix_def)
  with \<open>p \<noteq> []\<close> show "((ps, drop (length p) s), (ps, s)) \<in> measure (\<lambda>(ps, s). length s)"
    by simp
qed simp

declare trim_left.simps [simp del]

definition TrimSpace :: "string \<Rightarrow> string" where
  "TrimSpace s =
     rev (trim_left (map rev unicode_spaces) (rev (trim_left unicode_spaces s)))"

text \<open>\<open>strings.Trim\<close> with an ASCII cutset.\<close>

definition Trim :: "string \<Rightarrow> string \<Rightarrow> string" where
  "Trim s cutset =
     rev (dropWhile (\<lambda>c. c \<in> set cutset) (rev (dropWhile (\<lambda>c. c \<in> set cutset) s)))"

definition ContainsAny :: "string \<Rightarrow> string \<Rightarrow> bool" where
  "ContainsAny s chars \<longleftrightarrow> list_ex (\<lambda>c. c \<in> set chars) s"

fun Contains :: "string \<Rightarrow> string \<Rightarrow> bool" where
  "Contains [] p = (p = [])"
| "Contains (c # s) p = (HasPrefix (c # s) p \<or> Contains s p)"

definition ascii_lower :: "char \<Rightarrow> char" where
  "ascii_lower c = (if 65 \<le> byte c \<and> byte c \<le> 90 then char_of (byte c + 32) else c)"

definition ToLower :: "go_env \<Rightarrow> string \<Rightarrow> string" where
  "ToLower E s =
     (if list_all (\<lambda>c. byte c < 128) s then map ascii_lower s else env_ToLower E s)"

text \<open>
  \<open>strings.EqualFold s t\<close> for a \<open>t\<close> of ASCII letters other than \<open>k\<close> and \<open>s\<close>, the two
  letters with a non-ASCII simple folding.
\<close>

definition EqualFold :: "string \<Rightarrow> string \<Rightarrow> bool" where
  "EqualFold s t \<longleftrightarrow> map ascii_lower s = map ascii_lower t"

subsection \<open>Package strconv and fmt\<close>

definition is_digit :: "char \<Rightarrow> bool" where
  "is_digit c \<longleftrightarrow> 48 \<le> byte c \<and> byte c \<le> 57"

definition digit_val :: "char \<Rightarrow> nat" where
  "digit_val c = byte c - 48"

definition digit_char :: "nat \<Rightarrow> char" where
  "digit_char d = char_of (48 + d)"

fun nat_digits :: "nat \<Rightarrow> string" where
  "nat_digits n = (if n < 10 then [digit_char n] else nat_digits (n div 10) @ [digit_char (n mod 10)])"

declare nat_digits.simps [simp del]

definition Itoa :: "int \<Rightarrow> string" where
  "Itoa i = (if i < 0 then CHR ''-'' # nat_digits (nat (- i)) else nat_digits (nat i))"

fun digits_val :: "nat \<Rightarrow> string \<Rightarrow> nat option" where
  "digits_val acc [] = Some acc"
| "digits_val acc (c # cs) =
     (if is_digit c then digits_val (10 * acc + digit_val c) cs else None)"

text \<open>An optional sign and at least one digit, within the 64-bit range.\<close>

definition signed_decimal :: "bool \<Rightarrow> string \<Rightarrow> int option" where
  "signed_decimal neg ds =
     (if ds = [] then None
      else case digits_val 0 ds of
        None \<Rightarrow> None
      | Some n \<Rightarrow>
          (let v = (if neg then - int n else int n) in if int64 v then Some v else None))"

definition Atoi :: "string \<Rightarrow> int option" where
  "Atoi s =
     (case s of
        [] \<Rightarrow> None
      | c # cs \<Rightarrow>
          if c = CHR ''-'' then signed_decimal True cs
          else if c = CHR ''+'' then signed_decimal False cs
          else signed_decimal False s)"

text \<open>
  \<open>fmt.Sscanf(s, "%d", &n)\<close>: spaces are skipped (a newline is an error), then an
  optional sign and a run of digits are read; the rest of the input is ignored.
\<close>

function scan_skip :: "string \<Rightarrow> string option" where
  "scan_skip s =
     (case s of
        [] \<Rightarrow> Some []
      | c # cs \<Rightarrow>
          if c = CHR 0x0A then None
          else (case first_prefix unicode_spaces s of
                  None \<Rightarrow> Some s
                | Some p \<Rightarrow>
                    if c = CHR 0x0D \<and> HasPrefix cs [CHR 0x0A] then scan_skip cs
                    else scan_skip (drop (length p) s)))"
  by pat_completeness auto
termination
proof (relation "measure length")
  fix s :: string and c cs p
  assume "s = c # cs" "first_prefix unicode_spaces s = Some p"
  then have "p \<noteq> []" by (auto dest: first_prefix_Some)
  with \<open>s = c # cs\<close> show "(drop (length p) s, s) \<in> measure length" by simp
qed simp_all

declare scan_skip.simps [simp del]

definition Sscanf_d :: "string \<Rightarrow> int option" where
  "Sscanf_d s =
     (case scan_skip s of
        None \<Rightarrow> None
      | Some [] \<Rightarrow> None
      | Some (c # cs) \<Rightarrow>
          if c = CHR ''-'' then signed_decimal True (takeWhile is_digit cs)
          else if c = CHR ''+'' then signed_decimal False (takeWhile is_digit cs)
          else signed_decimal False (takeWhile is_digit (c # cs)))"

subsection \<open>Package net: addresses\<close>

definition split_last :: "char \<Rightarrow> string \<Rightarrow> (string \<times> string) option" where
  "split_last x s =
     (case dropWhile (\<lambda>c. c \<noteq> x) (rev s) of
        [] \<Rightarrow> None
      | _ # pre \<Rightarrow> Some (rev pre, rev (takeWhile (\<lambda>c. c \<noteq> x) (rev s))))"

definition SplitHostPort :: "string \<Rightarrow> (string \<times> string) option" where
  "SplitHostPort s =
     (case split_last CHR '':'' s of
        None \<Rightarrow> None
      | Some (pre, port) \<Rightarrow>
          if HasPrefix s ''['' then
            (let inner = takeWhile (\<lambda>c. c \<noteq> CHR '']'') s in
             if length inner = length s then None
             else if length inner + 1 \<noteq> length pre then None
             else if CHR ''['' \<in> set (drop 1 s) then None
             else if CHR '']'' \<in> set (drop (length inner + 1) s) then None
             else Some (drop 1 inner, port))
          else if CHR '':'' \<in> set pre then None
          else if CHR ''['' \<in> set s \<or> CHR '']'' \<in> set s then None
          else Some (pre, port))"

definition JoinHostPort :: "string \<Rightarrow> string \<Rightarrow> string" where
  "JoinHostPort host port =
     (if CHR '':'' \<in> set host then ''['' @ host @ '']:'' @ port else host @ '':'' @ port)"

fun split_on :: "char \<Rightarrow> string \<Rightarrow> string list" where
  "split_on x [] = [[]]"
| "split_on x (c # cs) =
     (if c = x then [] # split_on x cs
      else case split_on x cs of [] \<Rightarrow> [[c]] | w # ws \<Rightarrow> (c # w) # ws)"

definition parse_octet :: "string \<Rightarrow> nat option" where
  "parse_octet s =
     (if s = [] \<or> (1 < length s \<and> HasPrefix s ''0'') then None
      else case digits_val 0 s of None \<Rightarrow> None | Some n \<Rightarrow> if n \<le> 255 then Some n else None)"

definition parse_v4 :: "string \<Rightarrow> nat list option" where
  "parse_v4 s =
     (case map parse_octet (split_on CHR ''.'' s) of
        [Some a, Some b, Some c, Some d] \<Rightarrow> Some [a, b, c, d]
      | _ \<Rightarrow> None)"

definition is_hex :: "char \<Rightarrow> bool" where
  "is_hex c \<longleftrightarrow> is_digit c \<or> (97 \<le> byte c \<and> byte c \<le> 102) \<or> (65 \<le> byte c \<and> byte c \<le> 70)"

definition hex_val :: "char \<Rightarrow> nat" where
  "hex_val c =
     (if is_digit c then byte c - 48 else if 97 \<le> byte c then byte c - 87 else byte c - 55)"

definition hex_group :: "string \<Rightarrow> nat list" where
  "hex_group h = (let n = foldl (\<lambda>a c. 16 * a + hex_val c) 0 h in [n div 256, n mod 256])"

text \<open>
  The loop of \<open>netip.parseIPv6\<close>: \<open>k\<close> groups may still follow, \<open>acc\<close> holds the bytes
  read so far, \<open>ell\<close> the position of the ellipsis.
\<close>

fun v6_loop :: "nat \<Rightarrow> nat list \<Rightarrow> nat option \<Rightarrow> string \<Rightarrow> (nat list \<times> nat option \<times> string) option" where
  "v6_loop 0 acc ell s = Some (acc, ell, s)"
| "v6_loop (Suc k) acc ell s =
     (let h = takeWhile is_hex s; r = dropWhile is_hex s; acc' = acc @ hex_group h in
      if h = [] \<or> 4 < length h then None
      else case r of
        [] \<Rightarrow> Some (acc', ell, [])
      | c # r' \<Rightarrow>
          if c = CHR ''.'' then
            (if (ell = None \<and> length acc \<noteq> 12) \<or> 16 < length acc + 4 then None
             else case parse_v4 s of None \<Rightarrow> None | Some bs \<Rightarrow> Some (acc @ bs, ell, []))
          else if c \<noteq> CHR '':'' then None
          else (case r' of
                  [] \<Rightarrow> None
                | c' # r'' \<Rightarrow>
                    if c' = CHR '':'' then
                      (if ell \<noteq> None then None
                       else if r'' = [] then Some (acc', Some (length acc'), [])
                       else v6_loop k acc' (Some (length acc')) r'')
                    else v6_loop k acc' ell r'))"

definition parse_v6 :: "string \<Rightarrow> nat list option" where
  "parse_v6 s0 =
     (let ell0 = (if HasPrefix s0 ''::'' then Some 0 else None);
          s = TrimPrefix s0 ''::'' in
      if ell0 \<noteq> None \<and> s = [] then Some (replicate 16 0)
      else case v6_loop 8 [] ell0 s of
        None \<Rightarrow> None
      | Some (acc, ell, rest) \<Rightarrow>
          if rest \<noteq> [] then None
          else if length acc < 16 then
            (case ell of
               None \<Rightarrow> None
             | Some e \<Rightarrow> Some (take e acc @ replicate (16 - length acc) 0 @ drop e acc))
          else if ell \<noteq> None then None
          else Some acc)"

definition v4_in_v6 :: "nat list" where
  "v4_in_v6 = [0, 0, 0, 0, 0, 0, 0, 0, 0, 0, 255, 255]"

text \<open>
  \<open>net.ParseIP\<close>, as 16 bytes; a zone (\<open>%\<close>) is refused. The first of \<open>.\<close>, \<open>:\<close>
  and \<open>%\<close> decides which grammar applies.
\<close>

definition ParseIP :: "string \<Rightarrow> nat list option" where
  "ParseIP s =
     (case dropWhile (\<lambda>c. c \<notin> set ''.:%'') s of
        [] \<Rightarrow> None
      | c # _ \<Rightarrow>
          if CHR ''%'' \<in> set s then None
          else if c = CHR ''.'' then map_option (\<lambda>bs. v4_in_v6 @ bs) (parse_v4 s)
          else parse_v6 s)"

definition IsLoopback :: "nat list \<Rightarrow> bool" where
  "IsLoopback ip \<longleftrightarrow>
     (if take 12 ip = v4_in_v6 then ip ! 12 = 127 else ip = replicate 15 0 @ [1])"

subsection \<open>Package filepath (Unix)\<close>

fun clean_elems :: "bool \<Rightarrow> string list \<Rightarrow> string list \<Rightarrow> string list" where
  "clean_elems rooted acc [] = rev acc"
| "clean_elems rooted acc (e # es) =
     (if e = [] \<or> e = ''.'' then clean_elems rooted acc es
      else if e = ''..'' then
        (case acc of
           [] \<Rightarrow> if rooted then clean_elems rooted [] es else clean_elems rooted [''..''] es
         | a # as \<Rightarrow> if a = ''..'' then clean_elems rooted (e # acc) es else clean_elems rooted as es)
      else clean_elems rooted (e # acc) es)"

fun join_with :: "char \<Rightarrow> string list \<Rightarrow> string" where
  "join_with x [] = []"
| "join_with x [w] = w"
| "join_with x (w # v # ws) = w @ x # join_with x (v # ws)"

definition filepath_Clean :: "string \<Rightarrow> string" where
  "filepath_Clean path =
     (if path = [] then ''.''
      else
        (let rooted = HasPrefix path ''/'';
             out = join_with CHR ''/'' (clean_elems rooted [] (split_on CHR ''/'' path)) in
         if rooted then CHR ''/'' # out else if out = [] then ''.'' else out))"

definition filepath_Join :: "string list \<Rightarrow> string" where
  "filepath_Join elem =
     (case dropWhile (\<lambda>e. e = []) elem of
        [] \<Rightarrow> []
      | es \<Rightarrow> filepath_Clean (join_with CHR ''/'' es))"

subsection \<open>Hashing and constant-time comparison\<close>

definition fnv32a :: "string \<Rightarrow> 32 word" where
  "fnv32a s = foldl (\<lambda>h c. (h XOR of_nat (byte c)) * 16777619) 2166136261 s"

fun xor_acc :: "8 word \<Rightarrow> string \<Rightarrow> string \<Rightarrow> 8 word" where
  "xor_acc v (x # xs) (y # ys) =
     xor_acc (v OR (of_nat (byte x) XOR of_nat (byte y))) xs ys"
| "xor_acc v _ _ = v"

text \<open>\<open>subtle.ConstantTimeCompare\<close>: no early exit over the bytes.\<close>

definition ConstantTimeCompare :: "string \<Rightarrow> string \<Rightarrow> int" where
  "ConstantTimeCompare x y =
     (if length x \<noteq> length y then 0 else if xor_acc 0 x y = 0 then 1 else 0)"

definition hex_digit :: "nat \<Rightarrow> char" where
  "hex_digit n = (if n < 10 then char_of (48 + n) else char_of (87 + n))"

definition hex_EncodeToString :: "string \<Rightarrow> string" where
  "hex_EncodeToString bs =
     concat (map (\<lambda>b. [hex_digit (byte b div 16), hex_digit (byte b mod 16)]) bs)"

section \<open>Lemmas\<close>

subsection \<open>Prefixes and trimming\<close>

lemma HasPrefix_append [simp]: "HasPrefix (p @ s) p"
  by (simp add: HasPrefix_def)

lemma HasPrefix_Nil [simp]: "HasPrefix s []"
  by (simp add: HasPrefix_def)

lemma HasPrefix_take: "HasPrefix (take n s) p \<Longrightarrow> HasPrefix s p"
  by (metis HasPrefix_def length_take min.absorb_iff1 min.commute min_def take_take)

lemma TrimPrefix_append [simp]: "TrimPrefix (p @ s) p = s"
  by (simp add: TrimPrefix_def)

lemma TrimSuffix_append [simp]: "TrimSuffix (s @ p) p = s"
  by (simp add: TrimSuffix_def)

lemma first_prefix_None_iff:
  "first_prefix ps s = None \<longleftrightarrow> (\<forall>p \<in> set ps. p = [] \<or> \<not> HasPrefix s p)"
  by (induction ps) auto

lemma trim_left_stops: "first_prefix ps (trim_left ps s) = None"
proof (induction ps s rule: trim_left.induct)
  case (1 ps s)
  then show ?case
    by (cases "first_prefix ps s") (simp_all add: trim_left.simps [of ps s])
qed

lemma trim_left_id: "first_prefix ps s = None \<Longrightarrow> trim_left ps s = s"
  by (simp add: trim_left.simps [of ps s])

lemma trim_left_drop: "\<exists>k. trim_left ps s = drop k s"
proof (induction ps s rule: trim_left.induct)
  case (1 ps s)
  show ?case
  proof (cases "first_prefix ps s")
    case None
    then have "trim_left ps s = drop 0 s" by (simp add: trim_left_id)
    then show ?thesis ..
  next
    case (Some p)
    then show ?thesis using "1.IH" [OF Some]
      by (auto simp: trim_left.simps [of ps s])
  qed
qed

lemma first_prefix_take: "first_prefix ps s = None \<Longrightarrow> first_prefix ps (take n s) = None"
  by (auto simp: first_prefix_None_iff dest: HasPrefix_take)

lemma TrimSpace_idem [simp]: "TrimSpace (TrimSpace s) = TrimSpace s"
proof -
  let ?U = unicode_spaces
  define t where "t = trim_left ?U s"
  define u where "u = trim_left (map rev ?U) (rev t)"
  obtain k where "u = drop k (rev t)"
    using trim_left_drop u_def by blast
  then have "rev u = take (length t - k) t"
    by (simp add: rev_drop)
  moreover have "first_prefix ?U t = None"
    unfolding t_def by (rule trim_left_stops)
  ultimately have "trim_left ?U (rev u) = rev u"
    by (simp add: first_prefix_take trim_left_id)
  moreover have "trim_left (map rev ?U) u = u"
    unfolding u_def by (intro trim_left_id trim_left_stops)
  ultimately show ?thesis
    by (simp add: TrimSpace_def flip: t_def u_def)
qed

subsection \<open>Lower case\<close>

lemma first_prefix_head:
  "(\<And>p. p \<in> set ps \<Longrightarrow> p \<noteq> [] \<Longrightarrow> hd p \<noteq> c) \<Longrightarrow> first_prefix ps (c # cs) = None"
  by (fastforce simp: first_prefix_None_iff HasPrefix_def neq_Nil_conv)

lemma TrimSpace_tidy:
  assumes "list_all (\<lambda>c. 32 < byte c \<and> byte c < 128) s"
  shows "TrimSpace s = s"
proof -
  have heads: "hd p \<noteq> c" if "p \<in> set unicode_spaces \<or> p \<in> set (map rev unicode_spaces)"
    and "32 < byte c \<and> byte c < 128" for p and c :: char
    using that by (auto simp: unicode_spaces_def)
  have fp: "first_prefix ps t = None"
    if "ps = unicode_spaces \<or> ps = map rev unicode_spaces" "list_all (\<lambda>c. 32 < byte c \<and> byte c < 128) t" for ps t
  proof (cases t)
    case Nil
    then show ?thesis by (auto simp: first_prefix_None_iff HasPrefix_def)
  next
    case (Cons c cs)
    then have "32 < byte c \<and> byte c < 128" using that(2) by simp
    then show ?thesis unfolding Cons using that(1) heads by (intro first_prefix_head) blast
  qed
  have "list_all (\<lambda>c. 32 < byte c \<and> byte c < 128) (rev s)" using assms by (simp add: list_all_iff)
  then show ?thesis
    using fp [of unicode_spaces s] fp [of "map rev unicode_spaces" "rev s"] assms
    by (simp add: TrimSpace_def trim_left_id)
qed

lemma TrimPrefix_miss: "s = [] \<or> hd s \<noteq> x \<Longrightarrow> TrimPrefix s [x] = s"
  by (cases s) (auto simp: TrimPrefix_def HasPrefix_def)

lemma TrimSuffix_miss: "s = [] \<or> last s \<noteq> x \<Longrightarrow> TrimSuffix s [x] = s"
  using TrimPrefix_miss [of "rev s" x] by (auto simp: TrimSuffix_def hd_rev)

lemma SplitHostPort_no_colon: "CHR '':'' \<notin> set s \<Longrightarrow> SplitHostPort s = None"
proof -
  assume "CHR '':'' \<notin> set s"
  then have "dropWhile (\<lambda>c. c \<noteq> CHR '':'') (rev s) = []" by auto
  then have "split_last CHR '':'' s = None" unfolding split_last_def by (simp only: list.case)
  then show ?thesis by (simp add: SplitHostPort_def)
qed

lemma byte_less: "byte c < 256"
  using range_nat_of_char by (metis atLeastLessThan_iff rangeI)

lemma byte_char_of [simp]: "n < 256 \<Longrightarrow> byte (char_of n) = n"
  by simp

lemma ascii_lower_idem [simp]: "ascii_lower (ascii_lower c) = ascii_lower c"
  by (auto simp: ascii_lower_def)

lemma ascii_lower_ascii: "byte c < 128 \<Longrightarrow> byte (ascii_lower c) < 128"
  by (auto simp: ascii_lower_def)

lemma ToLower_ascii:
  assumes "list_all (\<lambda>c. byte c < 128) s"
  shows "ToLower E s = map ascii_lower s" and "list_all (\<lambda>c. byte c < 128) (ToLower E s)"
  using assms by (auto simp: ToLower_def list_all_iff ascii_lower_ascii)

lemma ToLower_idem_ascii:
  "list_all (\<lambda>c. byte c < 128) s \<Longrightarrow> ToLower E (ToLower E s) = ToLower E s"
  by (simp add: ToLower_ascii ToLower_def list_all_iff ascii_lower_ascii comp_def)

subsection \<open>Numbers survive printing and parsing\<close>

lemma digit_char_digit: "d < 10 \<Longrightarrow> is_digit (digit_char d) \<and> digit_val (digit_char d) = d"
  by (simp add: is_digit_def digit_val_def digit_char_def)

lemma nat_digits_all_digits: "list_all is_digit (nat_digits n)"
proof (induction n rule: nat_digits.induct)
  case (1 n)
  then show ?case
    by (cases "n < 10") (simp_all add: nat_digits.simps [of n] digit_char_digit)
qed

lemma nat_digits_nonempty [simp]: "nat_digits n \<noteq> []"
  by (subst nat_digits.simps) simp

lemma digits_val_append:
  "digits_val a (xs @ ys) =
     (case digits_val a xs of None \<Rightarrow> None | Some b \<Rightarrow> digits_val b ys)"
  by (induction xs arbitrary: a) auto

lemma digits_val_nat_digits: "digits_val 0 (nat_digits n) = Some n"
proof (induction n rule: nat_digits.induct)
  case (1 n)
  show ?case
  proof (cases "n < 10")
    case True
    then show ?thesis by (simp add: nat_digits.simps [of n] digit_char_digit)
  next
    case False
    with "1.IH" show ?thesis
      by (simp add: nat_digits.simps [of n] digit_char_digit digits_val_append)
  qed
qed

lemma nat_digits_head:
  obtains c cs where "nat_digits n = c # cs" "is_digit c"
  using nat_digits_all_digits [of n] nat_digits_nonempty [of n]
  by (cases "nat_digits n") auto

lemma signs_no_digit [simp]: "\<not> is_digit CHR ''-''" "\<not> is_digit CHR ''+''"
  "\<not> is_digit CHR '':''" "\<not> is_digit CHR ''[''" "\<not> is_digit CHR '']''" "\<not> is_digit CHR ''.''"
  by (simp_all add: is_digit_def)

lemma Atoi_Itoa: "int64 i \<Longrightarrow> Atoi (Itoa i) = Some i"
proof -
  assume i: "int64 i"
  show ?thesis
  proof (cases "i < 0")
    case True
    with i show ?thesis
      by (simp add: Itoa_def Atoi_def signed_decimal_def digits_val_nat_digits)
  next
    case False
    obtain c cs where c: "nat_digits (nat i) = c # cs" "is_digit c"
      by (rule nat_digits_head)
    then have "c \<noteq> CHR ''-''" "c \<noteq> CHR ''+''" by auto
    moreover have "digits_val 0 (c # cs) = Some (nat i)"
      using digits_val_nat_digits [of "nat i"] c by simp
    ultimately show ?thesis using False i c
      by (simp add: Itoa_def Atoi_def signed_decimal_def)
  qed
qed

lemma Itoa_inj: "int64 i \<Longrightarrow> int64 j \<Longrightarrow> Itoa i = Itoa j \<longleftrightarrow> i = j"
  using Atoi_Itoa by (metis option.inject)

lemma Itoa_clean:
  assumes "x \<in> set '':[].''"
  shows "x \<notin> set (Itoa i)"
proof -
  from assms have x: "x = CHR '':'' \<or> x = CHR ''['' \<or> x = CHR '']'' \<or> x = CHR ''.''" by auto
  then have "\<not> is_digit x" by auto
  then have "x \<notin> set (nat_digits n)" for n
    using nat_digits_all_digits [of n] by (auto simp: list_all_iff)
  with x show ?thesis by (auto simp: Itoa_def)
qed

subsection \<open>Host and port survive joining and splitting\<close>

lemma takeWhile_stop: "x \<notin> set ys \<Longrightarrow> takeWhile (\<lambda>c. c \<noteq> x) (ys @ x # zs) = ys"
  by (induction ys) auto

lemma dropWhile_stop: "x \<notin> set ys \<Longrightarrow> dropWhile (\<lambda>c. c \<noteq> x) (ys @ x # zs) = x # zs"
  by (induction ys) auto

lemma split_last_append: "x \<notin> set ys \<Longrightarrow> split_last x (xs @ x # ys) = Some (xs, ys)"
  by (simp add: split_last_def dropWhile_stop takeWhile_stop)

lemma SplitHostPort_JoinHostPort:
  assumes h: "CHR ''['' \<notin> set host" "CHR '']'' \<notin> set host"
    and p: "CHR '':'' \<notin> set port" "CHR ''['' \<notin> set port" "CHR '']'' \<notin> set port"
  shows "SplitHostPort (JoinHostPort host port) = Some (host, port)"
proof (cases "CHR '':'' \<in> set host")
  case True
  have "split_last CHR '':'' (''['' @ host @ '']'' @ CHR '':'' # port) = Some (''['' @ host @ '']'', port)"
    using split_last_append [OF p(1), of "''['' @ host @ '']''"] by simp
  moreover have "takeWhile (\<lambda>c. c \<noteq> CHR '']'') (''['' @ host @ '']:'' @ port) = ''['' @ host"
    using h(2) by (simp add: takeWhile_stop)
  ultimately show ?thesis using True h p
    by (simp add: JoinHostPort_def SplitHostPort_def HasPrefix_def)
next
  case False
  have "split_last CHR '':'' (host @ CHR '':'' # port) = Some (host, port)"
    using p(1) by (rule split_last_append)
  moreover have "\<not> HasPrefix (host @ CHR '':'' # port) ''[''"
    using h(1) by (cases host) (auto simp: HasPrefix_def)
  ultimately show ?thesis using False h p
    by (simp add: JoinHostPort_def SplitHostPort_def)
qed

subsection \<open>Constant-time comparison is equality\<close>

lemma byte_word_inj: "(of_nat (byte x) :: 8 word) = of_nat (byte y) \<longleftrightarrow> x = y"
  by (simp add: word_of_nat_eq_iff take_bit_nat_def mod_less [OF byte_less])

lemma xor_acc_zero:
  "length xs = length ys \<Longrightarrow> xor_acc v xs ys = 0 \<longleftrightarrow> v = 0 \<and> xs = ys"
proof (induction xs ys arbitrary: v rule: list_induct2)
  case Nil
  then show ?case by simp
next
  case (Cons x xs y ys)
  have "(of_nat (byte x) XOR of_nat (byte y) :: 8 word) = 0 \<longleftrightarrow> x = y"
    by (metis byte_word_inj bit.xor_self bit.xor_left_self xor.right_neutral)
  with Cons.IH show ?case by (auto simp: or_eq_0_iff)
qed

lemma ConstantTimeCompare_iff: "ConstantTimeCompare x y = 1 \<longleftrightarrow> x = y"
  using xor_acc_zero [of x y 0] by (auto simp: ConstantTimeCompare_def)

lemma length_hex_EncodeToString [simp]: "length (hex_EncodeToString bs) = 2 * length bs"
  by (induction bs) (auto simp: hex_EncodeToString_def)

end
