(* ===== verification/Go_Json.thy ===== *)
theory Go_Json
  imports Go_Std
begin

text \<open>
  JSON documents as \<open>encoding/json\<close> sees them. A document is modelled after lexing, as
  a value; a byte string that is no document is \<open>Garbage\<close>. Numbers that are written as
  integers are \<open>JInt\<close>, every other number literal is \<open>JNum\<close>. Objects keep their
  members in the order of the text, duplicates included.
\<close>

section \<open>Definitions\<close>

datatype json =
    JNull
  | JBool bool
  | JInt int
  | JNum string
  | JStr string
  | JArr "json list"
  | JObj "(string \<times> json) list"

datatype content = Empty | Garbage string | Doc json

text \<open>
  Member names are matched exactly or up to \<open>encoding/json\<close>'s folding: ASCII case, and
  the two non-ASCII characters whose simple folding is an ASCII letter (U+017F, U+212A).
\<close>

fun json_fold :: "string \<Rightarrow> string" where
  "json_fold [] = []"
| "json_fold [a] = [ascii_lower a]"
| "json_fold [a, b] =
     (if a = CHR 0xC5 \<and> b = CHR 0xBF then ''s'' else ascii_lower a # json_fold [b])"
| "json_fold (a # b # c # cs) =
     (if a = CHR 0xC5 \<and> b = CHR 0xBF then CHR ''s'' # json_fold (c # cs)
      else if a = CHR 0xE2 \<and> b = CHR 0x84 \<and> c = CHR 0xAA then CHR ''k'' # json_fold cs
      else ascii_lower a # json_fold (b # c # cs))"

definition field_match :: "string list \<Rightarrow> string \<Rightarrow> string option" where
  "field_match names key =
     (if key \<in> set names then Some key
      else find (\<lambda>f. json_fold f = json_fold key) names)"

text \<open>Decoding into a Go \<open>int\<close> or \<open>string\<close>: \<open>null\<close> leaves the old value.\<close>

definition dec_int :: "int \<Rightarrow> json \<Rightarrow> int option" where
  "dec_int old j =
     (case j of JNull \<Rightarrow> Some old | JInt i \<Rightarrow> if int64 i then Some i else None | _ \<Rightarrow> None)"

definition dec_string :: "string \<Rightarrow> json \<Rightarrow> string option" where
  "dec_string old j = (case j of JNull \<Rightarrow> Some old | JStr s \<Rightarrow> Some s | _ \<Rightarrow> None)"

section \<open>Lemmas\<close>

lemma dec_int_JInt [simp]: "int64 i \<Longrightarrow> dec_int old (JInt i) = Some i"
  by (simp add: dec_int_def)

lemma field_match_exact [simp]: "f \<in> set names \<Longrightarrow> field_match names f = Some f"
  by (simp add: field_match_def)

end
