(* ===== verification/Config.thy ===== *)
theory Config
  imports Go_Json
begin

text \<open>
  \<open>internal/config\<close>: the daemon configuration, its defaults and validation, and the
  mapping of the JSON or YAML config file onto command fields. A decoded file is a value
  of \<open>any\<close>, whose constructors are the dynamic types the decoders produce.
\<close>

section \<open>Definitions\<close>

subsection \<open>The configuration\<close>

abbreviation (input) MinLeaseTTL :: duration where "MinLeaseTTL \<equiv> 3000000000"
abbreviation (input) MaxLeaseTTL :: duration where "MaxLeaseTTL \<equiv> 3600000000000"

definition SectionSlug :: string where
  "SectionSlug = ''default''"

record DockerConfig =
  dk_Enabled :: bool
  dk_AllowNonLoopbackPublishedPorts :: bool

record HTTPConfig =
  hc_Enabled :: bool
  hc_HTTPAddr :: string
  hc_HTTPSAddr :: string
  hc_BaseDomain :: string
  hc_CertFile :: string
  hc_KeyFile :: string

record Config =
  cf_Socket :: string
  cf_TCPFrontendHost :: string
  cf_TCPFrontendMin :: int
  cf_TCPFrontendMax :: int
  cf_LeaseTTL :: duration
  cf_ShutdownTimeout :: duration
  cf_StatePath :: string
  cf_Docker :: DockerConfig
  cf_HTTP :: HTTPConfig

definition Default :: Config where
  "Default =
     \<lparr>cf_Socket = [],
      cf_TCPFrontendHost = ''127.0.0.1'',
      cf_TCPFrontendMin = 15000,
      cf_TCPFrontendMax = 19999,
      cf_LeaseTTL = 15 * Second,
      cf_ShutdownTimeout = 5 * Second,
      cf_StatePath = [],
      cf_Docker = \<lparr>dk_Enabled = True, dk_AllowNonLoopbackPublishedPorts = False\<rparr>,
      cf_HTTP = \<lparr>hc_Enabled = False, hc_HTTPAddr = ''127.0.0.1:8088'', hc_HTTPSAddr = ''127.0.0.1:8443'',
                 hc_BaseDomain = [], hc_CertFile = [], hc_KeyFile = []\<rparr>\<rparr>"

datatype config_error =
    BadPortRange int int
  | FrontendHostEmpty
  | BadLeaseTTL
  | BadShutdownTimeout
  | BadHTTPAddr string
  | BadHTTPSAddr string

definition Config_Validate :: "Config \<Rightarrow> config_error option" where
  "Config_Validate c =
     (if cf_TCPFrontendMin c < 1 \<or> cf_TCPFrontendMax c > 65535 \<or> cf_TCPFrontendMin c > cf_TCPFrontendMax c
      then Some (BadPortRange (cf_TCPFrontendMin c) (cf_TCPFrontendMax c))
      else if cf_TCPFrontendHost c = [] then Some FrontendHostEmpty
      else if cf_LeaseTTL c < MinLeaseTTL \<or> cf_LeaseTTL c > MaxLeaseTTL then Some BadLeaseTTL
      else if cf_ShutdownTimeout c \<le> 0 then Some BadShutdownTimeout
      else if hc_Enabled (cf_HTTP c) \<and> SplitHostPort (hc_HTTPAddr (cf_HTTP c)) = None
      then Some (BadHTTPAddr (hc_HTTPAddr (cf_HTTP c)))
      else if (hc_CertFile (cf_HTTP c) \<noteq> [] \<or> hc_KeyFile (cf_HTTP c) \<noteq> []) \<and>
              SplitHostPort (hc_HTTPSAddr (cf_HTTP c)) = None
      then Some (BadHTTPSAddr (hc_HTTPSAddr (cf_HTTP c)))
      else None)"

text \<open>The two directories are what \<open>os.UserConfigDir\<close> and \<open>os.UserHomeDir\<close> return.\<close>

definition DefaultStatePath :: "string option \<Rightarrow> string option \<Rightarrow> string" where
  "DefaultStatePath configDir homeDir =
     (case configDir of
        Some dir \<Rightarrow>
          if dir \<noteq> [] then filepath_Join [dir, ''devmesh'', ''state.json'']
          else (case homeDir of
                  None \<Rightarrow> ''devmesh-state.json''
                | Some home \<Rightarrow> filepath_Join [filepath_Join [home, ''.config''], ''devmesh'', ''state.json''])
      | None \<Rightarrow>
          (case homeDir of
             None \<Rightarrow> ''devmesh-state.json''
           | Some home \<Rightarrow> filepath_Join [filepath_Join [home, ''.config''], ''devmesh'', ''state.json'']))"

subsection \<open>The config file\<close>

text \<open>
  Dynamic values: \<open>AStringMap\<close> is a \<open>map[string]any\<close>, \<open>AAnyMap\<close> a \<open>map[any]any\<close>,
  \<open>ARaw\<close> a \<open>json.RawMessage\<close>. A number decoded from JSON is a \<open>float64\<close>, kept here as its
  literal.
\<close>

datatype any =
    ANil
  | ABool bool
  | AInt int
  | AFloat string
  | AStr string
  | ASlice "any list"
  | AStringMap "(string \<times> any) list"
  | AAnyMap "(any \<times> any) list"
  | ARaw content

datatype map_error =
    KeyNotString
  | NotAMapping
  | IdleTTLUnsupported
  | InSection string map_error

fun any_of_json :: "json \<Rightarrow> any"
  and any_of_members :: "(string \<times> json) list \<Rightarrow> (string, any) gomap \<Rightarrow> (string, any) gomap" where
  "any_of_json JNull = ANil"
| "any_of_json (JBool b) = ABool b"
| "any_of_json (JInt i) = AFloat (Itoa i)"
| "any_of_json (JNum n) = AFloat n"
| "any_of_json (JStr s) = AStr s"
| "any_of_json (JArr js) = ASlice (map any_of_json js)"
| "any_of_json (JObj kvs) = AStringMap (any_of_members kvs [])"
| "any_of_members [] m = m"
| "any_of_members ((k, j) # kvs) m = any_of_members kvs (mput k (any_of_json j) m)"

fun string_keys :: "(any \<times> any) list \<Rightarrow> (string, any) gomap \<Rightarrow> (string, any) gomap option" where
  "string_keys [] out = Some out"
| "string_keys ((AStr ks, val) # m) out = string_keys m (mput ks val out)"
| "string_keys ((_, val) # m) out = None"

fun asStringMap :: "any \<Rightarrow> (map_error, (string, any) gomap) result" where
  "asStringMap (AStringMap m) = Inr m"
| "asStringMap (AAnyMap m) = (case string_keys m [] of None \<Rightarrow> Inl KeyNotString | Some out \<Rightarrow> Inr out)"
| "asStringMap ANil = Inr []"
| "asStringMap (ARaw (Doc (JObj kvs))) = Inr (any_of_members kvs [])"
| "asStringMap (ARaw (Doc JNull)) = Inr []"
| "asStringMap _ = Inl NotAMapping"

definition file_put :: "string \<Rightarrow> any \<Rightarrow> (string, any) gomap \<Rightarrow> (string, any) gomap" where
  "file_put field v out = (if v \<noteq> ANil then mput field v out else out)"

definition file_key ::
  "string \<Rightarrow> any \<Rightarrow> (string, any) gomap \<Rightarrow> (map_error, (string, any) gomap) result" where
  "file_key key v out =
     (if key = ''runtime_idle_ttl'' then Inl IdleTTLUnsupported
      else if key = ''socket'' then Inr (file_put ''socket'' v out)
      else if key = ''state_path'' then Inr (file_put ''state'' v out)
      else if key = ''tcp_frontend_host'' then Inr (file_put ''tcp-frontend-host'' v out)
      else if key = ''tcp_frontend_min'' then Inr (file_put ''tcp-frontend-min'' v out)
      else if key = ''tcp_frontend_max'' then Inr (file_put ''tcp-frontend-max'' v out)
      else if key = ''lease_ttl'' then Inr (file_put ''lease-ttl'' v out)
      else if key = ''shutdown_timeout'' then Inr (file_put ''shutdown-timeout'' v out)
      else if key = ''docker'' then
        (case asStringMap v of
           Inl err \<Rightarrow> Inl (InSection ''docker'' err)
         | Inr m \<Rightarrow>
             Inr (file_put ''docker-allow-non-loopback-published-ports''
                    (mget0 ANil m ''allow_non_loopback_published_ports'')
                 (file_put ''docker-enabled'' (mget0 ANil m ''enabled'') out)))
      else if key = ''http'' then
        (case asStringMap v of
           Inl err \<Rightarrow> Inl (InSection ''http'' err)
         | Inr m \<Rightarrow>
             Inr (file_put ''http-key-file'' (mget0 ANil m ''key_file'')
                 (file_put ''http-cert-file'' (mget0 ANil m ''cert_file'')
                 (file_put ''http-base-domain'' (mget0 ANil m ''base_domain'')
                 (file_put ''https-addr'' (mget0 ANil m ''https_addr'')
                 (file_put ''http-addr'' (mget0 ANil m ''http_addr'')
                 (file_put ''http-enabled'' (mget0 ANil m ''enabled'') out)))))))
      else Inr out)"

fun file_loop :: "(string, any) gomap \<Rightarrow> (string, any) gomap \<Rightarrow> (map_error, (string, any) gomap) result" where
  "file_loop [] out = Inr out"
| "file_loop ((key, v) # root) out =
     (case file_key key v out of Inl err \<Rightarrow> Inl err | Inr out' \<Rightarrow> file_loop root out')"

definition FileMapper :: "any \<Rightarrow> (map_error, (string, (string, any) gomap) gomap) result" where
  "FileMapper raw =
     (case asStringMap raw of
        Inl err \<Rightarrow> Inl err
      | Inr root \<Rightarrow> (case file_loop root [] of
                       Inl err \<Rightarrow> Inl err
                     | Inr out \<Rightarrow> Inr [(SectionSlug, out)]))"

subsection \<open>What the file means\<close>

text \<open>
  The specification: where each command field comes from, as a path of keys in the file.
\<close>

definition field_table :: "(string \<times> string \<times> string option) list" where
  "field_table =
     [(''socket'', ''socket'', None), (''state'', ''state_path'', None),
      (''tcp-frontend-host'', ''tcp_frontend_host'', None),
      (''tcp-frontend-min'', ''tcp_frontend_min'', None),
      (''tcp-frontend-max'', ''tcp_frontend_max'', None),
      (''lease-ttl'', ''lease_ttl'', None), (''shutdown-timeout'', ''shutdown_timeout'', None),
      (''docker-enabled'', ''docker'', Some ''enabled''),
      (''docker-allow-non-loopback-published-ports'', ''docker'', Some ''allow_non_loopback_published_ports''),
      (''http-enabled'', ''http'', Some ''enabled''), (''http-addr'', ''http'', Some ''http_addr''),
      (''https-addr'', ''http'', Some ''https_addr''), (''http-base-domain'', ''http'', Some ''base_domain''),
      (''http-cert-file'', ''http'', Some ''cert_file''), (''http-key-file'', ''http'', Some ''key_file'')]"

definition field_path :: "string \<Rightarrow> (string \<times> string option) option" where
  "field_path f = map_of field_table f"

definition path_value :: "string option \<Rightarrow> any \<Rightarrow> any" where
  "path_value x v =
     (case x of None \<Rightarrow> v
      | Some k \<Rightarrow> (case asStringMap v of Inl _ \<Rightarrow> ANil | Inr m \<Rightarrow> mget0 ANil m k))"

definition file_value :: "(string, any) gomap \<Rightarrow> string \<Rightarrow> any" where
  "file_value root f =
     (case field_path f of None \<Rightarrow> ANil | Some (key, x) \<Rightarrow> path_value x (mget0 ANil root key))"

definition non_nil :: "any \<Rightarrow> any option" where
  "non_nil v = (if v = ANil then None else Some v)"

definition file_ok :: "(string, any) gomap \<Rightarrow> bool" where
  "file_ok root \<longleftrightarrow> mget root ''runtime_idle_ttl'' = None \<and>
     (\<forall>k \<in> {''docker'', ''http''}. \<exists>m. asStringMap (mget0 ANil root k) = Inr m)"

definition over :: "any \<Rightarrow> any option \<Rightarrow> any option" where
  "over v old = (if v = ANil then old else Some v)"

definition key_fields :: "string \<Rightarrow> (string \<times> string option) list" where
  "key_fields key = map (\<lambda>(f, k, x). (f, x)) (filter (\<lambda>(f, k, x). key = k) field_table)"

section \<open>Lemmas\<close>

lemma Default_valid: "Config_Validate Default = None"
  by (simp add: Config_Validate_def Default_def)

lemma mget_file_put:
  "mget (file_put g v out) f = (if f = g \<and> v \<noteq> ANil then Some v else mget out f)"
  by (simp add: file_put_def)

lemma field_table_distinct: "distinct (map fst field_table)"
  by (simp add: field_table_def)

lemma field_path_iff: "field_path f = Some (key, x) \<longleftrightarrow> (f, key, x) \<in> set field_table"
  using field_table_distinct by (simp add: field_path_def)

lemma key_fields_iff: "(f, x) \<in> set (key_fields key) \<longleftrightarrow> field_path f = Some (key, x)"
  by (force simp: key_fields_def field_path_iff)

text \<open>One key of the file sets the fields of its table entries, one after the other.\<close>

lemma file_key_fields:
  assumes "file_key key v out = Inr out'"
  shows "out' = fold (\<lambda>(f, x). file_put f (path_value x v)) (key_fields key) out"
proof -
  note defs = file_key_def key_fields_def field_table_def path_value_def
  show ?thesis
  proof (cases "key \<in> {''docker'', ''http''}")
    case True
    then consider "key = ''docker''" | "key = ''http''" by (simp only: insert_iff empty_iff) iprover
    then show ?thesis
      using assms by cases (cases "asStringMap v"; simp add: defs)+
  next
    case no_section: False
    show ?thesis
    proof (cases "key \<in> {''socket'', ''state_path'', ''tcp_frontend_host'', ''tcp_frontend_min'',
        ''tcp_frontend_max'', ''lease_ttl'', ''shutdown_timeout''}")
      case True
      then show ?thesis using assms unfolding insert_iff empty_iff
        by (elim disjE FalseE) (simp_all add: defs)
    next
      case False
      with no_section have "key_fields key = []" by (simp add: key_fields_def field_table_def)
      moreover have "out' = out"
        using False no_section assms by (simp add: file_key_def split: if_splits)
      ultimately show ?thesis by simp
    qed
  qed
qed

lemma mget_fold_put:
  "distinct (map fst fs) \<Longrightarrow>
     mget (fold (\<lambda>(f, x). file_put f (val x)) fs out) f =
       (case map_of fs f of None \<Rightarrow> mget out f | Some x \<Rightarrow> over (val x) (mget out f))"
proof (induction fs arbitrary: out)
  case (Cons a fs)
  obtain g x where a: "a = (g, x)" by fastforce
  have "map_of fs g = None" using Cons.prems a by (simp add: map_of_eq_None_iff)
  moreover have "distinct (map fst fs)" using Cons.prems by simp
  ultimately show ?case
    by (simp add: Cons.IH a mget_file_put over_def split: option.split)
qed simp

lemma file_key_get:
  assumes "file_key key v out = Inr out'"
  shows "mget out' f =
    (case field_path f of
       None \<Rightarrow> mget out f
     | Some (k, x) \<Rightarrow> if k = key then over (path_value x v) (mget out f) else mget out f)"
proof -
  have d: "distinct (map fst (key_fields key))"
    using field_table_distinct unfolding key_fields_def
    by (simp add: comp_def case_prod_beta distinct_map_filter)
  have "map_of (key_fields key) f = Some x \<longleftrightarrow> field_path f = Some (key, x)" for x
    using d key_fields_iff by simp
  then show ?thesis
    using mget_fold_put [OF d] file_key_fields [OF assms]
    by (auto split: option.splits) (metis option.distinct(1))+
qed

lemma file_key_ok:
  "(\<exists>out'. file_key key v out = Inr out') \<longleftrightarrow>
     key \<noteq> ''runtime_idle_ttl'' \<and> (key \<in> {''docker'', ''http''} \<longrightarrow> (\<exists>m. asStringMap v = Inr m))"
  by (auto simp: file_key_def split: sum.splits)

lemma file_loop_get:
  "mwf root \<Longrightarrow> file_loop root out = Inr out' \<Longrightarrow> mget out' f = over (file_value root f) (mget out f)"
proof (induction root out rule: file_loop.induct)
  case (1 out)
  then show ?case
    by (auto simp: over_def file_value_def path_value_def split: option.splits)
next
  case (2 key v root out)
  then obtain out1 where k: "file_key key v out = Inr out1" and l: "file_loop root out1 = Inr out'"
    by (auto split: sum.splits)
  have miss: "mget root key = None" "mwf root" using 2(2) by simp_all
  have "mget out' f = over (file_value root f) (mget out1 f)"
    using 2(1) [OF k miss(2) l] .
  then show ?case
    using file_key_get [OF k, of f] miss(1)
    by (auto simp: over_def file_value_def path_value_def mget0_def split: option.splits)
qed

lemma file_loop_ok:
  "mwf root \<Longrightarrow> (\<exists>out'. file_loop root out = Inr out') \<longleftrightarrow> file_ok root"
proof (induction root out rule: file_loop.induct)
  case (1 out)
  then show ?case by (simp add: file_ok_def)
next
  case (2 key v root out)
  have miss: "mget root key = None" "mwf root" using 2(2) by simp_all
  show ?case
  proof (cases "file_key key v out")
    case (Inl err)
    then show ?thesis using file_key_ok [of key v out] miss(1)
      by (auto simp: file_ok_def mget0_def)
  next
    case (Inr out1)
    then show ?thesis using file_key_ok [of key v out] miss 2(1) [OF Inr miss(2)]
      by (auto simp: file_ok_def mget0_def)
  qed
qed

text \<open>C14: The config file means what its documented shape says, whatever order the
  decoded map is iterated in: the mapper fails exactly when the file sets the removed
  \<open>runtime_idle_ttl\<close> or when \<open>docker\<close> or \<open>http\<close> is not a mapping; otherwise each command
  field is the value at its path in the file, absent when that value is missing or null,
  and no other field is set.\<close>

theorem FileMapper_meaning:
  assumes "asStringMap raw = Inr root" and "mwf root"
  shows "((\<exists>err. FileMapper raw = Inl err) \<longleftrightarrow> \<not> file_ok root) \<and>
    (\<forall>sections. FileMapper raw = Inr sections \<longrightarrow>
      mkeys sections = [SectionSlug] \<and>
      (\<forall>f. mget (the (mget sections SectionSlug)) f = non_nil (file_value root f)))"
proof -
  have "(\<exists>err. FileMapper raw = Inl err) \<longleftrightarrow> \<not> file_ok root"
    using assms file_loop_ok [OF assms(2), of "[]"]
    by (auto simp: FileMapper_def split: sum.splits)
  moreover have "mkeys sections = [SectionSlug] \<and>
      (\<forall>f. mget (the (mget sections SectionSlug)) f = non_nil (file_value root f))"
    if "FileMapper raw = Inr sections" for sections
    using that assms file_loop_get [OF assms(2), of "[]"]
    by (auto simp: FileMapper_def mkeys_def over_def non_nil_def split: sum.splits)
  ultimately show ?thesis by blast
qed

theorem FileMapper_meaning_witness:
  "\<exists>sections. FileMapper (AAnyMap [(AStr ''http'', AStringMap [(''http_addr'', AStr '':80'')]), (AStr ''extra'', ANil)]) =
       Inr sections \<and>
     mget (the (mget sections SectionSlug)) ''http-addr'' = Some (AStr '':80'') \<and>
     mget (the (mget sections SectionSlug)) ''docker-enabled'' = None"
proof -
  let ?raw = "AAnyMap [(AStr ''http'', AStringMap [(''http_addr'', AStr '':80'')]), (AStr ''extra'', ANil)]"
  let ?root = "[(''http'', AStringMap [(''http_addr'', AStr '':80'')]), (''extra'', ANil)]"
  have r: "asStringMap ?raw = Inr ?root" by (simp add: mput_def)
  have w: "mwf ?root" by simp
  have "file_ok ?root" by (simp add: file_ok_def mget0_def)
  then obtain sections where s: "FileMapper ?raw = Inr sections"
    using FileMapper_meaning [OF r w] by (cases "FileMapper ?raw") auto
  have "file_value ?root ''http-addr'' = AStr '':80''" "file_value ?root ''docker-enabled'' = ANil"
    by (simp_all add: file_value_def field_path_def field_table_def path_value_def mget0_def)
  with FileMapper_meaning [OF r w] s show ?thesis by (simp add: non_nil_def)
qed

end
