(* ===== verification/Lease.thy ===== *)
theory Lease
  imports Go_Std
begin

text \<open>
  \<open>internal/lease\<close>: time-bounded registrations. Every operation holds the manager's
  mutex for its whole body, so each is one atomic step here; \<open>time.Now()\<close> is an
  argument. The entries are pointers in the code and are changed in place only by
  \<open>Renew\<close>, under the lock; callers receive copies, so values model them.

  The interface \<open>lease_table\<close> states what the daemon relies on: a lease stays until it
  is renewed away, deleted with its token, removed, or taken at its expiry.
\<close>

section \<open>Definitions\<close>

datatype lease_error = LeaseNotFound | LeaseUnauthorized

record Entry =
  le_RegistrationID :: string
  le_Name :: string
  le_OwnerKey :: string
  le_Token :: string
  le_TTL :: duration
  le_ExpiresAt :: gotime

record LeaseManager =
  lm_ttl :: duration
  lm_entries :: "(string, Entry) gomap"

definition NewLeaseManager :: "duration \<Rightarrow> LeaseManager" where
  "NewLeaseManager ttl =
     \<lparr>lm_ttl = (if ttl \<le> 0 then 15 * Second else ttl), lm_entries = []\<rparr>"

definition Lease_TTL :: "LeaseManager \<Rightarrow> duration" where
  "Lease_TTL m = lm_ttl m"

text \<open>\<open>rand.Read\<close> gives the 32 bytes, or fails (\<open>None\<close>).\<close>

definition NewToken :: "string option \<Rightarrow> string option" where
  "NewToken rnd = (case rnd of None \<Rightarrow> None | Some buf \<Rightarrow> Some (hex_EncodeToString buf))"

definition AddWithTTL ::
  "gotime \<Rightarrow> LeaseManager \<Rightarrow> string \<Rightarrow> string \<Rightarrow> string \<Rightarrow> string \<Rightarrow> duration \<Rightarrow> LeaseManager \<times> Entry" where
  "AddWithTTL now m rid name ownerKey token ttl0 =
     (let ttl = (if ttl0 \<le> 0 then lm_ttl m else ttl0);
          e = \<lparr>le_RegistrationID = rid, le_Name = name, le_OwnerKey = ownerKey,
               le_Token = token, le_TTL = ttl, le_ExpiresAt = now + ttl\<rparr> in
      (m\<lparr>lm_entries := mput rid e (lm_entries m)\<rparr>, e))"

definition Lease_Add ::
  "gotime \<Rightarrow> LeaseManager \<Rightarrow> string \<Rightarrow> string \<Rightarrow> string \<Rightarrow> string \<Rightarrow> LeaseManager \<times> Entry" where
  "Lease_Add now m rid name ownerKey token = AddWithTTL now m rid name ownerKey token (lm_ttl m)"

definition tokenEqual :: "string \<Rightarrow> string \<Rightarrow> bool" where
  "tokenEqual a b \<longleftrightarrow> (if length a \<noteq> length b then False else ConstantTimeCompare a b = 1)"

definition Renew ::
  "gotime \<Rightarrow> LeaseManager \<Rightarrow> string \<Rightarrow> string \<Rightarrow> LeaseManager \<times> (lease_error, gotime) result" where
  "Renew now m rid token =
     (case mget (lm_entries m) rid of
        None \<Rightarrow> (m, Inl LeaseNotFound)
      | Some e \<Rightarrow>
          if \<not> now < le_ExpiresAt e
          then (m\<lparr>lm_entries := mdel rid (lm_entries m)\<rparr>, Inl LeaseNotFound)
          else if \<not> tokenEqual (le_Token e) token then (m, Inl LeaseUnauthorized)
          else (let e' = e\<lparr>le_ExpiresAt := now + le_TTL e\<rparr> in
                (m\<lparr>lm_entries := mput rid e' (lm_entries m)\<rparr>, Inr (le_ExpiresAt e'))))"

definition Lease_Delete ::
  "LeaseManager \<Rightarrow> string \<Rightarrow> string \<Rightarrow> LeaseManager \<times> lease_error option" where
  "Lease_Delete m rid token =
     (case mget (lm_entries m) rid of
        None \<Rightarrow> (m, Some LeaseNotFound)
      | Some e \<Rightarrow>
          if \<not> tokenEqual (le_Token e) token then (m, Some LeaseUnauthorized)
          else (m\<lparr>lm_entries := mdel rid (lm_entries m)\<rparr>, None))"

definition Lease_Remove :: "LeaseManager \<Rightarrow> string \<Rightarrow> LeaseManager" where
  "Lease_Remove m rid = m\<lparr>lm_entries := mdel rid (lm_entries m)\<rparr>"

definition Lease_Get :: "LeaseManager \<Rightarrow> string \<Rightarrow> Entry option" where
  "Lease_Get m rid = mget (lm_entries m) rid"

text \<open>The two loops over the entries, in the order of the iteration.\<close>

fun expired_loop :: "gotime \<Rightarrow> (string, Entry) gomap \<Rightarrow> Entry list" where
  "expired_loop now [] = []"
| "expired_loop now ((rid, e) # es) =
     (if \<not> now < le_ExpiresAt e then e # expired_loop now es else expired_loop now es)"

definition Lease_Expired :: "gotime \<Rightarrow> LeaseManager \<Rightarrow> Entry list" where
  "Lease_Expired now m = expired_loop now (lm_entries m)"

fun take_loop :: "gotime \<Rightarrow> (string, Entry) gomap \<Rightarrow> (string, Entry) gomap \<Rightarrow>
    (string, Entry) gomap \<times> Entry list" where
  "take_loop now [] m = (m, [])"
| "take_loop now ((rid, e) # es) m =
     (if \<not> now < le_ExpiresAt e
      then (let (m', out) = take_loop now es (mdel rid m) in (m', e # out))
      else take_loop now es m)"

definition TakeExpired :: "gotime \<Rightarrow> LeaseManager \<Rightarrow> LeaseManager \<times> Entry list" where
  "TakeExpired now m =
     (let (es, out) = take_loop now (lm_entries m) (lm_entries m) in
      (m\<lparr>lm_entries := es\<rparr>, out))"

definition Lease_Len :: "LeaseManager \<Rightarrow> int" where
  "Lease_Len m = int (length (lm_entries m))"

subsection \<open>Invariant\<close>

text \<open>
  Entries are stored under their own identity, with a positive duration; the default
  duration is positive.
\<close>

definition entry_ok :: "string \<Rightarrow> Entry \<Rightarrow> bool" where
  "entry_ok rid e \<longleftrightarrow> le_RegistrationID e = rid \<and> 0 < le_TTL e"

definition lease_wf :: "LeaseManager \<Rightarrow> bool" where
  "lease_wf m \<longleftrightarrow>
     mwf (lm_entries m) \<and> 0 < lm_ttl m \<and> list_all (\<lambda>(rid, e). entry_ok rid e) (lm_entries m)"

definition lease_live :: "gotime \<Rightarrow> Entry \<Rightarrow> bool" where
  "lease_live now e \<longleftrightarrow> now < le_ExpiresAt e"

text \<open>
  A timeline of one lease: heartbeats and sweeps with their times. It is \<open>on_time\<close>
  when each of them happens before the expiry that the previous heartbeat set.
\<close>

datatype lease_event = Beat gotime | Sweep gotime

fun on_time :: "gotime \<Rightarrow> duration \<Rightarrow> lease_event list \<Rightarrow> bool" where
  "on_time expiry ttl [] = True"
| "on_time expiry ttl (Beat t # evs) = (t < expiry \<and> on_time (t + ttl) ttl evs)"
| "on_time expiry ttl (Sweep t # evs) = (t < expiry \<and> on_time expiry ttl evs)"

fun run_lease :: "(gotime \<Rightarrow> 'm \<Rightarrow> string \<Rightarrow> string \<Rightarrow> 'm \<times> (lease_error, gotime) result) \<Rightarrow>
    (gotime \<Rightarrow> 'm \<Rightarrow> 'm \<times> Entry list) \<Rightarrow> string \<Rightarrow> string \<Rightarrow> lease_event list \<Rightarrow> 'm \<Rightarrow> 'm" where
  "run_lease renew sweep rid token [] m = m"
| "run_lease renew sweep rid token (Beat t # evs) m =
     run_lease renew sweep rid token evs (fst (renew t m rid token))"
| "run_lease renew sweep rid token (Sweep t # evs) m =
     run_lease renew sweep rid token evs (fst (sweep t m))"

section \<open>Lemmas\<close>

lemma tokenEqual_iff [simp]: "tokenEqual a b \<longleftrightarrow> a = b"
  by (auto simp: tokenEqual_def ConstantTimeCompare_iff)

lemma NewToken_length: "NewToken (Some buf) = Some t \<Longrightarrow> length buf = 32 \<Longrightarrow> length t = 64"
  by (auto simp: NewToken_def)

subsection \<open>Well-formedness\<close>

lemma lease_wf_New [simp]: "lease_wf (NewLeaseManager ttl)"
  by (simp add: lease_wf_def NewLeaseManager_def)

lemma lease_wf_mget: "lease_wf m \<Longrightarrow> mget (lm_entries m) rid = Some e \<Longrightarrow> entry_ok rid e"
  by (auto simp: lease_wf_def list_all_iff dest: mget_in)

lemma lease_wf_mput:
  "lease_wf m \<Longrightarrow> entry_ok rid e \<Longrightarrow> lease_wf (m\<lparr>lm_entries := mput rid e (lm_entries m)\<rparr>)"
  by (simp add: lease_wf_def list_all_mput)

lemma lease_wf_mdel: "lease_wf m \<Longrightarrow> lease_wf (m\<lparr>lm_entries := mdel rid (lm_entries m)\<rparr>)"
  by (simp add: lease_wf_def list_all_mdel)

lemma lease_wf_Add [wf_intros]:
  "lease_wf m \<Longrightarrow> lease_wf (fst (AddWithTTL now m rid name ownerKey token ttl))"
  by (auto simp: AddWithTTL_def Let_def entry_ok_def lease_wf_def intro!: list_all_mput)

lemma lease_wf_Renew [wf_intros]: "lease_wf m \<Longrightarrow> lease_wf (fst (Renew now m rid token))"
  by (auto simp: Renew_def Let_def entry_ok_def split: option.splits
      intro!: lease_wf_mput lease_wf_mdel dest: lease_wf_mget)

lemma lease_wf_Delete [wf_intros]: "lease_wf m \<Longrightarrow> lease_wf (fst (Lease_Delete m rid token))"
  by (auto simp: Lease_Delete_def split: option.splits intro!: lease_wf_mdel)

lemma lease_wf_Remove [wf_intros]: "lease_wf m \<Longrightarrow> lease_wf (Lease_Remove m rid)"
  by (simp add: Lease_Remove_def lease_wf_mdel)

subsection \<open>Taking the expired entries\<close>

lemma expired_loop_filter: "expired_loop now es = map snd (filter (\<lambda>(rid, e). \<not> lease_live now e) es)"
  by (induction es) (auto simp: lease_live_def)

lemma take_loop_out: "snd (take_loop now es m) = expired_loop now es"
  by (induction es arbitrary: m) (auto simp: case_prod_beta)

lemma take_loop_rest:
  "fst (take_loop now es m) = fold mdel (map fst (filter (\<lambda>(rid, e). \<not> lease_live now e) es)) m"
  by (induction es arbitrary: m) (auto simp: case_prod_beta lease_live_def)

lemma TakeExpired_entries:
  assumes "mwf (lm_entries m)"
  shows "mget (lm_entries (fst (TakeExpired now m))) rid =
    (case mget (lm_entries m) rid of
       None \<Rightarrow> None | Some e \<Rightarrow> if lease_live now e then Some e else None)"
proof -
  let ?es = "lm_entries m"
  have dead: "rid \<in> set (map fst (filter (\<lambda>(rid, e). \<not> lease_live now e) ?es)) \<longleftrightarrow>
      (\<exists>e. mget ?es rid = Some e \<and> \<not> lease_live now e)"
    using assms by (force simp: mget_iff)
  have "lm_entries (fst (TakeExpired now m)) = fst (take_loop now ?es ?es)"
    by (simp add: TakeExpired_def case_prod_beta)
  then have "mget (lm_entries (fst (TakeExpired now m))) rid =
      (if rid \<in> set (map fst (filter (\<lambda>(rid, e). \<not> lease_live now e) ?es)) then None else mget ?es rid)"
    by (simp only: take_loop_rest gm.dels_get)
  with dead show ?thesis by (auto split: option.splits)
qed

lemma TakeExpired_out: "snd (TakeExpired now m) = Lease_Expired now m"
  by (simp add: TakeExpired_def Lease_Expired_def take_loop_out case_prod_beta)

lemma Lease_Expired_set:
  assumes "lease_wf m"
  shows "e \<in> set (Lease_Expired now m) \<longleftrightarrow>
    Lease_Get m (le_RegistrationID e) = Some e \<and> \<not> lease_live now e"
proof -
  from assms have "mwf (lm_entries m)"
    and ids: "\<And>rid. (rid, e) \<in> set (lm_entries m) \<Longrightarrow> rid = le_RegistrationID e"
    by (auto simp: lease_wf_def list_all_iff entry_ok_def)
  then have "Lease_Get m (le_RegistrationID e) = Some e \<longleftrightarrow> (\<exists>rid. (rid, e) \<in> set (lm_entries m))"
    by (auto simp: Lease_Get_def mget_iff)
  moreover have "e \<in> set (Lease_Expired now m) \<longleftrightarrow>
      (\<exists>rid. (rid, e) \<in> set (lm_entries m)) \<and> \<not> lease_live now e"
    by (force simp: Lease_Expired_def expired_loop_filter)
  ultimately show ?thesis by simp
qed

lemma lease_wf_TakeExpired [wf_intros]:
  assumes "lease_wf m" shows "lease_wf (fst (TakeExpired now m))"
proof -
  have "list_all P es \<Longrightarrow> list_all P (fold mdel ks es)" for P and es :: "(string, Entry) gomap" and ks
    by (induction ks arbitrary: es) (simp_all add: list_all_mdel)
  with assms show ?thesis
    by (simp add: lease_wf_def TakeExpired_def case_prod_beta take_loop_rest gm.dels_ok)
qed

subsection \<open>Each operation on every branch\<close>

lemma Renew_not_found: "Lease_Get m rid = None \<Longrightarrow> Renew now m rid token = (m, Inl LeaseNotFound)"
  by (simp add: Renew_def Lease_Get_def)

lemma Renew_expired:
  "Lease_Get m rid = Some e \<Longrightarrow> \<not> lease_live now e \<Longrightarrow>
     Renew now m rid token = (Lease_Remove m rid, Inl LeaseNotFound)"
  by (simp add: Renew_def Lease_Get_def lease_live_def Lease_Remove_def)

lemma Renew_unauthorized:
  "Lease_Get m rid = Some e \<Longrightarrow> lease_live now e \<Longrightarrow> token \<noteq> le_Token e \<Longrightarrow>
     Renew now m rid token = (m, Inl LeaseUnauthorized)"
  by (auto simp: Renew_def Lease_Get_def lease_live_def)

lemma Renew_ok:
  "Lease_Get m rid = Some e \<Longrightarrow> lease_live now e \<Longrightarrow>
     Renew now m rid (le_Token e) =
       (m\<lparr>lm_entries := mput rid (e\<lparr>le_ExpiresAt := now + le_TTL e\<rparr>) (lm_entries m)\<rparr>,
        Inr (now + le_TTL e))"
  by (simp add: Renew_def Lease_Get_def lease_live_def Let_def)

lemma Lease_Get_Remove [simp]:
  "Lease_Get (Lease_Remove m rid) j = (if j = rid then None else Lease_Get m j)"
  by (simp add: Lease_Get_def Lease_Remove_def)

lemma Lease_Get_Add [simp]:
  "Lease_Get (fst (AddWithTTL now m rid name ownerKey token ttl)) j =
     (if j = rid then Some (snd (AddWithTTL now m rid name ownerKey token ttl)) else Lease_Get m j)"
  by (simp add: Lease_Get_def AddWithTTL_def Let_def)

lemma Lease_Delete_cases:
  "Lease_Delete m rid token =
     (case Lease_Get m rid of
        None \<Rightarrow> (m, Some LeaseNotFound)
      | Some e \<Rightarrow> if token = le_Token e then (Lease_Remove m rid, None)
                  else (m, Some LeaseUnauthorized))"
  by (auto simp: Lease_Delete_def Lease_Get_def Lease_Remove_def split: option.splits)

lemma Renew_get:
  "Lease_Get (fst (Renew now m rid token)) j =
     (case Lease_Get m j of
        None \<Rightarrow> None
      | Some e \<Rightarrow>
          if j \<noteq> rid then Some e
          else if \<not> lease_live now e then None
          else if token \<noteq> le_Token e then Some e
          else Some (e\<lparr>le_ExpiresAt := now + le_TTL e\<rparr>))"
  by (auto simp: Renew_def Lease_Get_def lease_live_def Let_def split: option.splits)

subsection \<open>The interface the daemon relies on\<close>

locale lease_table =
  fixes get :: "'m \<Rightarrow> string \<Rightarrow> Entry option"
    and renew :: "gotime \<Rightarrow> 'm \<Rightarrow> string \<Rightarrow> string \<Rightarrow> 'm \<times> (lease_error, gotime) result"
    and sweep :: "gotime \<Rightarrow> 'm \<Rightarrow> 'm \<times> Entry list"
    and ok :: "'m \<Rightarrow> bool"
  assumes renew_live: "get m rid = Some e \<Longrightarrow> lease_live now e \<Longrightarrow>
      snd (renew now m rid (le_Token e)) = Inr (now + le_TTL e) \<and>
      get (fst (renew now m rid (le_Token e))) j =
        (if j = rid then Some (e\<lparr>le_ExpiresAt := now + le_TTL e\<rparr>) else get m j)"
    and renew_gone: "get m rid = None \<Longrightarrow> renew now m rid token = (m, Inl LeaseNotFound)"
    and sweep_get: "ok m \<Longrightarrow> get (fst (sweep now m)) rid =
      (case get m rid of None \<Rightarrow> None | Some e \<Rightarrow> if lease_live now e then Some e else None)"
    and sweep_out: "ok m \<Longrightarrow> e \<in> set (snd (sweep now m)) \<longleftrightarrow>
      get m (le_RegistrationID e) = Some e \<and> \<not> lease_live now e"
    and renew_ok: "ok m \<Longrightarrow> ok (fst (renew now m rid token))"
    and sweep_ok: "ok m \<Longrightarrow> ok (fst (sweep now m))"
begin

text \<open>Heartbeats in time keep a lease alive through any number of sweeps.\<close>

lemma keep_alive:
  "ok m \<Longrightarrow> get m rid = Some e \<Longrightarrow> on_time (le_ExpiresAt e) (le_TTL e) evs \<Longrightarrow>
   \<exists>expiry. get (run_lease renew sweep rid (le_Token e) evs m) rid = Some (e\<lparr>le_ExpiresAt := expiry\<rparr>)"
proof (induction evs arbitrary: m e)
  case Nil
  then show ?case by (auto intro: exI [of _ "le_ExpiresAt e"])
next
  case (Cons ev evs)
  show ?case
  proof (cases ev)
    case (Beat t)
    let ?e = "e\<lparr>le_ExpiresAt := t + le_TTL e\<rparr>"
    let ?m = "fst (renew t m rid (le_Token e))"
    have "get ?m rid = Some ?e"
      using renew_live [OF Cons.prems(2), of t rid] Cons.prems(3) Beat by (simp add: lease_live_def)
    then show ?thesis
      using Cons.IH [of ?m ?e] Cons.prems Beat by (simp add: renew_ok)
  next
    case (Sweep t)
    have "get (fst (sweep t m)) rid = Some e"
      using sweep_get [OF Cons.prems(1), of t rid] Cons.prems Sweep by (simp add: lease_live_def)
    then show ?thesis
      using Cons.IH [of "fst (sweep t m)" e] Cons.prems Sweep by (simp add: sweep_ok)
  qed
qed

text \<open>What a sweep took stays gone: it can no longer be renewed.\<close>

lemma swept_not_renewable:
  assumes "ok m" and "e \<in> set (snd (sweep t m))"
  shows "renew now (fst (sweep t m)) (le_RegistrationID e) token = (fst (sweep t m), Inl LeaseNotFound)"
  using assms by (intro renew_gone) (simp add: sweep_get sweep_out)

end

interpretation leases: lease_table Lease_Get Renew TakeExpired lease_wf
proof (unfold_locales, goal_cases)
  case (1 m rid e now j)
  then show ?case by (simp add: Renew_ok) (simp add: Lease_Get_def)
next
  case (2 m rid now token)
  then show ?case by (rule Renew_not_found)
next
  case (3 m now rid)
  then show ?case by (simp add: Lease_Get_def TakeExpired_entries lease_wf_def)
next
  case (4 m e now)
  then show ?case by (simp add: TakeExpired_out Lease_Expired_set)
qed (rule lease_wf_Renew lease_wf_TakeExpired; assumption)+

subsection \<open>Properties\<close>

text \<open>\<open>Renew\<close> on every branch. It succeeds exactly for a known, unexpired lease with
  the right token, and then the new expiry is now plus the lease's own duration, which
  stays in force; an expired lease is dropped and reported as unknown; a wrong token
  changes nothing; no other lease is touched.\<close>

theorem Renew_spec:
  "(\<exists>t. snd (Renew now m rid token) = Inr t) =
     (\<exists>e. Lease_Get m rid = Some e \<and> now < le_ExpiresAt e \<and> token = le_Token e) \<and>
   Lease_Get (fst (Renew now m rid token)) j =
     (case Lease_Get m j of
        None \<Rightarrow> None
      | Some e \<Rightarrow>
          if j \<noteq> rid then Some e
          else if now \<ge> le_ExpiresAt e then None
          else if token \<noteq> le_Token e then Some e
          else Some (e\<lparr>le_ExpiresAt := now + le_TTL e\<rparr>))"
proof
  show "(\<exists>t. snd (Renew now m rid token) = Inr t) =
     (\<exists>e. Lease_Get m rid = Some e \<and> now < le_ExpiresAt e \<and> token = le_Token e)"
    by (auto simp: Renew_def Lease_Get_def Let_def split: option.splits)
qed (auto simp: Renew_get lease_live_def split: option.splits)

text \<open>\<open>TakeExpired\<close> splits the leases exactly: it returns the entries whose expiry
  has passed, keeps precisely the others, and none of the entries it took can be renewed
  afterwards, at any time and with any token.\<close>

theorem TakeExpired_exact:
  assumes "lease_wf m"
  shows "set (snd (TakeExpired now m)) =
      {e. Lease_Get m (le_RegistrationID e) = Some e \<and> le_ExpiresAt e \<le> now} \<and>
    Lease_Get (fst (TakeExpired now m)) rid =
      (case Lease_Get m rid of None \<Rightarrow> None | Some e \<Rightarrow> if now < le_ExpiresAt e then Some e else None) \<and>
    (\<forall>e \<in> set (snd (TakeExpired now m)).
       Renew later (fst (TakeExpired now m)) (le_RegistrationID e) token =
         (fst (TakeExpired now m), Inl LeaseNotFound))"
  using leases.sweep_out [OF assms] leases.sweep_get [OF assms]
    leases.swept_not_renewable [OF assms]
  by (auto simp: lease_live_def split: option.splits)

text \<open>The manager of the witnesses: one lease of three seconds.\<close>

definition sample_lease :: LeaseManager where
  "sample_lease = fst (AddWithTTL 100 (NewLeaseManager (15 * Second)) ''r1'' ''db'' ''process:r1'' ''tok'' (3 * Second))"

lemma sample_lease_wf: "lease_wf sample_lease"
  unfolding sample_lease_def by (intro wf_intros) simp

text \<open>A producer whose heartbeats each arrive before the current expiry keeps its
  lease: after any on-time interleaving of heartbeats and sweeps the entry is still
  there, with its identity, token and duration unchanged.\<close>

theorem heartbeats_keep_lease:
  assumes "lease_wf m" and "Lease_Get m rid = Some e"
    and "on_time (le_ExpiresAt e) (le_TTL e) evs"
  shows "\<exists>expiry. Lease_Get (run_lease Renew TakeExpired rid (le_Token e) evs m) rid =
    Some (e\<lparr>le_ExpiresAt := expiry\<rparr>)"
  using assms by (rule leases.keep_alive)

end
