(* ===== verification/Registry.thy ===== *)
theory Registry
  imports Go_Std
begin

text \<open>
  \<open>internal/registry\<close>: the domain model (names, kinds, backends, frontends, service
  records), its validation functions and the in-memory registry with its ownership
  rules. The registry's mutex makes each operation one atomic step; an operation that
  changes the registry returns the new one. Copies made by \<open>Clone\<close> are values here, so
  a caller can never alias the registry's own record.

  The interface \<open>publication_table\<close> states what the daemon relies on (who may claim a
  name, which removal takes effect); the registry interprets it at the end.
\<close>

section \<open>Definitions\<close>

subsection \<open>Data model (model.go)\<close>

type_synonym Kind = string
type_synonym Source = string

abbreviation KindTCP :: Kind where "KindTCP \<equiv> ''tcp''"
abbreviation KindHTTP :: Kind where "KindHTTP \<equiv> ''http''"

definition ParseKind :: "string \<Rightarrow> Kind option" where
  "ParseKind s = (if s = KindTCP \<or> s = KindHTTP then Some s else None)"

abbreviation SourceProcess :: Source where "SourceProcess \<equiv> ''process''"
abbreviation SourceDocker :: Source where "SourceDocker \<equiv> ''docker''"
abbreviation SourceManual :: Source where "SourceManual \<equiv> ''manual''"

datatype Status = StatusReady | StatusUnavailable

fun Status_string :: "Status \<Rightarrow> string" where
  "Status_string StatusReady = ''ready''"
| "Status_string StatusUnavailable = ''unavailable''"

record Backend =
  be_Host :: string
  be_Port :: int

definition Backend_Addr :: "Backend \<Rightarrow> string" where
  "Backend_Addr b = JoinHostPort (be_Host b) (Itoa (be_Port b))"

record Frontend =
  fe_Host :: string
  fe_Port :: int
  fe_URL :: string

definition Frontend_Addr :: "Frontend \<Rightarrow> string" where
  "Frontend_Addr f = JoinHostPort (fe_Host f) (Itoa (fe_Port f))"

record ServiceRecord =
  sr_Name :: string
  sr_Kind :: Kind
  sr_AppProtocol :: string
  sr_OwnerKey :: string
  sr_ProducerID :: string
  sr_Source :: Source
  sr_Backend :: "Backend option"
  sr_Frontend :: Frontend
  sr_Hostname :: string
  sr_Status :: Status
  sr_DockerContainerID :: string
  sr_UpdatedAt :: gotime

definition Clone :: "ServiceRecord \<Rightarrow> ServiceRecord" where
  "Clone r =
     (case sr_Backend r of
        None \<Rightarrow> r
      | Some b \<Rightarrow> r\<lparr>sr_Backend := Some \<lparr>be_Host = be_Host b, be_Port = be_Port b\<rparr>\<rparr>)"

subsection \<open>Validation (model.go)\<close>

definition name_alnum :: "char \<Rightarrow> bool" where
  "name_alnum c \<longleftrightarrow> (97 \<le> byte c \<and> byte c \<le> 122) \<or> (48 \<le> byte c \<and> byte c \<le> 57)"

definition name_char :: "char \<Rightarrow> bool" where
  "name_char c \<longleftrightarrow> name_alnum c \<or> c = CHR ''-''"

text \<open>
  The matcher of \<open>nameRe\<close> as its two-state automaton: at the start of a label, and
  inside one.
\<close>

fun nameRe_label :: "string \<Rightarrow> bool"
and nameRe_rest :: "string \<Rightarrow> bool" where
  "nameRe_label [] = False"
| "nameRe_label (c # cs) = (name_alnum c \<and> nameRe_rest cs)"
| "nameRe_rest [] = True"
| "nameRe_rest (c # cs) =
     (if c = CHR ''.'' then nameRe_label cs else name_char c \<and> nameRe_rest cs)"

datatype name_error = NameEmpty | NameTooLong | NameMismatch

definition ValidateName :: "string \<Rightarrow> name_error option" where
  "ValidateName name =
     (if name = [] then Some NameEmpty
      else if 120 < length name then Some NameTooLong
      else if \<not> nameRe_label name then Some NameMismatch
      else None)"

fun all_loopback :: "string list \<Rightarrow> bool" where
  "all_loopback [] = True"
| "all_loopback (a # as) =
     (case ParseIP a of
        None \<Rightarrow> False
      | Some ip \<Rightarrow> if \<not> IsLoopback ip then False else all_loopback as)"

definition IsLoopbackHost :: "go_env \<Rightarrow> string \<Rightarrow> bool" where
  "IsLoopbackHost E host =
     (let h = Trim host ''[]'' in
      if h = ''localhost'' then True
      else case ParseIP h of
        Some ip \<Rightarrow> IsLoopback ip
      | None \<Rightarrow>
          (case env_LookupHost E h of
             None \<Rightarrow> False
           | Some addrs \<Rightarrow> if addrs = [] then False else all_loopback addrs))"

datatype backend_error = PortOutOfRange int | HostEmpty | HostNotLoopback string

definition ValidateBackend :: "go_env \<Rightarrow> Backend \<Rightarrow> backend_error option" where
  "ValidateBackend E b =
     (if be_Port b \<le> 0 \<or> be_Port b > 65535 then Some (PortOutOfRange (be_Port b))
      else if TrimSpace (be_Host b) = [] then Some HostEmpty
      else if \<not> IsLoopbackHost E (be_Host b) then Some (HostNotLoopback (be_Host b))
      else None)"

subsection \<open>The registry (registry.go, errors.go)\<close>

record NameConflictError =
  nc_Name :: string
  nc_OwnerKey :: string

record Registry =
  services :: "(string, ServiceRecord) gomap"

definition NewRegistry :: Registry where
  "NewRegistry = \<lparr>services = []\<rparr>"

definition CheckOwnership :: "Registry \<Rightarrow> string \<Rightarrow> string \<Rightarrow> NameConflictError option" where
  "CheckOwnership r name ownerKey =
     (case mget (services r) name of
        None \<Rightarrow> None
      | Some existing \<Rightarrow>
          if sr_OwnerKey existing \<noteq> ownerKey \<and> sr_Status existing \<noteq> StatusUnavailable
          then Some \<lparr>nc_Name = name, nc_OwnerKey = ownerKey\<rparr>
          else None)"

definition CreateOrReplaceOwned ::
  "gotime \<Rightarrow> Registry \<Rightarrow> ServiceRecord \<Rightarrow> Registry \<times> (NameConflictError, ServiceRecord) result" where
  "CreateOrReplaceOwned now r rec =
     (let rec' = (if sr_UpdatedAt rec = zero_time then rec\<lparr>sr_UpdatedAt := now\<rparr> else rec);
          r' = r\<lparr>services := mput (sr_Name rec') rec' (services r)\<rparr> in
      case mget (services r) (sr_Name rec) of
        None \<Rightarrow> (r', Inr (Clone rec'))
      | Some existing \<Rightarrow>
          if sr_OwnerKey existing \<noteq> sr_OwnerKey rec \<and> sr_Status existing \<noteq> StatusUnavailable
          then (r, Inl \<lparr>nc_Name = sr_Name rec, nc_OwnerKey = sr_OwnerKey rec\<rparr>)
          else (r', Inr (Clone rec')))"

definition SetBackend :: "gotime \<Rightarrow> Registry \<Rightarrow> string \<Rightarrow> string \<Rightarrow> Backend \<Rightarrow> Registry \<times> bool" where
  "SetBackend now r name ownerKey b =
     (case mget (services r) name of
        None \<Rightarrow> (r, False)
      | Some rec \<Rightarrow>
          if sr_OwnerKey rec \<noteq> ownerKey then (r, False)
          else (r\<lparr>services := mput name
                  (rec\<lparr>sr_Backend := Some b, sr_Status := StatusReady, sr_UpdatedAt := now\<rparr>)
                  (services r)\<rparr>, True))"

definition ClearBackendIf :: "gotime \<Rightarrow> Registry \<Rightarrow> string \<Rightarrow> string \<Rightarrow> Registry \<times> bool" where
  "ClearBackendIf now r name producerID =
     (case mget (services r) name of
        None \<Rightarrow> (r, False)
      | Some rec \<Rightarrow>
          if sr_ProducerID rec \<noteq> producerID then (r, False)
          else (r\<lparr>services := mput name
                  (rec\<lparr>sr_Backend := None, sr_Status := StatusUnavailable, sr_UpdatedAt := now\<rparr>)
                  (services r)\<rparr>, True))"

definition FindByHostname :: "Registry \<Rightarrow> string \<Rightarrow> ServiceRecord option" where
  "FindByHostname r hostname =
     map_option Clone (find (\<lambda>rec. sr_Hostname rec = hostname) (map snd (services r)))"

definition Registry_Remove :: "Registry \<Rightarrow> string \<Rightarrow> Registry \<times> bool" where
  "Registry_Remove r ownerKey =
     (case find (\<lambda>(name, rec). sr_OwnerKey rec = ownerKey) (services r) of
        None \<Rightarrow> (r, False)
      | Some (name, _) \<Rightarrow> (r\<lparr>services := mdel name (services r)\<rparr>, True))"

definition Registry_Resolve :: "Registry \<Rightarrow> string \<Rightarrow> ServiceRecord option" where
  "Registry_Resolve r name = map_option Clone (mget (services r) name)"

definition Registry_List :: "Registry \<Rightarrow> ServiceRecord list" where
  "Registry_List r = sort_key sr_Name (map (\<lambda>(name, rec). Clone rec) (services r))"

definition Registry_Len :: "Registry \<Rightarrow> int" where
  "Registry_Len r = int (length (services r))"

subsection \<open>Invariant and reference definitions\<close>

text \<open>
  A record is stored under its own name, and it is ready exactly while it has a
  backend.
\<close>

definition rec_ok :: "string \<Rightarrow> ServiceRecord \<Rightarrow> bool" where
  "rec_ok name rec \<longleftrightarrow>
     sr_Name rec = name \<and> (sr_Status rec = StatusReady \<longleftrightarrow> sr_Backend rec \<noteq> None)"

definition reg_wf :: "Registry \<Rightarrow> bool" where
  "reg_wf r \<longleftrightarrow> mwf (services r) \<and> list_all (\<lambda>(name, rec). rec_ok name rec) (services r)"

text \<open>The grammar that the documentation of \<open>nameRe\<close> gives: dot-separated labels.\<close>

definition name_label :: "string \<Rightarrow> bool" where
  "name_label l \<longleftrightarrow> (case l of [] \<Rightarrow> False | c # cs \<Rightarrow> name_alnum c \<and> list_all name_char cs)"

fun join_dots :: "string list \<Rightarrow> string" where
  "join_dots [] = []"
| "join_dots [l] = l"
| "join_dots (l # ls) = l @ ''.'' @ join_dots ls"

section \<open>Lemmas\<close>

lemma Clone_id [simp]: "Clone r = r"
  by (simp add: Clone_def split: option.splits)

lemma Clone_eq_id: "Clone = id"
  by (simp add: fun_eq_iff)

lemma Registry_Resolve_mget: "Registry_Resolve r name = mget (services r) name"
  by (simp add: Registry_Resolve_def Clone_eq_id option.map_id)

lemma FindByHostname_find:
  "FindByHostname r h = find (\<lambda>rec. sr_Hostname rec = h) (map snd (services r))"
  by (simp add: FindByHostname_def Clone_eq_id option.map_id)

subsection \<open>Names\<close>

lemma dot_no_name_char [simp]: "\<not> name_char CHR ''.''" "\<not> name_alnum CHR ''.''"
  by (simp_all add: name_char_def name_alnum_def)

lemma name_label_Cons [simp]: "name_label (c # cs) \<longleftrightarrow> name_alnum c \<and> list_all name_char cs"
  by (simp add: name_label_def)

lemma name_label_Nil [simp]: "\<not> name_label []"
  by (simp add: name_label_def)

lemma nameRe_rest_append: "list_all name_char cs \<Longrightarrow> nameRe_rest (cs @ t) = nameRe_rest t"
  by (induction cs) auto

lemma nameRe_label_join:
  "ls \<noteq> [] \<Longrightarrow> list_all name_label ls \<Longrightarrow> nameRe_label (join_dots ls)"
proof (induction ls rule: join_dots.induct)
  case (2 l)
  then show ?case
    using nameRe_rest_append [of "tl l" "[]"] by (cases l) auto
next
  case (3 l m ls)
  then show ?case
    by (cases l) (auto simp: nameRe_rest_append)
qed simp

lemma join_dots_Cons: "ls \<noteq> [] \<Longrightarrow> join_dots (l # ls) = l @ ''.'' @ join_dots ls"
  by (cases ls) auto

lemma nameRe_split:
  "nameRe_label s \<Longrightarrow> \<exists>ls. ls \<noteq> [] \<and> list_all name_label ls \<and> s = join_dots ls"
  "nameRe_rest s \<Longrightarrow> \<exists>cs ls. list_all name_char cs \<and> list_all name_label ls \<and> s = join_dots (cs # ls)"
proof (induction s and s rule: nameRe_label_nameRe_rest.induct)
  case (2 c cs)
  then obtain ds ls where ds: "list_all name_char ds" "list_all name_label ls" "cs = join_dots (ds # ls)"
    by auto
  then have "c # cs = join_dots ((c # ds) # ls)" by (cases ls) auto
  with ds 2 show ?case
    by (intro exI [of _ "(c # ds) # ls"]) simp
next
  case 3
  show ?case by (intro exI [of _ "[]"]) simp
next
  case (4 c cs)
  show ?case
  proof (cases "c = CHR ''.''")
    case True
    with 4 obtain ls where ls: "ls \<noteq> []" "list_all name_label ls" "cs = join_dots ls" by auto
    then have "c # cs = join_dots ([] # ls)" using True by (simp add: join_dots_Cons)
    with ls show ?thesis by (intro exI [of _ "[]"] exI [of _ ls]) simp
  next
    case False
    with 4 obtain ds ls where ds: "list_all name_char ds" "list_all name_label ls"
      "cs = join_dots (ds # ls)" "name_char c" by auto
    then have "c # cs = join_dots ((c # ds) # ls)" by (cases ls) auto
    with ds show ?thesis by (intro exI [of _ "c # ds"] exI [of _ ls]) simp
  qed
qed simp

text \<open>C16: \<open>ValidateName\<close> accepts exactly the names the documented grammar describes: at
  most 120 bytes, one or more dot-separated labels, each a lower-case letter or digit
  followed by lower-case letters, digits and hyphens.\<close>

theorem ValidateName_grammar:
  "ValidateName s = None \<longleftrightarrow>
     length s \<le> 120 \<and> (\<exists>ls. ls \<noteq> [] \<and> list_all name_label ls \<and> s = join_dots ls)"
proof -
  have "nameRe_label s \<longleftrightarrow> (\<exists>ls. ls \<noteq> [] \<and> list_all name_label ls \<and> s = join_dots ls)"
    using nameRe_split(1) nameRe_label_join by blast
  moreover have "nameRe_label s \<Longrightarrow> s \<noteq> []" by auto
  ultimately show ?thesis by (auto simp: ValidateName_def)
qed

subsection \<open>Backends\<close>

lemma all_loopback_iff:
  "all_loopback as \<longleftrightarrow> (\<forall>a \<in> set as. \<exists>ip. ParseIP a = Some ip \<and> IsLoopback ip)"
  by (induction as) (auto split: option.splits)

definition loopback_only :: "go_env \<Rightarrow> string \<Rightarrow> bool" where
  "loopback_only E h \<longleftrightarrow>
     h = ''localhost'' \<or>
     (\<exists>ip. ParseIP h = Some ip \<and> IsLoopback ip) \<or>
     (ParseIP h = None \<and>
      (\<exists>addrs. env_LookupHost E h = Some addrs \<and> addrs \<noteq> [] \<and>
         (\<forall>a \<in> set addrs. \<exists>ip. ParseIP a = Some ip \<and> IsLoopback ip)))"

lemma IsLoopbackHost_iff: "IsLoopbackHost E host \<longleftrightarrow> loopback_only E (Trim host ''[]'')"
  by (auto simp: IsLoopbackHost_def loopback_only_def all_loopback_iff Let_def
      split: option.splits if_splits)

lemma ValidateBackend_None:
  "ValidateBackend E b = None \<longleftrightarrow>
     1 \<le> be_Port b \<and> be_Port b \<le> 65535 \<and> TrimSpace (be_Host b) \<noteq> [] \<and>
     loopback_only E (Trim (be_Host b) ''[]'')"
  by (auto simp: ValidateBackend_def IsLoopbackHost_iff)

subsection \<open>Well-formedness\<close>

lemma reg_wf_New [simp]: "reg_wf NewRegistry"
  by (simp add: reg_wf_def NewRegistry_def)

lemma reg_wf_mget: "reg_wf r \<Longrightarrow> mget (services r) name = Some rec \<Longrightarrow> rec_ok name rec"
  by (auto simp: reg_wf_def list_all_iff dest: mget_in)

lemma reg_wf_mput:
  "reg_wf r \<Longrightarrow> rec_ok name rec \<Longrightarrow> reg_wf (r\<lparr>services := mput name rec (services r)\<rparr>)"
  by (simp add: reg_wf_def list_all_mput)

lemma reg_wf_CreateOrReplaceOwned [wf_intros]:
  "reg_wf r \<Longrightarrow> rec_ok (sr_Name rec) rec \<Longrightarrow> reg_wf (fst (CreateOrReplaceOwned now r rec))"
  by (auto simp: CreateOrReplaceOwned_def Let_def rec_ok_def split: option.splits intro!: reg_wf_mput)

lemma reg_wf_SetBackend [wf_intros]:
  "reg_wf r \<Longrightarrow> reg_wf (fst (SetBackend now r name ownerKey b))"
  by (auto simp: SetBackend_def rec_ok_def split: option.splits dest: reg_wf_mget intro!: reg_wf_mput)

lemma reg_wf_ClearBackendIf [wf_intros]:
  "reg_wf r \<Longrightarrow> reg_wf (fst (ClearBackendIf now r name pid))"
  by (auto simp: ClearBackendIf_def rec_ok_def split: option.splits dest: reg_wf_mget intro!: reg_wf_mput)

lemma reg_wf_Remove [wf_intros]: "reg_wf r \<Longrightarrow> reg_wf (fst (Registry_Remove r ownerKey))"
  by (auto simp: Registry_Remove_def reg_wf_def list_all_mdel split: option.splits prod.splits)

subsection \<open>What each operation does to the table\<close>

lemma CheckOwnership_None_iff:
  "CheckOwnership r name ownerKey = None \<longleftrightarrow>
     (\<forall>old. mget (services r) name = Some old \<longrightarrow>
        sr_OwnerKey old = ownerKey \<or> sr_Status old = StatusUnavailable)"
  by (auto simp: CheckOwnership_def split: option.splits)

lemma CreateOrReplaceOwned_iff:
  "CreateOrReplaceOwned now r rec =
     (case CheckOwnership r (sr_Name rec) (sr_OwnerKey rec) of
        Some e \<Rightarrow> (r, Inl e)
      | None \<Rightarrow>
          (let rec' = (if sr_UpdatedAt rec = 0 then rec\<lparr>sr_UpdatedAt := now\<rparr> else rec) in
           (r\<lparr>services := mput (sr_Name rec) rec' (services r)\<rparr>, Inr rec')))"
  by (simp add: CreateOrReplaceOwned_def CheckOwnership_def Let_def split: option.splits)

lemma ClearBackendIf_hit:
  "mget (services r) name = Some rec \<Longrightarrow> sr_ProducerID rec = pid \<Longrightarrow>
     ClearBackendIf now r name pid =
       (r\<lparr>services := mput name
          (rec\<lparr>sr_Backend := None, sr_Status := StatusUnavailable, sr_UpdatedAt := now\<rparr>)
          (services r)\<rparr>, True)"
  by (simp add: ClearBackendIf_def)

lemma ClearBackendIf_miss:
  "(\<And>rec. mget (services r) name = Some rec \<Longrightarrow> sr_ProducerID rec \<noteq> pid) \<Longrightarrow>
     ClearBackendIf now r name pid = (r, False)"
  by (auto simp: ClearBackendIf_def split: option.splits)

lemma ClearBackendIf_mget:
  "mget (services (fst (ClearBackendIf now r name pid))) n =
     (case mget (services r) n of
        None \<Rightarrow> None
      | Some rec \<Rightarrow>
          if n = name \<and> sr_ProducerID rec = pid
          then Some (rec\<lparr>sr_Backend := None, sr_Status := StatusUnavailable, sr_UpdatedAt := now\<rparr>)
          else Some rec)"
  by (auto simp: ClearBackendIf_def split: option.splits)

subsection \<open>Listing and host lookup do not depend on the iteration order\<close>

lemma sorted_key_distinct_unique:
  assumes "mset xs = mset ys" and "distinct (map f xs)"
  shows "sort_key f xs = sort_key f ys"
proof -
  from assms have "distinct (map f ys)"
    by (metis mset_eq_imp_distinct_iff mset_map)
  moreover have "inj_on f (set xs)" using assms(2) by (simp add: distinct_map)
  ultimately show ?thesis using assms
    by (intro sort_key_inj_key_eq) (auto dest: mset_eq_setD)
qed

lemma rec_ok_names:
  "list_all (\<lambda>(name, rec). rec_ok name rec) m \<Longrightarrow> map sr_Name (map snd m) = map fst m"
  by (induction m) (auto simp: rec_ok_def)

lemma Registry_List_snd: "Registry_List r = sort_key sr_Name (map snd (services r))"
proof -
  have "(\<lambda>(name, rec). Clone rec) = (snd :: string \<times> ServiceRecord \<Rightarrow> ServiceRecord)"
    by (simp add: fun_eq_iff)
  then show ?thesis by (simp only: Registry_List_def)
qed

lemma distinct_names: "reg_wf r \<Longrightarrow> distinct (map sr_Name (map snd (services r)))"
  by (simp add: reg_wf_def mwf_def rec_ok_names del: map_map)

text \<open>\<open>List\<close> returns every record of the registry exactly once, in strictly
  increasing order of service names, and the same list whatever order Go happens to
  iterate the map in.\<close>

theorem Registry_List_sorted_complete:
  assumes "reg_wf r"
  shows "sorted_wrt (<) (map sr_Name (Registry_List r)) \<and>
    set (Registry_List r) = {rec. \<exists>name. Registry_Resolve r name = Some rec} \<and>
    (\<forall>perm. mset perm = mset (services r) \<longrightarrow> Registry_List (r\<lparr>services := perm\<rparr>) = Registry_List r)"
proof (intro conjI allI impI)
  have "distinct (map sr_Name (Registry_List r))"
    using distinct_names [OF assms]
    by (metis Registry_List_snd mset_eq_imp_distinct_iff mset_map mset_sort)
  then show "sorted_wrt (<) (map sr_Name (Registry_List r))"
    by (simp add: Registry_List_snd strict_sorted_iff)
  show "set (Registry_List r) = {rec. \<exists>name. Registry_Resolve r name = Some rec}"
    using assms by (force simp: Registry_List_snd Registry_Resolve_mget reg_wf_def mget_iff)
  fix perm
  assume perm: "mset perm = mset (services r)"
  then have "mset (map snd perm) = mset (map snd (services r))" by simp
  moreover have "distinct (map sr_Name (map snd perm))"
    using distinct_names [OF assms] perm by (metis mset_eq_imp_distinct_iff mset_map)
  ultimately show "Registry_List (r\<lparr>services := perm\<rparr>) = Registry_List r"
    by (simp add: Registry_List_snd sorted_key_distinct_unique del: map_map)
qed

lemma find_unique:
  assumes "\<And>x y. x \<in> set xs \<Longrightarrow> y \<in> set xs \<Longrightarrow> P x \<Longrightarrow> P y \<Longrightarrow> x = y"
  shows "find P xs = Some x \<longleftrightarrow> x \<in> set xs \<and> P x"
  using assms by (induction xs) (auto simp: find_Some_iff)

lemma FindByHostname_Some:
  "FindByHostname r h = Some rec \<Longrightarrow> (\<exists>name. (name, rec) \<in> set (services r)) \<and> sr_Hostname rec = h"
  by (auto simp: FindByHostname_find find_Some_iff)
     (metis length_map nth_map nth_mem prod.collapse)

lemma FindByHostname_None:
  "FindByHostname r h = None \<longleftrightarrow> (\<forall>(name, rec) \<in> set (services r). sr_Hostname rec \<noteq> h)"
  by (auto simp: FindByHostname_find find_None_iff)

subsection \<open>The interface the daemon relies on\<close>

text \<open>
  A table of publications: a name can be claimed unless another owner's publication
  is live, and a removal takes effect only for the publication it names.
\<close>

definition live :: "ServiceRecord \<Rightarrow> bool" where
  "live rec \<longleftrightarrow> sr_Status rec = StatusReady"

lemma live_iff: "live rec \<longleftrightarrow> sr_Status rec \<noteq> StatusUnavailable"
  by (cases "sr_Status rec") (simp_all add: live_def)

locale publication_table =
  fixes lookup :: "'r \<Rightarrow> string \<Rightarrow> ServiceRecord option"
    and claim :: "gotime \<Rightarrow> 'r \<Rightarrow> ServiceRecord \<Rightarrow> 'r \<times> (NameConflictError, ServiceRecord) result"
    and retract :: "gotime \<Rightarrow> 'r \<Rightarrow> string \<Rightarrow> string \<Rightarrow> 'r \<times> bool"
  assumes claim_ok: "claim now r rec = (r', Inr rec') \<Longrightarrow>
      lookup r' n = (if n = sr_Name rec then Some rec' else lookup r n) \<and>
      rec'\<lparr>sr_UpdatedAt := 0\<rparr> = rec\<lparr>sr_UpdatedAt := 0\<rparr>"
    and claim_err: "claim now r rec = (r', Inl e) \<Longrightarrow>
      r' = r \<and> (\<exists>old. lookup r (sr_Name rec) = Some old \<and> live old \<and>
                        sr_OwnerKey old \<noteq> sr_OwnerKey rec)"
    and claim_live: "lookup r (sr_Name rec) = Some old \<Longrightarrow> live old \<Longrightarrow>
      sr_OwnerKey old \<noteq> sr_OwnerKey rec \<Longrightarrow> \<exists>e. claim now r rec = (r, Inl e)"
    and retract_hit: "lookup r name = Some rec \<Longrightarrow> sr_ProducerID rec = pid \<Longrightarrow>
      snd (retract now r name pid) \<and>
      lookup (fst (retract now r name pid)) n =
        (if n = name
         then Some (rec\<lparr>sr_Backend := None, sr_Status := StatusUnavailable, sr_UpdatedAt := now\<rparr>)
         else lookup r n)"
    and retract_miss: "(\<And>rec. lookup r name = Some rec \<Longrightarrow> sr_ProducerID rec \<noteq> pid) \<Longrightarrow>
      retract now r name pid = (r, False)"
begin

text \<open>
  The protection of a replacement: once a new publication is installed, removals that
  name any earlier producer of that service change nothing, in whatever number and
  order they arrive.
\<close>

lemma stale_removals_ignored:
  assumes "claim t r rec = (r', Inr rec')" and "sr_ProducerID rec \<notin> snd ` set stale"
  shows "fold (\<lambda>(now, pid) s. fst (retract now s (sr_Name rec) pid)) stale r' = r'"
proof -
  have rec': "lookup r' (sr_Name rec) = Some rec'" "sr_ProducerID rec' = sr_ProducerID rec"
    using claim_ok [OF assms(1), of "sr_Name rec"]
    by (auto dest: arg_cong [where f = sr_ProducerID])
  have noop: "fst (retract now r' (sr_Name rec) pid) = r'" if "pid \<noteq> sr_ProducerID rec" for now pid
  proof -
    have "retract now r' (sr_Name rec) pid = (r', False)"
      using rec' that by (intro retract_miss) auto
    then show ?thesis by simp
  qed
  from assms(2) show ?thesis
    by (induction stale) (auto simp: noop)
qed

text \<open>While a publication is live, only its owner can replace it.\<close>

lemma live_owner_kept:
  assumes "lookup r name = Some old" "live old" "claim now r rec = (r', res)"
  shows "lookup r' name = Some old \<or> sr_OwnerKey rec = sr_OwnerKey old"
proof (cases res)
  case (Inl e)
  with claim_err assms show ?thesis by blast
next
  case (Inr rec')
  then have ok: "claim now r rec = (r', Inr rec')" using assms(3) by simp
  show ?thesis
  proof (cases "sr_Name rec = name")
    case True
    with claim_live [of r rec old now] assms ok show ?thesis by auto
  next
    case False
    with claim_ok [OF ok, of name] assms(1) show ?thesis by simp
  qed
qed

text \<open>After a removal took effect, any owner may take the name over.\<close>

lemma takeover_after_retract:
  assumes "lookup r (sr_Name rec) = Some old" "sr_ProducerID old = pid"
  shows "\<exists>r' rec'. claim now (fst (retract t r (sr_Name rec) pid)) rec = (r', Inr rec')"
proof -
  obtain r' res where c: "claim now (fst (retract t r (sr_Name rec) pid)) rec = (r', res)"
    by (metis prod.collapse)
  show ?thesis
  proof (cases res)
    case (Inl e)
    with claim_err [of now "fst (retract t r (sr_Name rec) pid)" rec r' e] c
      retract_hit [OF assms, of t "sr_Name rec"]
    show ?thesis by (auto simp: live_def)
  next
    case (Inr rec')
    with c show ?thesis by auto
  qed
qed

end

interpretation reg: publication_table Registry_Resolve CreateOrReplaceOwned ClearBackendIf
proof (unfold_locales, goal_cases)
  case (1 now r rec r' rec' n)
  then show ?case
    by (auto simp: CreateOrReplaceOwned_iff Registry_Resolve_mget Let_def split: option.splits if_splits)
next
  case (2 now r rec r' e)
  then show ?case
    by (auto simp: CreateOrReplaceOwned_def Registry_Resolve_mget Let_def live_iff
        split: option.splits if_splits)
next
  case (3 r rec old now)
  then show ?case
    by (auto simp: CreateOrReplaceOwned_def Registry_Resolve_mget Let_def live_iff)
next
  case (4 r name rec pid now n)
  then show ?case
    by (simp add: ClearBackendIf_hit Registry_Resolve_mget)
next
  case (5 r name pid now)
  then show ?case
    by (intro ClearBackendIf_miss) (simp add: Registry_Resolve_mget)
qed

text \<open>A record for the witnesses below.\<close>

definition sample_rec :: "string \<Rightarrow> string \<Rightarrow> string \<Rightarrow> ServiceRecord" where
  "sample_rec name owner producer =
     \<lparr>sr_Name = name, sr_Kind = KindTCP, sr_AppProtocol = [], sr_OwnerKey = owner,
      sr_ProducerID = producer, sr_Source = SourceProcess,
      sr_Backend = Some \<lparr>be_Host = ''127.0.0.1'', be_Port = 49173\<rparr>,
      sr_Frontend = \<lparr>fe_Host = ''127.0.0.1'', fe_Port = 15432, fe_URL = []\<rparr>,
      sr_Hostname = [], sr_Status = StatusReady, sr_DockerContainerID = [], sr_UpdatedAt = 7\<rparr>"

text \<open>After a publication is installed, any sequence of removals that name other
  producers (late lease expirations, deletions and container stop events of replaced
  backends) leaves the registry unchanged, so the new backend stays resolvable; and
  while a publication is ready, a registration under another owner key leaves it in
  place.\<close>

theorem replaced_publication_protected:
  assumes "CreateOrReplaceOwned t r rec = (r', Inr rec')"
    and "sr_ProducerID rec \<notin> snd ` set stale"
    and "sr_Status rec = StatusReady"
    and "sr_OwnerKey other \<noteq> sr_OwnerKey rec"
  shows "fold (\<lambda>(now, pid) s. fst (ClearBackendIf now s (sr_Name rec) pid)) stale r' = r' \<and>
    Registry_Resolve r' (sr_Name rec) = Some rec' \<and> sr_Backend rec' = sr_Backend rec \<and>
    Registry_Resolve (fst (CreateOrReplaceOwned now r' other)) (sr_Name rec) = Some rec'"
proof -
  have ok: "Registry_Resolve r' (sr_Name rec) = Some rec'"
      "rec'\<lparr>sr_UpdatedAt := 0\<rparr> = rec\<lparr>sr_UpdatedAt := 0\<rparr>"
    using reg.claim_ok [OF assms(1), of "sr_Name rec"] by simp_all
  have fields: "sr_Backend rec' = sr_Backend rec" "sr_Status rec' = sr_Status rec"
      "sr_OwnerKey rec' = sr_OwnerKey rec"
    using arg_cong [OF ok(2), of sr_Backend] arg_cong [OF ok(2), of sr_Status]
      arg_cong [OF ok(2), of sr_OwnerKey] by simp_all
  obtain r'' res where o: "CreateOrReplaceOwned now r' other = (r'', res)"
    by (metis prod.collapse)
  have "live rec'" using fields(2) assms(3) by (simp add: live_def)
  from reg.live_owner_kept [OF ok(1) this o] fields(3) assms(4)
  have "Registry_Resolve r'' (sr_Name rec) = Some rec'" by simp
  with o ok fields reg.stale_removals_ignored [OF assms(1,2)] show ?thesis by simp
qed

end
