(* ===== verification/Proxy.thy ===== *)
theory Proxy
  imports Registry
begin

text \<open>
  \<open>internal/proxy/http.go\<close>: the host-based HTTP router. A backend provider is a closure;
  the router is generic in the type \<open>'p\<close> of what it captures, and the operation that
  calls it takes the function \<open>call\<close> that evaluates it. Of \<open>httputil.ReverseProxy\<close> the
  operations that \<open>Rewrite\<close> calls are modelled (\<open>SetURL\<close>, \<open>SetXForwarded\<close>). How it copies
  the inbound request before that is the parameter \<open>prepare\<close>, and the transfer is the
  parameter \<open>forward\<close>, whose \<open>None\<close> is a transport error; both are arbitrary.
\<close>

section \<open>Definitions\<close>

definition normalizeHost :: "go_env \<Rightarrow> string \<Rightarrow> string" where
  "normalizeHost G host =
     (let h = ToLower G (TrimSpace host) in
      if h = [] then h
      else
        (let h1 = (case SplitHostPort h of Some (hostPart, _) \<Rightarrow> hostPart | None \<Rightarrow> h);
             h2 = TrimPrefix h1 ''['';
             h3 = TrimSuffix h2 '']'' in
         TrimSuffix h3 ''.''))"

record 'p httpProxy =
  hp_hostname :: string
  hp_provider :: 'p

record 'p Router =
  ro_routes :: "(string, 'p httpProxy) gomap"
  ro_scheme :: string
  ro_port :: int

definition NewRouter :: "string \<Rightarrow> int \<Rightarrow> 'p Router" where
  "NewRouter scheme port =
     \<lparr>ro_routes = [], ro_scheme = (if scheme = [] then ''http'' else scheme), ro_port = port\<rparr>"

definition Router_Set :: "go_env \<Rightarrow> string \<Rightarrow> 'p \<Rightarrow> 'p Router \<Rightarrow> 'p Router" where
  "Router_Set G hostname provider r =
     (let key = normalizeHost G hostname in
      r\<lparr>ro_routes := mput key \<lparr>hp_hostname = key, hp_provider = provider\<rparr> (ro_routes r)\<rparr>)"

definition Router_Delete :: "go_env \<Rightarrow> string \<Rightarrow> 'p Router \<Rightarrow> 'p Router" where
  "Router_Delete G hostname r = r\<lparr>ro_routes := mdel (normalizeHost G hostname) (ro_routes r)\<rparr>"

definition Router_Lookup :: "go_env \<Rightarrow> 'p Router \<Rightarrow> string \<Rightarrow> 'p option" where
  "Router_Lookup G r hostname = map_option hp_provider (mget (ro_routes r) (normalizeHost G hostname))"

text \<open>\<open>url.URL.String\<close> for a URL with only a scheme and a host.\<close>

definition url_host_plain :: "char \<Rightarrow> bool" where
  "url_host_plain c \<longleftrightarrow>
     (CHR ''a'' \<le> c \<and> c \<le> CHR ''z'') \<or> (CHR ''A'' \<le> c \<and> c \<le> CHR ''Z'') \<or> (CHR ''0'' \<le> c \<and> c \<le> CHR ''9'') \<or>
     c \<in> set ''-_.~!$&()*+,;=:[]<>'' \<or> c = CHR 0x27 \<or> c = CHR 0x22"

definition upper_hex :: "nat \<Rightarrow> char" where
  "upper_hex n = (if n < 10 then char_of (48 + n) else char_of (55 + n))"

definition url_escape_host :: "string \<Rightarrow> string" where
  "url_escape_host s =
     concat (map (\<lambda>c. if url_host_plain c then [c]
                      else [CHR ''%'', upper_hex (byte c div 16), upper_hex (byte c mod 16)]) s)"

definition url_String :: "string \<Rightarrow> string \<Rightarrow> string" where
  "url_String scheme host =
     (if scheme = [] then [] else scheme @ '':'') @
     (if host = [] then [] else ''//'' @ url_escape_host host)"

definition FrontendURL :: "go_env \<Rightarrow> 'p Router \<Rightarrow> string \<Rightarrow> string" where
  "FrontendURL G r hostname =
     (let host = normalizeHost G hostname;
          host1 = (if ro_port r > 0 \<and> (ro_scheme r \<noteq> ''http'' \<or> ro_port r \<noteq> 80) \<and>
                      (ro_scheme r \<noteq> ''https'' \<or> ro_port r \<noteq> 443)
                   then JoinHostPort host (Itoa (ro_port r)) else host) in
      url_String (ro_scheme r) host1)"

subsection \<open>Requests\<close>

text \<open>Header names are in canonical form.\<close>

record request =
  rq_Host :: string
  rq_URLScheme :: string
  rq_URLHost :: string
  rq_URLPath :: string
  rq_Header :: "(string, string list) gomap"
  rq_RemoteAddr :: string
  rq_TLS :: bool

record routeSnapshot =
  rs_backend :: Backend
  rs_publicHost :: string

definition del_headers :: "string list \<Rightarrow> request \<Rightarrow> request" where
  "del_headers ks r = r\<lparr>rq_Header := fold mdel ks (rq_Header r)\<rparr>"

definition set_header :: "string \<Rightarrow> string \<Rightarrow> request \<Rightarrow> request" where
  "set_header k v r = r\<lparr>rq_Header := mput k [v] (rq_Header r)\<rparr>"

definition SetURL :: "string \<Rightarrow> string \<Rightarrow> request \<Rightarrow> request" where
  "SetURL scheme host out =
     out\<lparr>rq_URLScheme := scheme, rq_URLHost := host,
         rq_URLPath := (if HasPrefix (rq_URLPath out) ''/'' then rq_URLPath out else ''/'' @ rq_URLPath out),
         rq_Host := []\<rparr>"

fun join_comma :: "string list \<Rightarrow> string" where
  "join_comma [] = []"
| "join_comma [x] = x"
| "join_comma (x # y # xs) = x @ '', '' @ join_comma (y # xs)"

definition SetXForwarded :: "request \<Rightarrow> request \<Rightarrow> request" where
  "SetXForwarded inreq out =
     (let out1 =
        (case SplitHostPort (rq_RemoteAddr inreq) of
           Some (clientIP, _) \<Rightarrow>
             (let prior = mget0 [] (rq_Header out) ''X-Forwarded-For'';
                  ips = (if prior \<noteq> [] then join_comma prior @ '', '' @ clientIP else clientIP) in
              set_header ''X-Forwarded-For'' ips out)
         | None \<Rightarrow> del_headers [''X-Forwarded-For''] out) in
      set_header ''X-Forwarded-Proto'' (if rq_TLS inreq then ''https'' else ''http'')
        (set_header ''X-Forwarded-Host'' (rq_Host inreq) out1))"

text \<open>The context value is \<open>None\<close> when a caller bypassed \<open>ServeHTTP\<close>.\<close>

definition Rewrite :: "routeSnapshot option \<Rightarrow> request \<Rightarrow> request \<Rightarrow> request" where
  "Rewrite snapshot inreq out =
     (case snapshot of
        None \<Rightarrow> SetURL ''http'' ''127.0.0.1:0'' out
      | Some sn \<Rightarrow>
          (let out1 = SetURL ''http'' (Backend_Addr (rs_backend sn)) out;
               out2 = out1\<lparr>rq_Host := rs_publicHost sn\<rparr>;
               out3 = del_headers [''X-Forwarded-For'', ''X-Forwarded-Host'', ''X-Forwarded-Proto''] out2 in
           SetXForwarded inreq out3))"

datatype 'resp response = Status int | Upstream 'resp

definition ServeHTTP ::
  "go_env \<Rightarrow> ('p \<Rightarrow> Backend option) \<Rightarrow> (request \<Rightarrow> request) \<Rightarrow> (request \<Rightarrow> 'resp option) \<Rightarrow> 'p Router
     \<Rightarrow> request \<Rightarrow> 'resp response" where
  "ServeHTTP G call prepare forward r req =
     (let host = normalizeHost G (rq_Host req) in
      case mget (ro_routes r) host of
        None \<Rightarrow> Status 404
      | Some hp \<Rightarrow>
          (case call (hp_provider hp) of
             None \<Rightarrow> Status 503
           | Some backend \<Rightarrow>
               (case forward (Rewrite (Some \<lparr>rs_backend = backend, rs_publicHost = host\<rparr>) req (prepare req)) of
                  None \<Rightarrow> Status 502
                | Some resp \<Rightarrow> Upstream resp)))"

subsection \<open>Reference definitions\<close>

text \<open>
  A plain host name: lower case ASCII without white space, colons or brackets, and
  without a trailing dot. Requests for it carry it as it is or with a port.
\<close>

definition plain_host :: "string \<Rightarrow> bool" where
  "plain_host h \<longleftrightarrow> h \<noteq> [] \<and> last h \<noteq> CHR ''.'' \<and>
     list_all (\<lambda>c. (CHR ''a'' \<le> c \<and> c \<le> CHR ''z'') \<or> (CHR ''0'' \<le> c \<and> c \<le> CHR ''9'') \<or> c = CHR ''-'' \<or> c = CHR ''.'') h"

definition router_wf :: "'p Router \<Rightarrow> bool" where
  "router_wf r \<longleftrightarrow> mwf (ro_routes r) \<and> list_all (\<lambda>(k, hp). hp_hostname hp = k) (ro_routes r)"

section \<open>Lemmas\<close>

lemma Lookup_Set:
  "Router_Lookup G (Router_Set G h p r) h' =
     (if normalizeHost G h' = normalizeHost G h then Some p else Router_Lookup G r h')"
  by (simp add: Router_Lookup_def Router_Set_def Let_def)

lemma Lookup_Delete:
  "Router_Lookup G (Router_Delete G h r) h' =
     (if normalizeHost G h' = normalizeHost G h then None else Router_Lookup G r h')"
  by (simp add: Router_Lookup_def Router_Delete_def)

lemma router_wf_New: "router_wf (NewRouter scheme port)"
  by (simp add: router_wf_def NewRouter_def)

lemma router_wf_Set [wf_intros]: "router_wf r \<Longrightarrow> router_wf (Router_Set G h p r)"
  by (auto simp: router_wf_def Router_Set_def Let_def intro!: list_all_mput)

lemma router_wf_Delete [wf_intros]: "router_wf r \<Longrightarrow> router_wf (Router_Delete G h r)"
  by (auto simp: router_wf_def Router_Delete_def intro!: list_all_mdel)

lemma mget_dels [simp]: "mget (fold mdel ks m) k = (if k \<in> set ks then None else mget m k)"
  by (rule gm.dels_get)

lemma Rewrite_Some_header:
  "mget (rq_Header (Rewrite (Some sn) req out)) k =
     (if k = ''X-Forwarded-Proto'' then Some [if rq_TLS req then ''https'' else ''http'']
      else if k = ''X-Forwarded-Host'' then Some [rq_Host req]
      else if k = ''X-Forwarded-For'' then map_option (\<lambda>(ip, _). [ip]) (SplitHostPort (rq_RemoteAddr req))
      else mget (rq_Header out) k)"
  by (auto simp: Rewrite_def SetXForwarded_def SetURL_def set_header_def del_headers_def Let_def mget0_def
      split: option.splits)

lemma Rewrite_Some_target:
  "rq_URLScheme (Rewrite (Some sn) req out) = ''http''"
  "rq_URLHost (Rewrite (Some sn) req out) = Backend_Addr (rs_backend sn)"
  "rq_Host (Rewrite (Some sn) req out) = rs_publicHost sn"
  by (auto simp: Rewrite_def SetXForwarded_def SetURL_def set_header_def del_headers_def Let_def
      split: option.splits)

subsection \<open>Host names\<close>

lemma plain_host_chars:
  assumes "plain_host h" "c \<in> set h"
  shows "32 < byte c \<and> byte c < 128 \<and> ascii_lower c = c \<and> c \<notin> set '':[]/@''"
proof -
  have "c = char_of (byte c)" by simp
  have "(CHR ''a'' \<le> c \<and> c \<le> CHR ''z'') \<or> (CHR ''0'' \<le> c \<and> c \<le> CHR ''9'') \<or> c = CHR ''-'' \<or> c = CHR ''.''"
    using assms by (auto simp: plain_host_def list_all_iff)
  then show ?thesis by (auto simp: less_eq_char_def ascii_lower_def)
qed

lemma plain_host_ToLower: "plain_host h \<Longrightarrow> ToLower G h = h"
  using ToLower_ascii(1) [of h G] plain_host_chars [of h]
  by (simp add: list_all_iff map_idI)

lemma plain_host_TrimSpace: "plain_host h \<Longrightarrow> TrimSpace h = h"
  using plain_host_chars by (intro TrimSpace_tidy) (auto simp: list_all_iff)

lemma plain_host_trims:
  assumes "plain_host h"
  shows "TrimSuffix (TrimSuffix (TrimPrefix h ''['') '']'') ''.'' = h"
proof -
  have "h \<noteq> []" "last h \<noteq> CHR ''.''" using assms by (auto simp: plain_host_def)
  moreover have "hd h \<noteq> CHR ''[''" "last h \<noteq> CHR '']''"
    using plain_host_chars [OF assms hd_in_set [OF \<open>h \<noteq> []\<close>]] plain_host_chars [OF assms last_in_set [OF \<open>h \<noteq> []\<close>]]
    by auto
  ultimately show ?thesis by (simp add: TrimPrefix_miss TrimSuffix_miss)
qed

lemma normalizeHost_plain:
  assumes "plain_host h"
  shows "normalizeHost G h = h"
proof -
  have "h \<noteq> []" using assms by (simp add: plain_host_def)
  moreover have "CHR '':'' \<notin> set h" using plain_host_chars [OF assms] by auto
  ultimately show ?thesis
    using plain_host_trims [OF assms]
    by (simp add: normalizeHost_def Let_def plain_host_TrimSpace plain_host_ToLower assms SplitHostPort_no_colon)
qed

lemma normalizeHost_port:
  assumes "plain_host h" and "list_all is_digit port"
  shows "normalizeHost G (JoinHostPort h port) = h"
proof -
  have nc: "c \<notin> set h" if "c \<in> set '':[]''" for c using plain_host_chars [OF assms(1), of c] that by auto
  have d: "32 < byte c \<and> byte c < 128 \<and> ascii_lower c = c \<and> c \<notin> set '':[]''" if "c \<in> set port" for c
    using assms(2) that by (auto simp: list_all_iff is_digit_def ascii_lower_def)
  have j: "JoinHostPort h port = h @ '':'' @ port" using nc by (simp add: JoinHostPort_def)
  have all: "32 < byte c \<and> byte c < 128 \<and> ascii_lower c = c" if "c \<in> set (h @ '':'' @ port)" for c
    using that plain_host_chars [OF assms(1), of c] d [of c] by (auto simp: ascii_lower_def)
  have "TrimSpace (h @ '':'' @ port) = h @ '':'' @ port"
    using all by (intro TrimSpace_tidy) (simp add: list_all_iff del: set_append)
  moreover have "ToLower G (h @ '':'' @ port) = h @ '':'' @ port"
  proof -
    have "list_all (\<lambda>c. byte c < 128) (h @ '':'' @ port)" using all by (simp add: list_all_iff del: set_append)
    then show ?thesis using ToLower_ascii(1) all by (metis map_idI)
  qed
  moreover have "SplitHostPort (h @ '':'' @ port) = Some (h, port)"
    using SplitHostPort_JoinHostPort [of h port] nc d unfolding j by auto
  ultimately show ?thesis
    using plain_host_trims [OF assms(1)] by (simp add: normalizeHost_def Let_def j)
qed

end
