(* ===== verification/State_Store.thy ===== *)
theory State_Store
  imports Go_Json
begin

text \<open>
  \<open>internal/state\<close>: the remembered frontend ports and their atomic persistence. The
  file system is a map from paths to contents; what can fail (each system call of a
  save, the read, the backup of a corrupt file) is a field of \<open>io_env\<close>, as is the name
  \<open>os.CreateTemp\<close> picks. \<open>save_states\<close> lists the file systems a crash during a save can
  leave behind.
\<close>

section \<open>Definitions\<close>

type_synonym fs = "string \<Rightarrow> content option"

record io_env =
  io_ReadErr :: bool
  io_BackupErr :: bool
  io_Unix :: int
  io_MkdirErr :: bool
  io_CreateErr :: bool
  io_WriteErr :: bool
  io_SyncErr :: bool
  io_CloseErr :: bool
  io_RenameErr :: bool
  io_Tmp :: string

datatype state_error =
    ReadFailed
  | BackupFailed
  | UnsupportedVersion int
  | SaveFailed string

abbreviation (input) version :: int where "version \<equiv> 1"

record Model =
  md_Version :: int
  md_TCPPorts :: "(string, int) gomap option"

record Store =
  st_path :: string
  st_m :: Model
  st_dirty :: bool

subsection \<open>The file format\<close>

fun dec_ports :: "(string \<times> json) list \<Rightarrow> (string, int) gomap \<Rightarrow> (string, int) gomap option" where
  "dec_ports [] m = Some m"
| "dec_ports ((k, j) # kvs) m =
     (case dec_int 0 j of None \<Rightarrow> None | Some i \<Rightarrow> dec_ports kvs (mput k i m))"

fun dec_model :: "(string \<times> json) list \<Rightarrow> Model \<Rightarrow> Model option" where
  "dec_model [] m = Some m"
| "dec_model ((k, j) # kvs) m =
     (case field_match [''version'', ''tcp_ports''] k of
        None \<Rightarrow> dec_model kvs m
      | Some f \<Rightarrow>
          if f = ''version'' then
            (case dec_int (md_Version m) j of
               None \<Rightarrow> None
             | Some v \<Rightarrow> dec_model kvs (m\<lparr>md_Version := v\<rparr>))
          else
            (case j of
               JNull \<Rightarrow> dec_model kvs (m\<lparr>md_TCPPorts := None\<rparr>)
             | JObj ps \<Rightarrow>
                 (case dec_ports ps (case md_TCPPorts m of None \<Rightarrow> [] | Some old \<Rightarrow> old) of
                    None \<Rightarrow> None
                  | Some ports \<Rightarrow> dec_model kvs (m\<lparr>md_TCPPorts := Some ports\<rparr>))
             | _ \<Rightarrow> None))"

definition Unmarshal :: "content \<Rightarrow> Model option" where
  "Unmarshal c =
     (case c of
        Doc JNull \<Rightarrow> Some \<lparr>md_Version = 0, md_TCPPorts = None\<rparr>
      | Doc (JObj kvs) \<Rightarrow> dec_model kvs \<lparr>md_Version = 0, md_TCPPorts = None\<rparr>
      | _ \<Rightarrow> None)"

text \<open>\<open>json.MarshalIndent\<close> writes the members of a map in the order of their keys.\<close>

definition Marshal :: "Model \<Rightarrow> content" where
  "Marshal m =
     Doc (JObj [(''version'', JInt (md_Version m)),
                (''tcp_ports'',
                 (case md_TCPPorts m of
                    None \<Rightarrow> JNull
                  | Some ports \<Rightarrow> JObj (map (\<lambda>(k, p). (k, JInt p)) (sort_key fst ports))))])"

subsection \<open>Loading (store.go)\<close>

definition corrupt_path :: "string \<Rightarrow> int \<Rightarrow> string" where
  "corrupt_path path now = path @ ''.corrupt.'' @ Itoa now"

definition Load :: "io_env \<Rightarrow> fs \<Rightarrow> string \<Rightarrow> fs \<times> (state_error, Store) result" where
  "Load E files path =
     (let s = \<lparr>st_path = path, st_m = \<lparr>md_Version = version, md_TCPPorts = Some []\<rparr>, st_dirty = False\<rparr> in
      if io_ReadErr E then (files, Inl ReadFailed)
      else case files path of
        None \<Rightarrow> (files, Inr s)
      | Some Empty \<Rightarrow> (files, Inr s)
      | Some data \<Rightarrow>
          (case Unmarshal data of
             None \<Rightarrow>
               (if io_BackupErr E then (files, Inl BackupFailed)
                else (files(corrupt_path path (io_Unix E) \<mapsto> data), Inr s))
           | Some m \<Rightarrow>
               if md_Version m > version then (files, Inl (UnsupportedVersion (md_Version m)))
               else
                 (let m1 = (if md_TCPPorts m = None then m\<lparr>md_TCPPorts := Some []\<rparr> else m);
                      m2 = (if md_Version m1 = 0 then m1\<lparr>md_Version := version\<rparr> else m1) in
                  (files, Inr (s\<lparr>st_m := m2\<rparr>)))))"

subsection \<open>Saving (store.go)\<close>

definition ports_of :: "Store \<Rightarrow> (string, int) gomap" where
  "ports_of s = (case md_TCPPorts (st_m s) of None \<Rightarrow> [] | Some ports \<Rightarrow> ports)"

definition set_ports :: "(string, int) gomap \<Rightarrow> Store \<Rightarrow> Store" where
  "set_ports ports s = s\<lparr>st_m := (st_m s)\<lparr>md_TCPPorts := Some ports\<rparr>\<rparr>"

definition saveLocked :: "io_env \<Rightarrow> fs \<Rightarrow> Store \<Rightarrow> fs \<times> state_error option" where
  "saveLocked E files s =
     (if io_MkdirErr E then (files, Some (SaveFailed ''mkdir''))
      else
        (let data = Marshal (st_m s); tmpName = io_Tmp E in
         if io_CreateErr E then (files, Some (SaveFailed ''create''))
         else
           (let created = files(tmpName \<mapsto> Empty) in
            if io_WriteErr E then ((created(tmpName \<mapsto> Garbage []))(tmpName := None), Some (SaveFailed ''write''))
            else
              (let written = created(tmpName \<mapsto> data) in
               if io_SyncErr E then (written(tmpName := None), Some (SaveFailed ''sync''))
               else if io_CloseErr E then (written(tmpName := None), Some (SaveFailed ''close''))
               else if io_RenameErr E then (written(tmpName := None), Some (SaveFailed ''rename''))
               else (((written(tmpName := None))(st_path s \<mapsto> data))(tmpName := None), None)))))"

text \<open>
  The file systems that exist while \<open>saveLocked\<close> runs, in order: what is on disk if the
  process dies at any point of the save. A torn write leaves \<open>Garbage\<close> in the temporary
  file only.
\<close>

definition save_states :: "io_env \<Rightarrow> fs \<Rightarrow> Store \<Rightarrow> fs list" where
  "save_states E files s =
     (let created = files(io_Tmp E \<mapsto> Empty);
          torn = created(io_Tmp E \<mapsto> Garbage []);
          written = created(io_Tmp E \<mapsto> Marshal (st_m s)) in
      if io_MkdirErr E \<or> io_CreateErr E then [files]
      else if io_WriteErr E then [files, created, torn, fst (saveLocked E files s)]
      else if io_SyncErr E \<or> io_CloseErr E \<or> io_RenameErr E
      then [files, created, torn, written, fst (saveLocked E files s)]
      else [files, created, torn, written,
            (written(io_Tmp E := None))(st_path s \<mapsto> Marshal (st_m s)), fst (saveLocked E files s)])"

subsection \<open>Operations (store.go)\<close>

definition Port :: "Store \<Rightarrow> string \<Rightarrow> int" where
  "Port s name = mget0 0 (ports_of s) name"

definition SetPort :: "io_env \<Rightarrow> fs \<Rightarrow> Store \<Rightarrow> string \<Rightarrow> int \<Rightarrow> fs \<times> Store \<times> state_error option" where
  "SetPort E files s name port =
     (if mget0 0 (ports_of s) name = port \<and> \<not> st_dirty s then (files, s, None)
      else
        (let s1 = (set_ports (mput name port (ports_of s)) s)\<lparr>st_dirty := True\<rparr> in
         case saveLocked E files s1 of
           (files', Some err) \<Rightarrow> (files', s1, Some err)
         | (files', None) \<Rightarrow> (files', s1\<lparr>st_dirty := False\<rparr>, None)))"

definition Forget :: "io_env \<Rightarrow> fs \<Rightarrow> Store \<Rightarrow> string \<Rightarrow> fs \<times> Store \<times> state_error option" where
  "Forget E files s name =
     (if mget (ports_of s) name = None \<and> \<not> st_dirty s then (files, s, None)
      else
        (let s1 = (set_ports (mdel name (ports_of s)) s)\<lparr>st_dirty := True\<rparr> in
         case saveLocked E files s1 of
           (files', Some err) \<Rightarrow> (files', s1, Some err)
         | (files', None) \<Rightarrow> (files', s1\<lparr>st_dirty := False\<rparr>, None)))"

definition Snapshot :: "Store \<Rightarrow> (string, int) gomap" where
  "Snapshot s = fold (\<lambda>(k, v) out. mput k v out) (ports_of s) []"

definition Save :: "io_env \<Rightarrow> fs \<Rightarrow> Store \<Rightarrow> fs \<times> Store \<times> state_error option" where
  "Save E files s =
     (case saveLocked E files s of
        (files', Some err) \<Rightarrow> (files', s, Some err)
      | (files', None) \<Rightarrow> (files', s\<lparr>st_dirty := False\<rparr>, None))"

subsection \<open>Invariant\<close>

text \<open>
  The model in memory is one a save can write: a non-nil map with distinct keys, 64-bit
  ports and a version this binary accepts. While the store is not dirty, loading the
  file gives the same remembered ports as the memory holds.
\<close>

definition store_wf :: "Store \<Rightarrow> bool" where
  "store_wf s \<longleftrightarrow>
     md_TCPPorts (st_m s) \<noteq> None \<and> mwf (ports_of s) \<and>
     list_all (\<lambda>(k, p). int64 p) (ports_of s) \<and>
     int64 (md_Version (st_m s)) \<and> md_Version (st_m s) \<le> version"

definition calm :: io_env where
  "calm = \<lparr>io_ReadErr = False, io_BackupErr = False, io_Unix = 0, io_MkdirErr = False,
           io_CreateErr = False, io_WriteErr = False, io_SyncErr = False, io_CloseErr = False,
           io_RenameErr = False, io_Tmp = ''.state-1.tmp''\<rparr>"

definition reloads :: "fs \<Rightarrow> Store \<Rightarrow> bool" where
  "reloads files s \<longleftrightarrow>
     (\<exists>files' s'. Load calm files (st_path s) = (files', Inr s') \<and> Port s' = Port s)"

definition store_inv :: "fs \<Rightarrow> Store \<Rightarrow> bool" where
  "store_inv files s \<longleftrightarrow> store_wf s \<and> (\<not> st_dirty s \<longrightarrow> reloads files s)"

text \<open>\<open>os.CreateTemp\<close> creates a file that did not exist, and not the state file itself.\<close>

definition fresh_tmp :: "io_env \<Rightarrow> fs \<Rightarrow> Store \<Rightarrow> bool" where
  "fresh_tmp E files s \<longleftrightarrow> files (io_Tmp E) = None \<and> io_Tmp E \<noteq> st_path s"

text \<open>A history of a store: each operation with the environment it runs in.\<close>

datatype store_op = OpSetPort string int | OpForget string | OpSave

fun store_step :: "io_env \<Rightarrow> store_op \<Rightarrow> fs \<times> Store \<Rightarrow> fs \<times> Store \<times> state_error option" where
  "store_step E (OpSetPort name port) (files, s) = SetPort E files s name port"
| "store_step E (OpForget name) (files, s) = Forget E files s name"
| "store_step E OpSave (files, s) = Save E files s"

fun store_run :: "(io_env \<times> store_op) list \<Rightarrow> fs \<times> Store \<times> state_error option \<Rightarrow> fs \<times> Store \<times> state_error option" where
  "store_run [] st = st"
| "store_run ((E, x) # ops) (files, s, r) = store_run ops (store_step E x (files, s))"

text \<open>Every temporary name is fresh when it is created, and ports are Go integers.\<close>

fun run_fresh :: "(io_env \<times> store_op) list \<Rightarrow> fs \<times> Store \<times> state_error option \<Rightarrow> bool" where
  "run_fresh [] st = True"
| "run_fresh ((E, x) # ops) (files, s, r) \<longleftrightarrow>
     fresh_tmp E files s \<and> (case x of OpSetPort _ port \<Rightarrow> int64 port | _ \<Rightarrow> True) \<and>
     run_fresh ops (store_step E x (files, s))"

text \<open>The abstract store: the port remembered for a name, 0 for none.\<close>

fun spec_step :: "store_op \<Rightarrow> (string \<Rightarrow> int) \<Rightarrow> string \<Rightarrow> int" where
  "spec_step (OpSetPort name port) f = f(name := port)"
| "spec_step (OpForget name) f = f(name := 0)"
| "spec_step OpSave f = f"

definition model_wf :: "Model \<Rightarrow> bool" where
  "model_wf m \<longleftrightarrow> int64 (md_Version m) \<and>
     (case md_TCPPorts m of None \<Rightarrow> True
      | Some ports \<Rightarrow> mwf ports \<and> list_all (\<lambda>(k, p). int64 p) ports)"

section \<open>Lemmas\<close>

subsection \<open>The file format round-trips\<close>

lemma mget_fold_mput:
  "mwf ps \<Longrightarrow> mget (fold (\<lambda>(k, v). mput k v) ps m) k =
     (case mget ps k of None \<Rightarrow> mget m k | Some v \<Rightarrow> Some v)"
  by (induction ps arbitrary: m) (auto split: option.splits)

lemma dec_ports_ints:
  "list_all (\<lambda>(k, p). int64 p) ps \<Longrightarrow>
     dec_ports (map (\<lambda>(k, p). (k, JInt p)) ps) m = Some (fold (\<lambda>(k, v). mput k v) ps m)"
  by (induction ps arbitrary: m) auto

lemma Unmarshal_Marshal:
  assumes "store_wf s"
  obtains ports where "Unmarshal (Marshal (st_m s)) = Some ((st_m s)\<lparr>md_TCPPorts := Some ports\<rparr>)"
    and "mget ports = mget (ports_of s)"
proof -
  let ?ps = "sort_key fst (ports_of s)"
  let ?ports = "fold (\<lambda>(k, v). mput k v) ?ps []"
  have wf: "mwf (ports_of s)" using assms by (simp add: store_wf_def)
  then have "mwf ?ps"
    unfolding mwf_def by (metis mset_eq_imp_distinct_iff mset_map mset_sort)
  then have "mget ?ports = mget ?ps"
    by (auto simp: fun_eq_iff mget_fold_mput split: option.splits)
  moreover have "mget ?ps = mget (ports_of s)"
    by (rule mget_permute [OF _ \<open>mwf ?ps\<close>]) simp
  moreover have "list_all (\<lambda>(k, p). int64 p) ?ps"
    using assms by (simp add: store_wf_def list_all_iff)
  then have "dec_ports (map (\<lambda>(k, p). (k, JInt p)) ?ps) [] = Some ?ports"
    by (rule dec_ports_ints)
  then have "Unmarshal (Marshal (st_m s)) = Some ((st_m s)\<lparr>md_TCPPorts := Some ?ports\<rparr>)"
    using assms by (auto simp: Unmarshal_def Marshal_def store_wf_def ports_of_def)
  ultimately show thesis using that by metis
qed

lemma Load_saved:
  assumes "store_wf s" and "\<not> io_ReadErr E" and "files (st_path s) = Some (Marshal (st_m s))"
  shows "\<exists>s'. Load E files (st_path s) = (files, Inr s') \<and> Port s' = Port s \<and>
    st_path s' = st_path s \<and> \<not> st_dirty s'"
proof -
  obtain ports where u: "Unmarshal (Marshal (st_m s)) = Some ((st_m s)\<lparr>md_TCPPorts := Some ports\<rparr>)"
    and g: "mget ports = mget (ports_of s)"
    using assms(1) by (rule Unmarshal_Marshal)
  have ne: "Marshal (st_m s) \<noteq> Empty" by (simp add: Marshal_def)
  have "\<not> version < md_Version (st_m s)" using assms(1) by (simp add: store_wf_def)
  with assms(2,3) u ne g show ?thesis
    by (cases "Marshal (st_m s)")
       (auto simp: Load_def Let_def Port_def mget0_def ports_of_def fun_eq_iff)
qed

subsection \<open>Saving is atomic\<close>

lemma drop_tmp: "files t = None \<Longrightarrow> (files(t \<mapsto> x))(t := None) = (files :: fs)"
  by (simp add: fun_upd_idem)

lemma rename_tmp:
  "files t = None \<Longrightarrow> t \<noteq> p \<Longrightarrow>
     (((files(t \<mapsto> x))(t := None))(p \<mapsto> y))(t := None) = (files(p \<mapsto> y) :: fs)"
  by (simp add: fun_upd_idem fun_upd_twist)

lemma saveLocked_eq:
  assumes "fresh_tmp E files s"
  shows "saveLocked E files s =
    (if io_MkdirErr E then (files, Some (SaveFailed ''mkdir''))
     else if io_CreateErr E then (files, Some (SaveFailed ''create''))
     else if io_WriteErr E then (files, Some (SaveFailed ''write''))
     else if io_SyncErr E then (files, Some (SaveFailed ''sync''))
     else if io_CloseErr E then (files, Some (SaveFailed ''close''))
     else if io_RenameErr E then (files, Some (SaveFailed ''rename''))
     else (files(st_path s \<mapsto> Marshal (st_m s)), None))"
  using assms drop_tmp [of files "io_Tmp E"] rename_tmp [of files "io_Tmp E" "st_path s"]
  by (simp add: saveLocked_def fresh_tmp_def Let_def)

lemma saveLocked_err: "fresh_tmp E files s \<Longrightarrow> saveLocked E files s = (files', Some e) \<Longrightarrow> files' = files"
  by (simp add: saveLocked_eq split: if_splits)

lemma saveLocked_ok:
  "fresh_tmp E files s \<Longrightarrow> saveLocked E files s = (files', None) \<Longrightarrow>
     files' = files(st_path s \<mapsto> Marshal (st_m s))"
  by (simp add: saveLocked_eq split: if_splits)

lemma saveLocked_calm:
  "fresh_tmp E files s \<Longrightarrow>
     \<not> (io_MkdirErr E \<or> io_CreateErr E \<or> io_WriteErr E \<or> io_SyncErr E \<or> io_CloseErr E \<or> io_RenameErr E) \<Longrightarrow>
     snd (saveLocked E files s) = None"
  by (simp add: saveLocked_def Let_def)

text \<open>C15: A save is atomic under crashes and failures. Whatever system call fails and
  wherever the process dies, the state file holds either its old contents or the
  complete new document, and every other file but the temporary one is untouched.\<close>

theorem save_crash_atomic:
  assumes "fresh_tmp E files s" and "f \<in> set (save_states E files s)"
  shows "(f (st_path s) = files (st_path s) \<or> f (st_path s) = Some (Marshal (st_m s))) \<and>
    (p \<noteq> st_path s \<longrightarrow> p \<noteq> io_Tmp E \<longrightarrow> f p = files p)"
proof -
  have "fst (saveLocked E files s) = files \<or>
      fst (saveLocked E files s) = files(st_path s \<mapsto> Marshal (st_m s))"
    using saveLocked_err [OF assms(1)] saveLocked_ok [OF assms(1)]
    by (cases "saveLocked E files s"; cases "snd (saveLocked E files s)") auto
  then show ?thesis using assms
    by (auto simp: save_states_def Let_def fresh_tmp_def split: if_splits)
qed

theorem save_crash_atomic_witness:
  "fresh_tmp calm (Map.empty(''state'' \<mapsto> Garbage ''x'')) \<lparr>st_path = ''state'', st_m = \<lparr>md_Version = 1, md_TCPPorts = Some []\<rparr>, st_dirty = True\<rparr> \<and>
   (Map.empty(''state'' \<mapsto> Garbage ''x''))(''state'') \<noteq> None"
proof -
  let ?s = "\<lparr>st_path = ''state'', st_m = \<lparr>md_Version = 1, md_TCPPorts = Some []\<rparr>, st_dirty = True\<rparr>"
  let ?f = "Map.empty(''state'' \<mapsto> Garbage ''x'') :: fs"
  have fresh: "fresh_tmp calm ?f ?s" by (simp add: fresh_tmp_def calm_def)
  have "?f \<in> set (save_states calm ?f ?s)" by (simp add: save_states_def calm_def Let_def)
  from save_crash_atomic [OF fresh this, of "''other''"] fresh show ?thesis by simp
qed

subsection \<open>The invariant\<close>

lemma ports_of_set_ports [simp]: "ports_of (set_ports ports s) = ports"
  by (simp add: ports_of_def set_ports_def)

lemma st_path_set_ports [simp]: "st_path (set_ports ports s) = st_path s"
  by (simp add: set_ports_def)

lemma ports_of_dirty [simp]: "ports_of (s\<lparr>st_dirty := b\<rparr>) = ports_of s"
  by (simp add: ports_of_def)

lemma Port_dirty [simp]: "Port (s\<lparr>st_dirty := b\<rparr>) = Port s"
  by (simp add: Port_def fun_eq_iff)

lemma store_wf_dirty [simp]: "store_wf (s\<lparr>st_dirty := b\<rparr>) = store_wf s"
  by (simp add: store_wf_def)

lemma store_wf_set_ports:
  "store_wf s \<Longrightarrow> mwf ports \<Longrightarrow> list_all (\<lambda>(k, p). int64 p) ports \<Longrightarrow> store_wf (set_ports ports s)"
  by (simp add: store_wf_def) (simp add: set_ports_def)

lemma reloads_saved:
  "store_wf s \<Longrightarrow> files (st_path s) = Some (Marshal (st_m s)) \<Longrightarrow> reloads files s"
  unfolding reloads_def using Load_saved [of s calm files] by (auto simp: calm_def)

lemma reloads_dirty [simp]: "reloads files (s\<lparr>st_dirty := b\<rparr>) = reloads files s"
  by (simp add: reloads_def)

lemma save_reloads:
  assumes "fresh_tmp E files s" "store_wf s" "saveLocked E files s = (files', None)"
  shows "reloads files' s"
  using reloads_saved [OF assms(2)] saveLocked_ok [OF assms(1,3)] by simp

lemma fresh_tmp_cong: "st_path s = st_path s' \<Longrightarrow> fresh_tmp E files s = fresh_tmp E files s'"
  by (simp add: fresh_tmp_def)

lemma store_wf_put:
  "store_wf s \<Longrightarrow> int64 port \<Longrightarrow> store_wf (set_ports (mput name port (ports_of s)) s)"
  by (intro store_wf_set_ports) (auto simp: store_wf_def intro!: list_all_mput)

lemma store_wf_del: "store_wf s \<Longrightarrow> store_wf (set_ports (mdel name (ports_of s)) s)"
  by (intro store_wf_set_ports) (auto simp: store_wf_def intro!: list_all_mdel)

text \<open>The tail that \<open>SetPort\<close> and \<open>Forget\<close> share: save, then clear the dirty flag.\<close>

lemma commit_inv:
  assumes "store_wf s" "fresh_tmp E files s" "saveLocked E files (s\<lparr>st_dirty := True\<rparr>) = (files', r)"
  shows "store_inv files' (s\<lparr>st_dirty := r \<noteq> None\<rparr>)"
proof (cases r)
  case None
  have "fresh_tmp E files (s\<lparr>st_dirty := True\<rparr>)" "store_wf (s\<lparr>st_dirty := True\<rparr>)"
    using assms(1,2) by (simp_all add: fresh_tmp_def)
  from save_reloads [OF this, of files'] assms None have "reloads files' s" by simp
  with assms(1) None show ?thesis by (simp add: store_inv_def)
next
  case (Some e)
  with assms(1) show ?thesis by (simp add: store_inv_def)
qed

lemma SetPort_cases:
  assumes "SetPort E files s name port = (files', s', err)"
  obtains "Port s name = port" "\<not> st_dirty s" "files' = files" "s' = s" "err = None"
  | s1 where "s1 = set_ports (mput name port (ports_of s)) s"
      "saveLocked E files (s1\<lparr>st_dirty := True\<rparr>) = (files', err)"
      "s' = s1\<lparr>st_dirty := err \<noteq> None\<rparr>"
proof (cases "mget0 0 (ports_of s) name = port \<and> \<not> st_dirty s")
  case True
  have "SetPort E files s name port = (files, s, None)"
    unfolding SetPort_def if_P [OF True] ..
  with assms have "files' = files" "s' = s" "err = None" by simp_all
  with True show thesis by (intro that(1)) (simp_all add: Port_def)
next
  case False
  let ?s1 = "set_ports (mput name port (ports_of s)) s"
  obtain f r where sv: "saveLocked E files (?s1\<lparr>st_dirty := True\<rparr>) = (f, r)" by fastforce
  have "SetPort E files s name port = (f, ?s1\<lparr>st_dirty := r \<noteq> None\<rparr>, r)"
    unfolding SetPort_def if_not_P [OF False] Let_def sv by (cases r) simp_all
  with assms have "f = files'" "r = err" "s' = ?s1\<lparr>st_dirty := err \<noteq> None\<rparr>" by auto
  with sv that(2) [of ?s1] show thesis by simp
qed

lemma Forget_cases:
  assumes "Forget E files s name = (files', s', err)"
  obtains "mget (ports_of s) name = None" "\<not> st_dirty s" "files' = files" "s' = s" "err = None"
  | s1 where "s1 = set_ports (mdel name (ports_of s)) s"
      "saveLocked E files (s1\<lparr>st_dirty := True\<rparr>) = (files', err)"
      "s' = s1\<lparr>st_dirty := err \<noteq> None\<rparr>"
proof (cases "mget (ports_of s) name = None \<and> \<not> st_dirty s")
  case True
  have "Forget E files s name = (files, s, None)"
    unfolding Forget_def if_P [OF True] ..
  with assms have "files' = files" "s' = s" "err = None" by simp_all
  with True show thesis by (intro that(1)) simp_all
next
  case False
  let ?s1 = "set_ports (mdel name (ports_of s)) s"
  obtain f r where sv: "saveLocked E files (?s1\<lparr>st_dirty := True\<rparr>) = (f, r)" by fastforce
  have "Forget E files s name = (f, ?s1\<lparr>st_dirty := r \<noteq> None\<rparr>, r)"
    unfolding Forget_def if_not_P [OF False] Let_def sv by (cases r) simp_all
  with assms have "f = files'" "r = err" "s' = ?s1\<lparr>st_dirty := err \<noteq> None\<rparr>" by auto
  with sv that(2) [of ?s1] show thesis by simp
qed

lemma store_inv_SetPort:
  assumes "store_inv files s" "fresh_tmp E files s" "int64 port"
    and "SetPort E files s name port = (files', s', err)"
  shows "store_inv files' s'"
  using assms(4)
proof (cases rule: SetPort_cases)
  case 1
  with assms(1) show ?thesis by simp
next
  case (2 s1)
  with assms have "store_wf s1" "fresh_tmp E files s1"
    by (auto simp: store_inv_def fresh_tmp_def intro!: store_wf_put)
  from commit_inv [OF this 2(2)] 2 show ?thesis by simp
qed

lemma store_inv_Forget:
  assumes "store_inv files s" "fresh_tmp E files s" and "Forget E files s name = (files', s', err)"
  shows "store_inv files' s'"
  using assms(3)
proof (cases rule: Forget_cases)
  case 1
  with assms(1) show ?thesis by simp
next
  case (2 s1)
  with assms have "store_wf s1" "fresh_tmp E files s1"
    by (auto simp: store_inv_def fresh_tmp_def intro!: store_wf_del)
  from commit_inv [OF this 2(2)] 2 show ?thesis by simp
qed

lemma SetPort_Port:
  "SetPort E files s name port = (files', s', err) \<Longrightarrow>
     Port s' n = (if n = name then port else Port s n) \<and> st_path s' = st_path s"
  by (erule SetPort_cases) (auto simp: Port_def)

lemma SetPort_ok_clean:
  "SetPort E files s name port = (files', s', None) \<Longrightarrow> \<not> st_dirty s'"
  by (erule SetPort_cases) auto

lemma Forget_Port:
  "Forget E files s name = (files', s', err) \<Longrightarrow>
     Port s' n = (if n = name then 0 else Port s n) \<and> st_path s' = st_path s"
  by (erule Forget_cases) (auto simp: Port_def mget0_def)

lemma Forget_ok_clean: "Forget E files s name = (files', s', None) \<Longrightarrow> \<not> st_dirty s'"
  by (erule Forget_cases) auto

lemma SetPort_err_files:
  "fresh_tmp E files s \<Longrightarrow> SetPort E files s name port = (files', s', Some e) \<Longrightarrow> files' = files"
  by (erule SetPort_cases) (auto simp: fresh_tmp_def dest: saveLocked_err [rotated])

lemma SetPort_other_files:
  assumes "fresh_tmp E files s" "SetPort E files s name port = (files', s', err)" "p \<noteq> st_path s"
  shows "files' p = files p"
  using assms(2)
proof (cases rule: SetPort_cases)
  case (2 s1)
  have "fresh_tmp E files (s1\<lparr>st_dirty := True\<rparr>)" using assms(1) 2(1) by (simp add: fresh_tmp_def)
  with 2(1,2) assms(3) show ?thesis
    using saveLocked_ok [of E files "s1\<lparr>st_dirty := True\<rparr>" files']
      saveLocked_err [of E files "s1\<lparr>st_dirty := True\<rparr>" files'] by (cases err) auto
qed simp

lemma Save_ok:
  assumes "store_wf s" "fresh_tmp E files s" "Save E files s = (files', s', None)"
  shows "store_inv files' s' \<and> \<not> st_dirty s' \<and> Port s' = Port s"
  using assms save_reloads [OF assms(2,1)]
  by (auto simp: Save_def store_inv_def split: prod.splits option.splits)

lemma Snapshot_get: "store_wf s \<Longrightarrow> mget (Snapshot s) = mget (ports_of s)"
  unfolding Snapshot_def store_wf_def
  by (auto simp: fun_eq_iff mget_fold_mput split: option.splits)

subsection \<open>Loading establishes the invariant\<close>

lemma store_wf_empty: "store_wf \<lparr>st_path = path, st_m = \<lparr>md_Version = 1, md_TCPPorts = Some []\<rparr>, st_dirty = b\<rparr>"
  by (simp add: store_wf_def ports_of_def)

lemma dec_int_int64: "dec_int old j = Some i \<Longrightarrow> int64 old \<Longrightarrow> int64 i"
  by (auto simp: dec_int_def split: json.splits if_splits)

lemma dec_ports_wf:
  "dec_ports kvs m = Some ports \<Longrightarrow> mwf m \<Longrightarrow> list_all (\<lambda>(k, p). int64 p) m \<Longrightarrow>
     mwf ports \<and> list_all (\<lambda>(k, p). int64 p) ports"
proof (induction kvs m rule: dec_ports.induct)
  case (2 k j kvs m)
  then show ?case
    using dec_int_int64 [of 0 j] by (auto split: option.splits intro!: list_all_mput)
qed simp

lemma dec_model_wf: "dec_model kvs m = Some m' \<Longrightarrow> model_wf m \<Longrightarrow> model_wf m'"
proof (induction kvs m rule: dec_model.induct)
  case (2 k j kvs m)
  note dec_ports_wf [of _ "[]"] dec_ports_wf [of _ "the (md_TCPPorts m)"] dec_int_int64 [of "md_Version m" j]
  with 2 show ?case
    by (auto simp: model_wf_def split: option.splits if_splits json.splits)
qed simp

lemma Unmarshal_wf: "Unmarshal c = Some m \<Longrightarrow> model_wf m"
  by (auto simp: Unmarshal_def model_wf_def dest: dec_model_wf split: content.splits json.splits)

lemma Load_wf: "Load E files path = (files', Inr s) \<Longrightarrow> store_wf s \<and> st_path s = path \<and> \<not> st_dirty s"
  using store_wf_empty [of path False]
  by (auto simp: Load_def Let_def store_wf_def ports_of_def model_wf_def
      split: if_splits option.splits content.splits dest!: Unmarshal_wf)

lemma corrupt_path_other: "corrupt_path path t \<noteq> path"
  by (simp add: corrupt_path_def)

lemma Load_reloads: "Load E files path = (files', Inr s) \<Longrightarrow> reloads files' s"
proof -
  assume L: "Load E files path = (files', Inr s)"
  then have p: "st_path s = path" and f: "files' path = files path"
    using Load_wf [OF L] corrupt_path_other [of path]
    by (auto simp: Load_def Let_def split: if_splits option.splits content.splits)
  have "\<exists>f. Load calm files' path = (f, Inr s)"
    using L f by (auto simp: Load_def calm_def Let_def split: if_splits option.splits content.splits)
  with p show ?thesis by (auto simp: reloads_def)
qed

lemma Load_any_env:
  assumes "reloads files s" and "\<not> io_ReadErr E" and "\<not> io_BackupErr E"
  shows "\<exists>files' s'. Load E files (st_path s) = (files', Inr s') \<and> Port s' = Port s"
proof -
  from assms(1) obtain f s' where L: "Load calm files (st_path s) = (f, Inr s')" "Port s' = Port s"
    by (auto simp: reloads_def)
  then have "\<exists>f. Load E files (st_path s) = (f, Inr s')"
    using assms(2,3)
    by (auto simp: Load_def calm_def Let_def split: if_splits option.splits content.splits)
  with L(2) show ?thesis by auto
qed

lemma store_inv_Load: "Load E files path = (files', Inr s) \<Longrightarrow> store_inv files' s"
  using Load_wf Load_reloads by (auto simp: store_inv_def)

subsection \<open>Histories\<close>

lemma Save_inv:
  assumes "store_inv files s" "fresh_tmp E files s" "Save E files s = (files', s', err)"
  shows "store_inv files' s' \<and> Port s' = Port s \<and> st_path s' = st_path s \<and> (err = None \<longrightarrow> \<not> st_dirty s')"
proof (cases err)
  case None
  with assms show ?thesis using Save_ok [of s E files files' s']
    by (auto simp: store_inv_def Save_def split: prod.splits option.splits)
next
  case (Some e)
  with assms have "files' = files" "s' = s"
    using saveLocked_err [OF assms(2), of files' e]
    by (auto simp: Save_def split: prod.splits option.splits)
  with assms(1) Some show ?thesis by simp
qed

lemma store_step_inv:
  assumes "store_inv files s" "fresh_tmp E files s" "case x of OpSetPort _ port \<Rightarrow> int64 port | _ \<Rightarrow> True"
    and "store_step E x (files, s) = (files', s', err)"
  shows "store_inv files' s' \<and> Port s' = spec_step x (Port s) \<and> st_path s' = st_path s \<and>
    (err = None \<longrightarrow> \<not> st_dirty s')"
proof (cases x)
  case (OpSetPort name port)
  then have S: "SetPort E files s name port = (files', s', err)" and "int64 port"
    using assms(3,4) by auto
  have "Port s' = (Port s)(name := port)" "st_path s' = st_path s"
    using SetPort_Port [OF S] by (auto simp: fun_eq_iff)
  moreover have "err = None \<Longrightarrow> \<not> st_dirty s'" using SetPort_ok_clean S by auto
  moreover have "store_inv files' s'"
    by (rule store_inv_SetPort [OF assms(1,2) \<open>int64 port\<close> S])
  ultimately show ?thesis using OpSetPort by simp
next
  case (OpForget name)
  then have F: "Forget E files s name = (files', s', err)" using assms(4) by simp
  have "Port s' = (Port s)(name := 0)" "st_path s' = st_path s"
    using Forget_Port [OF F] by (auto simp: fun_eq_iff)
  moreover have "err = None \<Longrightarrow> \<not> st_dirty s'" using Forget_ok_clean F by auto
  moreover have "store_inv files' s'" by (rule store_inv_Forget [OF assms(1,2) F])
  ultimately show ?thesis using OpForget by simp
next
  case OpSave
  with Save_inv [OF assms(1,2)] assms(4) show ?thesis by simp
qed

text \<open>
  The interface the port allocator relies on: a memory with an on-disk image, whose
  operations act on the memory as the specification says, and whose last operation, when
  it reports success, has made the image equal to the memory.
\<close>

locale durable_memory =
  fixes exec :: "'env \<Rightarrow> 'cmd \<Rightarrow> 'st \<Rightarrow> 'st \<times> 'err option"
    and view :: "'st \<Rightarrow> 'v"
    and spec :: "'cmd \<Rightarrow> 'v \<Rightarrow> 'v"
    and allowed :: "'env \<Rightarrow> 'cmd \<Rightarrow> 'st \<Rightarrow> bool"
    and inv :: "'st \<Rightarrow> bool"
    and synced :: "'st \<Rightarrow> bool"
  assumes exec_inv: "inv st \<Longrightarrow> allowed E c st \<Longrightarrow> inv (fst (exec E c st))"
    and exec_view: "inv st \<Longrightarrow> allowed E c st \<Longrightarrow> view (fst (exec E c st)) = spec c (view st)"
    and exec_synced: "inv st \<Longrightarrow> allowed E c st \<Longrightarrow> snd (exec E c st) = None \<Longrightarrow> synced (fst (exec E c st))"
begin

fun execs :: "('env \<times> 'cmd) list \<Rightarrow> 'st \<times> 'err option \<Rightarrow> 'st \<times> 'err option" where
  "execs [] r = r"
| "execs ((E, c) # cs) r = execs cs (exec E c (fst r))"

fun all_allowed :: "('env \<times> 'cmd) list \<Rightarrow> 'st \<times> 'err option \<Rightarrow> bool" where
  "all_allowed [] r = True"
| "all_allowed ((E, c) # cs) r \<longleftrightarrow> allowed E c (fst r) \<and> all_allowed cs (exec E c (fst r))"

lemma execs_inv: "inv (fst r) \<Longrightarrow> all_allowed cs r \<Longrightarrow> inv (fst (execs cs r))"
  by (induction cs r rule: execs.induct) (auto intro: exec_inv)

lemma execs_view:
  "inv (fst r) \<Longrightarrow> all_allowed cs r \<Longrightarrow> view (fst (execs cs r)) = fold spec (map snd cs) (view (fst r))"
  by (induction cs r rule: execs.induct) (auto simp: exec_view exec_inv)

lemma execs_synced:
  "inv (fst r) \<Longrightarrow> all_allowed cs r \<Longrightarrow> (snd r = None \<Longrightarrow> synced (fst r)) \<Longrightarrow>
     snd (execs cs r) = None \<Longrightarrow> synced (fst (execs cs r))"
  by (induction cs r rule: execs.induct) (auto intro: exec_inv exec_synced)

end

definition exec_store :: "io_env \<Rightarrow> store_op \<Rightarrow> fs \<times> Store \<Rightarrow> (fs \<times> Store) \<times> state_error option" where
  "exec_store E x st = (case store_step E x st of (files', s', err) \<Rightarrow> ((files', s'), err))"

definition store_allowed :: "io_env \<Rightarrow> store_op \<Rightarrow> fs \<times> Store \<Rightarrow> bool" where
  "store_allowed E x st \<longleftrightarrow> fresh_tmp E (fst st) (snd st) \<and>
     (case x of OpSetPort _ port \<Rightarrow> int64 port | _ \<Rightarrow> True)"

interpretation store: durable_memory exec_store "\<lambda>st. (Port (snd st), st_path (snd st))"
  "\<lambda>x v. (spec_step x (fst v), snd v)" store_allowed "\<lambda>st. store_inv (fst st) (snd st)"
  "\<lambda>st. reloads (fst st) (snd st)"
proof unfold_locales
  fix st E c
  assume a: "store_inv (fst st) (snd st)" "store_allowed E c st"
  obtain files' s' err where r: "store_step E c (fst st, snd st) = (files', s', err)"
    using prod_cases3 by blast
  note * = store_step_inv [OF a(1) _ _ r]
  from a(2) have b: "fresh_tmp E (fst st) (snd st)" "case c of OpSetPort _ port \<Rightarrow> int64 port | _ \<Rightarrow> True"
    by (simp_all add: store_allowed_def)
  have x: "exec_store E c st = ((files', s'), err)" using r by (simp add: exec_store_def)
  show "store_inv (fst (fst (exec_store E c st))) (snd (fst (exec_store E c st)))"
    using * [OF b] x by simp
  show "(Port (snd (fst (exec_store E c st))), st_path (snd (fst (exec_store E c st)))) =
      (spec_step c (fst (Port (snd st), st_path (snd st))), snd (Port (snd st), st_path (snd st)))"
    using * [OF b] x by simp
  show "snd (exec_store E c st) = None \<Longrightarrow>
      reloads (fst (fst (exec_store E c st))) (snd (fst (exec_store E c st)))"
    using * [OF b] x by (simp add: store_inv_def)
qed

lemma exec_store_step:
  "store_step E c (files, s) = (files', s', err) \<Longrightarrow> exec_store E c (files, s) = ((files', s'), err)"
  by (simp add: exec_store_def)

lemma store_run_execs:
  "(case store.execs ops ((files, s), r) of ((f, s'), e) \<Rightarrow> (f, s', e)) = store_run ops (files, s, r)"
proof (induction ops arbitrary: files s r)
  case (Cons op ops)
  obtain E c where [simp]: "op = (E, c)" by fastforce
  obtain files' s' err where "store_step E c (files, s) = (files', s', err)" using prod_cases3 by blast
  with Cons exec_store_step [OF this] show ?case by simp
qed simp

lemma run_fresh_allowed: "store.all_allowed ops ((files, s), r) = run_fresh ops (files, s, r)"
proof (induction ops arbitrary: files s r)
  case (Cons op ops)
  obtain E c where [simp]: "op = (E, c)" by fastforce
  obtain files' s' err where "store_step E c (files, s) = (files', s', err)" using prod_cases3 by blast
  with Cons exec_store_step [OF this] show ?case
    by (simp add: store_allowed_def [of E c])
qed simp

text \<open>C8: Remembered ports are durable. After any history of \<open>SetPort\<close>, \<open>Forget\<close> and
  \<open>Save\<close> on a loaded store, in which any system call of any save may have failed, the
  memory holds what the history says; and if the last operation reported success, a
  restart that can read the file loads exactly these ports.\<close>

theorem acknowledged_ports_are_durable:
  assumes "Load E0 files0 path = (files, Inr s)"
    and "run_fresh ops (files, s, None)"
    and "store_run ops (files, s, None) = (files', s', err)"
  shows "Port s' = fold spec_step (map snd ops) (Port s) \<and>
    (err = None \<longrightarrow> \<not> io_ReadErr E \<longrightarrow> \<not> io_BackupErr E \<longrightarrow>
      (\<exists>files'' s''. Load E files' path = (files'', Inr s'') \<and> Port s'' = Port s'))"
proof -
  let ?r = "((files, s), None)"
  have inv: "store_inv (fst (fst ?r)) (snd (fst ?r))" using store_inv_Load [OF assms(1)] by simp
  have al: "store.all_allowed ops ?r" using assms(2) by (simp add: run_fresh_allowed)
  have x: "store.execs ops ?r = ((files', s'), err)"
    using store_run_execs [of ops files s None] assms(3) by (auto split: prod.splits)
  have f: "fold (\<lambda>c v. (spec_step c (fst v), snd v)) cs (g, p) = (fold spec_step cs g, p)" for cs g p
    by (induction cs arbitrary: g) auto
  have v: "Port s' = fold spec_step (map snd ops) (Port s)" "st_path s' = path"
    using store.execs_view [OF inv al] Load_wf [OF assms(1)] by (simp_all add: x f)
  have "err = None \<Longrightarrow> reloads files' s'"
    using store.execs_synced [OF inv al] Load_reloads [OF assms(1)] by (simp add: x)
  then show ?thesis using v Load_any_env [of files' s' E] by auto
qed

theorem acknowledged_ports_are_durable_witness:
  "\<exists>files' s' files'' s''.
     store_run [(calm\<lparr>io_SyncErr := True\<rparr>, OpSetPort ''db'' 15007), (calm, OpSetPort ''db'' 15007)]
       (Map.empty, \<lparr>st_path = ''p'', st_m = \<lparr>md_Version = 1, md_TCPPorts = Some []\<rparr>, st_dirty = False\<rparr>, None) =
       (files', s', None) \<and>
     Load calm files' ''p'' = (files'', Inr s'') \<and> Port s'' ''db'' = 15007"
proof -
  let ?ops = "[(calm\<lparr>io_SyncErr := True\<rparr>, OpSetPort ''db'' 15007), (calm, OpSetPort ''db'' 15007)]"
  let ?s = "\<lparr>st_path = ''p'', st_m = \<lparr>md_Version = 1, md_TCPPorts = Some []\<rparr>, st_dirty = False\<rparr>"
  let ?s' = "\<lparr>st_path = ''p'', st_m = \<lparr>md_Version = 1, md_TCPPorts = Some [(''db'', 15007)]\<rparr>, st_dirty = False\<rparr>"
  have L: "Load calm Map.empty ''p'' = (Map.empty, Inr ?s)" by (simp add: Load_def calm_def)
  have sync: "saveLocked (calm\<lparr>io_SyncErr := True\<rparr>) Map.empty (s1 :: Store) =
      (Map.empty, Some (SaveFailed ''sync''))" for s1
    by (simp add: saveLocked_def calm_def fun_eq_iff)
  have fr: "run_fresh ?ops (Map.empty, ?s, None)"
    by (simp add: SetPort_def sync ports_of_def) (simp add: fresh_tmp_def calm_def set_ports_def)
  obtain files' where R: "store_run ?ops (Map.empty, ?s, None) = (files', ?s', None)"
    by (simp add: SetPort_def sync ports_of_def set_ports_def mput_def saveLocked_def calm_def)
  have ok: "\<not> io_ReadErr calm" "\<not> io_BackupErr calm" by (simp_all add: calm_def)
  from acknowledged_ports_are_durable [OF L fr R, of calm] ok
  obtain files'' s'' where "Load calm files' ''p'' = (files'', Inr s'')" "Port s'' = Port ?s'" by auto
  moreover have "Port ?s' ''db'' = 15007" by (simp add: Port_def ports_of_def mget0_def)
  ultimately show ?thesis using R by metis
qed

end
