(* ===== verification/Allocator.thy ===== *)
theory Allocator
  imports State_Store
begin

text \<open>
  \<open>internal/runtime/allocator.go\<close>: the allocation of stable frontend ports by binding
  them. The process's open listeners are part of the state, as their addresses; which
  other addresses the operating system lets the process bind during one allocation is
  the parameter \<open>bindable\<close>.
\<close>

section \<open>Definitions\<close>

datatype alloc_error =
    ErrPortExhausted int int
  | PersistFailed state_error

record Allocation =
  an_Port :: int
  an_Listener :: string

record Allocator =
  al_host :: string
  al_min :: int
  al_max :: int

text \<open>What an allocation acts on: the disk, the store (\<open>None\<close> is a nil store), the listeners.\<close>

record world =
  wd_files :: fs
  wd_state :: "Store option"
  wd_listeners :: "string list"

definition NewAllocator :: "string \<Rightarrow> int \<Rightarrow> int \<Rightarrow> Allocator" where
  "NewAllocator host minPort maxPort = \<lparr>al_host = host, al_min = minPort, al_max = maxPort\<rparr>"

definition allocAddr :: "string \<Rightarrow> int \<Rightarrow> string" where
  "allocAddr host port = JoinHostPort host (Itoa port)"

definition startOffset :: "string \<Rightarrow> int \<Rightarrow> int" where
  "startOffset name sz = uint (fnv32a name) mod sz"

definition net_Listen :: "(string \<Rightarrow> bool) \<Rightarrow> string list \<Rightarrow> string \<Rightarrow> string list option" where
  "net_Listen bindable open_addrs addr =
     (if bindable addr \<and> addr \<notin> set open_addrs then Some (addr # open_addrs) else None)"

definition net_Close :: "string list \<Rightarrow> string \<Rightarrow> string list" where
  "net_Close open_addrs addr = removeAll addr open_addrs"

text \<open>\<open>Inr None\<close> is the result \<open>ok = false\<close>: the port could not be bound.\<close>

definition alloc_try ::
  "io_env \<Rightarrow> (string \<Rightarrow> bool) \<Rightarrow> Allocator \<Rightarrow> string \<Rightarrow> int \<Rightarrow> world
     \<Rightarrow> world \<times> (alloc_error, Allocation option) result" where
  "alloc_try E bindable a name port w =
     (let addr = allocAddr (al_host a) port in
      case net_Listen bindable (wd_listeners w) addr of
        None \<Rightarrow> (w, Inr None)
      | Some lns \<Rightarrow>
          (let w1 = w\<lparr>wd_listeners := lns\<rparr> in
           case wd_state w1 of
             None \<Rightarrow> (w1, Inr (Some \<lparr>an_Port = port, an_Listener = addr\<rparr>))
           | Some st \<Rightarrow>
               (case SetPort E (wd_files w1) st name port of
                  (files', st', Some err) \<Rightarrow>
                    (w1\<lparr>wd_files := files', wd_state := Some st', wd_listeners := net_Close lns addr\<rparr>,
                     Inl (PersistFailed err))
                | (files', st', None) \<Rightarrow>
                    (w1\<lparr>wd_files := files', wd_state := Some st'\<rparr>,
                     Inr (Some \<lparr>an_Port = port, an_Listener = addr\<rparr>)))))"

fun alloc_loop ::
  "io_env \<Rightarrow> (string \<Rightarrow> bool) \<Rightarrow> Allocator \<Rightarrow> string \<Rightarrow> int \<Rightarrow> int \<Rightarrow> int \<Rightarrow> int \<Rightarrow> int list \<Rightarrow> world
     \<Rightarrow> world \<times> (alloc_error, Allocation) result" where
  "alloc_loop E bindable a name remembered preferred start sz [] w =
     (w, Inl (ErrPortExhausted (al_min a) (al_max a)))"
| "alloc_loop E bindable a name remembered preferred start sz (i # is) w =
     (let port = al_min a + (start + i) mod sz in
      if port = remembered \<or> port = preferred
      then alloc_loop E bindable a name remembered preferred start sz is w
      else case alloc_try E bindable a name port w of
             (w', Inl err) \<Rightarrow> (w', Inl err)
           | (w', Inr (Some alloc)) \<Rightarrow> (w', Inr alloc)
           | (w', Inr None) \<Rightarrow> alloc_loop E bindable a name remembered preferred start sz is w')"

definition alloc_scan ::
  "io_env \<Rightarrow> (string \<Rightarrow> bool) \<Rightarrow> Allocator \<Rightarrow> string \<Rightarrow> int \<Rightarrow> int \<Rightarrow> world
     \<Rightarrow> world \<times> (alloc_error, Allocation) result" where
  "alloc_scan E bindable a name remembered preferred w =
     (let sz = al_max a - al_min a + 1 in
      if sz \<le> 0 then (w, Inl (ErrPortExhausted (al_min a) (al_max a)))
      else alloc_loop E bindable a name remembered preferred (startOffset name sz) sz [0..sz - 1] w)"

definition alloc_preferred ::
  "io_env \<Rightarrow> (string \<Rightarrow> bool) \<Rightarrow> Allocator \<Rightarrow> string \<Rightarrow> int \<Rightarrow> int \<Rightarrow> world
     \<Rightarrow> world \<times> (alloc_error, Allocation) result" where
  "alloc_preferred E bindable a name remembered preferred w =
     (if preferred \<noteq> 0 then
        (case alloc_try E bindable a name preferred w of
           (w', Inl err) \<Rightarrow> (w', Inl err)
         | (w', Inr (Some alloc)) \<Rightarrow> (w', Inr alloc)
         | (w', Inr None) \<Rightarrow> alloc_scan E bindable a name remembered preferred w')
      else alloc_scan E bindable a name remembered preferred w)"

definition Allocate ::
  "io_env \<Rightarrow> (string \<Rightarrow> bool) \<Rightarrow> Allocator \<Rightarrow> string \<Rightarrow> int \<Rightarrow> world
     \<Rightarrow> world \<times> (alloc_error, Allocation) result" where
  "Allocate E bindable a name preferred w =
     (let remembered = (case wd_state w of None \<Rightarrow> 0 | Some st \<Rightarrow> Port st name) in
      if remembered \<noteq> 0 then
        (case alloc_try E bindable a name remembered w of
           (w', Inl err) \<Rightarrow> (w', Inl err)
         | (w', Inr (Some alloc)) \<Rightarrow> (w', Inr alloc)
         | (w', Inr None) \<Rightarrow> alloc_preferred E bindable a name remembered preferred w')
      else alloc_preferred E bindable a name remembered preferred w)"

subsection \<open>Specification\<close>

text \<open>
  The candidate ports of an allocation in the order of preference, and the
  specification: the first candidate that can be bound wins.
\<close>

definition probes :: "Allocator \<Rightarrow> string \<Rightarrow> int list" where
  "probes a name =
     (let sz = al_max a - al_min a + 1 in
      map (\<lambda>i. al_min a + (startOffset name sz + i) mod sz) [0..sz - 1])"

definition candidates :: "Allocator \<Rightarrow> string \<Rightarrow> int \<Rightarrow> int \<Rightarrow> int list" where
  "candidates a name remembered preferred =
     filter (\<lambda>p. p \<noteq> 0) [remembered, preferred] @
     filter (\<lambda>p. p \<noteq> remembered \<and> p \<noteq> preferred) (probes a name)"

definition can_bind :: "(string \<Rightarrow> bool) \<Rightarrow> Allocator \<Rightarrow> world \<Rightarrow> int \<Rightarrow> bool" where
  "can_bind bindable a w port \<longleftrightarrow>
     bindable (allocAddr (al_host a) port) \<and> allocAddr (al_host a) port \<notin> set (wd_listeners w)"

definition remembered_port :: "world \<Rightarrow> string \<Rightarrow> int" where
  "remembered_port w name = (case wd_state w of None \<Rightarrow> 0 | Some st \<Rightarrow> Port st name)"

fun alloc_first ::
  "io_env \<Rightarrow> (string \<Rightarrow> bool) \<Rightarrow> Allocator \<Rightarrow> string \<Rightarrow> int list \<Rightarrow> world
     \<Rightarrow> world \<times> (alloc_error, Allocation) result" where
  "alloc_first E bindable a name ps w =
     (case find (can_bind bindable a w) ps of
        None \<Rightarrow> (w, Inl (ErrPortExhausted (al_min a) (al_max a)))
      | Some p \<Rightarrow>
          (case alloc_try E bindable a name p w of
             (w', Inl err) \<Rightarrow> (w', Inl err)
           | (w', Inr (Some alloc)) \<Rightarrow> (w', Inr alloc)
           | (w', Inr None) \<Rightarrow> (w', Inl (ErrPortExhausted (al_min a) (al_max a)))))"

definition sample_store :: Store where
  "sample_store = \<lparr>st_path = ''p'', st_m = \<lparr>md_Version = 1, md_TCPPorts = Some []\<rparr>, st_dirty = False\<rparr>"

definition sample_world :: world where
  "sample_world = \<lparr>wd_files = Map.empty, wd_state = Some sample_store, wd_listeners = []\<rparr>"

section \<open>Lemmas\<close>

subsection \<open>The probe sequence\<close>

lemma probes_range:
  assumes "al_min a \<le> al_max a"
  shows "set (probes a name) = {al_min a..al_max a}" and "distinct (probes a name)"
proof -
  let ?sz = "al_max a - al_min a + 1" and ?start = "startOffset name (al_max a - al_min a + 1)"
  let ?f = "\<lambda>i. al_min a + (?start + i) mod ?sz"
  have pos: "0 < ?sz" using assms by simp
  have inj: "inj_on ?f {0..?sz - 1}"
  proof (rule inj_onI)
    fix x y assume xy: "x \<in> {0..?sz - 1}" "y \<in> {0..?sz - 1}" "?f x = ?f y"
    then have "(?start + x) mod ?sz = (?start + y) mod ?sz" by simp
    then have "x mod ?sz = y mod ?sz" by (metis add_diff_cancel_left' mod_diff_left_eq)
    with xy pos show "x = y" by simp
  qed
  have "?f ` {0..?sz - 1} \<subseteq> {al_min a..al_max a}"
    using pos by (auto simp: add.commute) (smt (verit) pos_mod_bound)
  moreover have "card (?f ` {0..?sz - 1}) = card {al_min a..al_max a}"
    using card_image [OF inj] by simp
  ultimately have "?f ` {0..?sz - 1} = {al_min a..al_max a}"
    by (intro card_subset_eq) auto
  then show "set (probes a name) = {al_min a..al_max a}"
    by (simp add: probes_def Let_def image_image)
  show "distinct (probes a name)"
    using inj by (simp add: probes_def Let_def distinct_map)
qed

lemma startOffset_range: "0 < sz \<Longrightarrow> 0 \<le> startOffset name sz \<and> startOffset name sz < sz"
  by (simp add: startOffset_def)

subsection \<open>Allocation is a search for the first bindable candidate\<close>

lemma alloc_try_not:
  "\<not> can_bind bindable a w port \<Longrightarrow> alloc_try E bindable a name port w = (w, Inr None)"
  by (auto simp: alloc_try_def net_Listen_def can_bind_def Let_def)

lemma alloc_try_bound:
  assumes "can_bind bindable a w port"
  shows "alloc_try E bindable a name port w =
    (case wd_state w of
       None \<Rightarrow> (w\<lparr>wd_listeners := allocAddr (al_host a) port # wd_listeners w\<rparr>,
               Inr (Some \<lparr>an_Port = port, an_Listener = allocAddr (al_host a) port\<rparr>))
     | Some st \<Rightarrow>
         (case SetPort E (wd_files w) st name port of
            (files', st', Some err) \<Rightarrow>
              (w\<lparr>wd_files := files', wd_state := Some st'\<rparr>, Inl (PersistFailed err))
          | (files', st', None) \<Rightarrow>
              (w\<lparr>wd_files := files', wd_state := Some st',
                 wd_listeners := allocAddr (al_host a) port # wd_listeners w\<rparr>,
               Inr (Some \<lparr>an_Port = port, an_Listener = allocAddr (al_host a) port\<rparr>))))"
  using assms
  by (auto simp: alloc_try_def net_Listen_def net_Close_def can_bind_def Let_def
      split: option.splits prod.splits)

lemma alloc_try_Inr:
  "alloc_try E bindable a name port w = (w', Inr r) \<Longrightarrow> (r = None) \<longleftrightarrow> \<not> can_bind bindable a w port"
  using alloc_try_not [of bindable a w port E name] alloc_try_bound [of bindable a w port E name]
  by (cases "can_bind bindable a w port") (auto split: option.splits prod.splits)

lemma alloc_first_Cons_not:
  "\<not> can_bind bindable a w p \<Longrightarrow> alloc_first E bindable a name (p # ps) w = alloc_first E bindable a name ps w"
  by simp

lemma alloc_first_Cons:
  "(case alloc_try E bindable a name p w of
      (w', Inl err) \<Rightarrow> (w', Inl err)
    | (w', Inr (Some alloc)) \<Rightarrow> (w', Inr alloc)
    | (w', Inr None) \<Rightarrow> alloc_first E bindable a name ps w') = alloc_first E bindable a name (p # ps) w"
proof (cases "can_bind bindable a w p")
  case True
  then show ?thesis
    using alloc_try_Inr [of E bindable a name p w]
    by (auto split: prod.splits sum.splits option.splits)
next
  case False
  then show ?thesis by (simp add: alloc_try_not)
qed

lemma alloc_loop_first:
  "alloc_loop E bindable a name remembered preferred start sz is w =
     alloc_first E bindable a name
       (filter (\<lambda>p. p \<noteq> remembered \<and> p \<noteq> preferred) (map (\<lambda>i. al_min a + (start + i) mod sz) is)) w"
proof (induction "is" arbitrary: w)
  case (Cons i "is")
  let ?p = "al_min a + (start + i) mod sz"
  show ?case
  proof (cases "?p = remembered \<or> ?p = preferred")
    case True
    then show ?thesis using Cons.IH by (auto simp: Let_def)
  next
    case False
    then show ?thesis
      using alloc_first_Cons [where p = ?p and w = w] by (simp add: Cons.IH Let_def del: alloc_first.simps)
  qed
qed simp

lemma Allocate_first:
  "Allocate E bindable a name preferred w =
     alloc_first E bindable a name (candidates a name (remembered_port w name) preferred) w"
proof -
  let ?r = "remembered_port w name"
  let ?rest = "filter (\<lambda>p. p \<noteq> ?r \<and> p \<noteq> preferred) (probes a name)"
  have scan: "alloc_scan E bindable a name ?r preferred w' = alloc_first E bindable a name ?rest w'" for w'
    by (auto simp: alloc_scan_def alloc_loop_first probes_def Let_def simp del: alloc_first.simps)
       (simp)
  have pref: "alloc_preferred E bindable a name ?r preferred w' =
      alloc_first E bindable a name (filter (\<lambda>p. p \<noteq> 0) [preferred] @ ?rest) w'" for w'
    unfolding alloc_preferred_def scan alloc_first_Cons by (simp del: alloc_first.simps)
  show ?thesis
    unfolding Allocate_def candidates_def remembered_port_def [symmetric] Let_def pref alloc_first_Cons
    by (simp del: alloc_first.simps)
qed

subsection \<open>What an allocation does\<close>

lemma set_candidates:
  assumes "al_min a \<le> al_max a"
  shows "set (candidates a name r p) =
    ({r, p} - {0}) \<union> ({al_min a..al_max a} - {r, p})"
proof -
  have "set (probes a name) = {al_min a..al_max a}" by (rule probes_range(1) [OF assms])
  then have "set (candidates a name r p) = set (filter (\<lambda>p. p \<noteq> 0) [r, p]) \<union>
      {x \<in> {al_min a..al_max a}. x \<noteq> r \<and> x \<noteq> p}"
    by (simp only: candidates_def set_append set_filter)
  then show ?thesis by auto
qed

lemma find_None_all: "find P xs = None \<longleftrightarrow> (\<forall>x \<in> set xs. \<not> P x)"
  by (auto simp: find_None_iff)

lemma alloc_first_cases:
  assumes "alloc_first E bindable a name ps w = (w', r)"
  obtains (exhausted) "r = Inl (ErrPortExhausted (al_min a) (al_max a))" "w' = w"
      "\<forall>p \<in> set ps. \<not> can_bind bindable a w p"
  | (unpersisted) p st err where "p \<in> set ps" "can_bind bindable a w p" "wd_state w = Some st"
      "r = Inl (PersistFailed err)" "wd_listeners w' = wd_listeners w"
      "SetPort E (wd_files w) st name p = (wd_files w', the (wd_state w'), Some err)"
      "wd_state w' \<noteq> None"
  | (bound) p where "find (can_bind bindable a w) ps = Some p" "p \<in> set ps" "can_bind bindable a w p"
      "r = Inr \<lparr>an_Port = p, an_Listener = allocAddr (al_host a) p\<rparr>"
      "wd_listeners w' = allocAddr (al_host a) p # wd_listeners w"
      "case wd_state w of
         None \<Rightarrow> wd_state w' = None \<and> wd_files w' = wd_files w
       | Some st \<Rightarrow> \<exists>st'. wd_state w' = Some st' \<and> SetPort E (wd_files w) st name p = (wd_files w', st', None)"
proof (cases "find (can_bind bindable a w) ps")
  case None
  with assms show thesis by (intro exhausted) (auto simp: find_None_all)
next
  case (Some p)
  then have p: "p \<in> set ps" "can_bind bindable a w p"
    by (auto simp: find_Some_iff)
  note eq = assms [unfolded alloc_first.simps Some option.case alloc_try_bound [OF p(2)]]
  show thesis
  proof (cases "wd_state w")
    case None
    with eq p Some show thesis by (intro bound [of p]) auto
  next
    case (Some st)
    obtain files' st' err where S: "SetPort E (wd_files w) st name p = (files', st', err)"
      using prod_cases3 by blast
    show thesis
    proof (cases err)
      case None
      with eq Some S p \<open>find (can_bind bindable a w) ps = Some p\<close>
      show thesis by (intro bound [of p]) auto
    next
      case (Some e)
      with eq \<open>wd_state w = Some st\<close> S p show thesis by (intro unpersisted [of p st e]) auto
    qed
  qed
qed

lemma saveLocked_no_errors:
  "\<not> (io_MkdirErr E \<or> io_CreateErr E \<or> io_WriteErr E \<or> io_SyncErr E \<or> io_CloseErr E \<or> io_RenameErr E) \<Longrightarrow>
     snd (saveLocked E files s) = None"
  by (simp add: saveLocked_def Let_def)

lemma SetPort_no_errors:
  assumes "\<not> (io_MkdirErr E \<or> io_CreateErr E \<or> io_WriteErr E \<or> io_SyncErr E \<or> io_CloseErr E \<or> io_RenameErr E)"
    and "SetPort E files s name port = (files', s', err)"
  shows "err = None"
  using assms(2)
proof (cases rule: SetPort_cases)
  case (2 s1)
  with saveLocked_no_errors [OF assms(1), of files "s1\<lparr>st_dirty := True\<rparr>"] show ?thesis by simp
qed

text \<open>C13: Allocation is complete and leaks nothing. It reports exhaustion exactly when
  neither the remembered, nor the preferred, nor any port of the range can be bound, and
  then changes nothing; it fails to persist only if a system call failed, and has then
  closed the listener again; otherwise it holds one new listener, on the first candidate
  that can be bound (remembered before preferred before the probe sequence), and the
  store remembers this port.\<close>

theorem Allocate_complete:
  assumes "1 \<le> al_min a" and "al_min a \<le> al_max a" and "wd_state w = Some st"
    and "Allocate E bindable a name preferred w = (w', r)"
  shows "case r of
      Inl (ErrPortExhausted lo hi) \<Rightarrow>
        w' = w \<and> (\<forall>p \<in> {al_min a..al_max a} \<union> ({Port st name, preferred} - {0}). \<not> can_bind bindable a w p)
    | Inl (PersistFailed e) \<Rightarrow>
        wd_listeners w' = wd_listeners w \<and>
        (io_MkdirErr E \<or> io_CreateErr E \<or> io_WriteErr E \<or> io_SyncErr E \<or> io_CloseErr E \<or> io_RenameErr E)
    | Inr al \<Rightarrow>
        find (can_bind bindable a w) (candidates a name (Port st name) preferred) = Some (an_Port al) \<and>
        an_Port al \<in> {al_min a..al_max a} \<union> ({Port st name, preferred} - {0}) \<and>
        an_Listener al = allocAddr (al_host a) (an_Port al) \<and>
        wd_listeners w' = an_Listener al # wd_listeners w \<and>
        remembered_port w' name = an_Port al"
proof -
  let ?cs = "candidates a name (Port st name) preferred"
  have r: "remembered_port w name = Port st name" by (simp add: remembered_port_def assms(3))
  have cs: "set ?cs = {al_min a..al_max a} \<union> ({Port st name, preferred} - {0})"
    using set_candidates [OF assms(2)] assms(1) by auto
  from assms(4) have "alloc_first E bindable a name ?cs w = (w', r)"
    by (simp only: Allocate_first r)
  then show ?thesis
  proof (cases rule: alloc_first_cases)
    case exhausted
    then show ?thesis using cs by simp
  next
    case (unpersisted p st' err)
    then show ?thesis using SetPort_no_errors by fastforce
  next
    case (bound p)
    then obtain st' where st': "wd_state w' = Some st'"
        and S: "SetPort E (wd_files w) st name p = (wd_files w', st', None)"
      using assms(3) by auto
    then have "remembered_port w' name = p"
      using SetPort_Port [OF S, of name] by (simp add: remembered_port_def)
    then show ?thesis using bound cs by simp
  qed
qed

lemma Port_sample [simp]: "Port sample_store name = 0"
  by (simp add: sample_store_def Port_def ports_of_def)

theorem Allocate_complete_witness:
  "snd (Allocate calm (\<lambda>_. False) (NewAllocator ''127.0.0.1'' 15000 15001) ''db'' 7 sample_world) =
     Inl (ErrPortExhausted 15000 15001)"
proof -
  let ?a = "NewAllocator ''127.0.0.1'' 15000 15001"
  obtain w' r where A: "Allocate calm (\<lambda>_. False) ?a ''db'' 7 sample_world = (w', r)" by fastforce
  have a: "1 \<le> al_min ?a" "al_min ?a \<le> al_max ?a" "wd_state sample_world = Some sample_store"
    by (simp_all add: NewAllocator_def sample_world_def)
  have "find (can_bind (\<lambda>_. False) ?a sample_world) ps = None" for ps
    by (simp add: find_None_all can_bind_def)
  then have "\<exists>lo hi. r = Inl (ErrPortExhausted lo hi)"
    using Allocate_complete [OF a A]
    by (auto simp: calm_def split: sum.splits alloc_error.splits)
  then show ?thesis using A
    by (auto simp: Allocate_first NewAllocator_def split: option.splits prod.splits sum.splits
        simp: alloc_try_not can_bind_def)
qed



end
