(* ===== verification/Runtime_Manager.thy ===== *)
theory Runtime_Manager
  imports Allocator Registry
begin

text \<open>
  \<open>internal/runtime/manager.go\<close>: the map from service names to the runtimes that own
  their frontend listeners. Each operation runs under the manager's mutex and is one
  function on the manager and the world (the disk, the store, the open listeners). What
  happens inside one runtime (the accept loop, the proxy workers, closing) is the
  subject of theory \<open>Service_Runtime\<close>.
\<close>

section \<open>Definitions\<close>

record ServiceRuntime =
  rt_Name :: string
  rt_Frontend :: Frontend
  rt_listener :: string

record RuntimeManager =
  rm_runtimes :: "(string, ServiceRuntime) gomap"
  rm_alloc :: Allocator

definition NewRuntimeManager :: "Allocator \<Rightarrow> RuntimeManager" where
  "NewRuntimeManager alloc = \<lparr>rm_runtimes = [], rm_alloc = alloc\<rparr>"

definition NewServiceRuntime :: "string \<Rightarrow> Frontend \<Rightarrow> string \<Rightarrow> ServiceRuntime" where
  "NewServiceRuntime name frontend ln = \<lparr>rt_Name = name, rt_Frontend = frontend, rt_listener = ln\<rparr>"

definition Runtime_Endpoint :: "ServiceRuntime \<Rightarrow> string" where
  "Runtime_Endpoint rt = Frontend_Addr (rt_Frontend rt)"

definition EnsureTCPRuntime ::
  "io_env \<Rightarrow> (string \<Rightarrow> bool) \<Rightarrow> string \<Rightarrow> int \<Rightarrow> RuntimeManager \<Rightarrow> world
     \<Rightarrow> RuntimeManager \<times> world \<times> (alloc_error, ServiceRuntime) result" where
  "EnsureTCPRuntime E bindable name preferred m w =
     (case mget (rm_runtimes m) name of
        Some rt \<Rightarrow> (m, w, Inr rt)
      | None \<Rightarrow>
          (case Allocate E bindable (rm_alloc m) name preferred w of
             (w', Inl err) \<Rightarrow> (m, w', Inl err)
           | (w', Inr alloc) \<Rightarrow>
               (let rt = NewServiceRuntime name
                           \<lparr>fe_Host = al_host (rm_alloc m), fe_Port = an_Port alloc, fe_URL = []\<rparr>
                           (an_Listener alloc) in
                (m\<lparr>rm_runtimes := mput name rt (rm_runtimes m)\<rparr>, w', Inr rt))))"

definition Runtime_Get :: "RuntimeManager \<Rightarrow> string \<Rightarrow> ServiceRuntime option" where
  "Runtime_Get m name = mget (rm_runtimes m) name"

definition close_listener :: "ServiceRuntime \<Rightarrow> world \<Rightarrow> world" where
  "close_listener rt w = w\<lparr>wd_listeners := net_Close (wd_listeners w) (rt_listener rt)\<rparr>"

definition RemoveRuntime :: "string \<Rightarrow> RuntimeManager \<Rightarrow> world \<Rightarrow> RuntimeManager \<times> world \<times> bool" where
  "RemoveRuntime name m w =
     (case mget (rm_runtimes m) name of
        None \<Rightarrow> (m, w, False)
      | Some rt \<Rightarrow> (m\<lparr>rm_runtimes := mdel name (rm_runtimes m)\<rparr>, close_listener rt w, True))"

definition Runtime_Shutdown :: "RuntimeManager \<Rightarrow> world \<Rightarrow> RuntimeManager \<times> world" where
  "Runtime_Shutdown m w =
     (let rts = map snd (rm_runtimes m);
          m' = m\<lparr>rm_runtimes := fold mdel (map fst (rm_runtimes m)) (rm_runtimes m)\<rparr> in
      (m', fold close_listener rts w))"

definition Names :: "RuntimeManager \<Rightarrow> string list" where
  "Names m = map fst (rm_runtimes m)"

subsection \<open>Invariant\<close>

text \<open>
  A runtime is stored under its name, its endpoint is the address of its listener, its
  listener is open, and no two runtimes share one.
\<close>

definition rt_ok :: "RuntimeManager \<Rightarrow> world \<Rightarrow> string \<Rightarrow> ServiceRuntime \<Rightarrow> bool" where
  "rt_ok m w name rt \<longleftrightarrow>
     rt_Name rt = name \<and> rt_listener rt = Runtime_Endpoint rt \<and>
     fe_Host (rt_Frontend rt) = al_host (rm_alloc m) \<and> fe_URL (rt_Frontend rt) = [] \<and>
     rt_listener rt \<in> set (wd_listeners w)"

definition rm_inv :: "RuntimeManager \<Rightarrow> world \<Rightarrow> bool" where
  "rm_inv m w \<longleftrightarrow> mwf (rm_runtimes m) \<and> distinct (wd_listeners w) \<and>
     list_all (\<lambda>(name, rt). rt_ok m w name rt) (rm_runtimes m) \<and>
     distinct (map (rt_listener \<circ> snd) (rm_runtimes m))"

subsection \<open>Histories of the manager\<close>

inductive rm_step :: "RuntimeManager \<times> world \<Rightarrow> RuntimeManager \<times> world \<Rightarrow> bool" where
  ensure: "EnsureTCPRuntime E bindable name preferred m w = (m', w', r) \<Longrightarrow> rm_step (m, w) (m', w')"
| remove: "RemoveRuntime name m w = (m', w', b) \<Longrightarrow> rm_step (m, w) (m', w')"
| shutdown: "Runtime_Shutdown m w = (m', w') \<Longrightarrow> rm_step (m, w) (m', w')"

definition rm_init :: "RuntimeManager \<times> world \<Rightarrow> bool" where
  "rm_init s \<longleftrightarrow> (\<exists>a. fst s = NewRuntimeManager a) \<and> distinct (wd_listeners (snd s))"

section \<open>Lemmas\<close>

lemma rm_inv_New: "distinct (wd_listeners w) \<Longrightarrow> rm_inv (NewRuntimeManager a) w"
  by (simp add: rm_inv_def NewRuntimeManager_def)

lemma Allocate_cases:
  assumes "Allocate E bindable a name preferred w = (w', r)"
  obtains (failed) e where "r = Inl e" "wd_listeners w' = wd_listeners w"
  | (bound) p where "r = Inr \<lparr>an_Port = p, an_Listener = allocAddr (al_host a) p\<rparr>"
      "can_bind bindable a w p" "wd_listeners w' = allocAddr (al_host a) p # wd_listeners w"
  using assms unfolding Allocate_first by (cases rule: alloc_first_cases) blast+

lemma EnsureTCPRuntime_cases:
  assumes "EnsureTCPRuntime E bindable name preferred m w = (m', w', r)"
  obtains (existing) rt where "mget (rm_runtimes m) name = Some rt" "m' = m" "w' = w" "r = Inr rt"
  | (failed) e where "mget (rm_runtimes m) name = None" "m' = m" "r = Inl e"
      "Allocate E bindable (rm_alloc m) name preferred w = (w', Inl e)"
      "wd_listeners w' = wd_listeners w"
  | (created) p rt where "mget (rm_runtimes m) name = None" "r = Inr rt"
      "m' = m\<lparr>rm_runtimes := mput name rt (rm_runtimes m)\<rparr>"
      "rt = \<lparr>rt_Name = name, rt_Frontend = \<lparr>fe_Host = al_host (rm_alloc m), fe_Port = p, fe_URL = []\<rparr>,
              rt_listener = allocAddr (al_host (rm_alloc m)) p\<rparr>"
      "can_bind bindable (rm_alloc m) w p"
      "Allocate E bindable (rm_alloc m) name preferred w =
         (w', Inr \<lparr>an_Port = p, an_Listener = allocAddr (al_host (rm_alloc m)) p\<rparr>)"
      "wd_listeners w' = rt_listener rt # wd_listeners w"
proof (cases "mget (rm_runtimes m) name")
  case (Some rt)
  with assms show thesis by (intro existing) (auto simp: EnsureTCPRuntime_def)
next
  case None
  obtain w1 r1 where A: "Allocate E bindable (rm_alloc m) name preferred w = (w1, r1)" by fastforce
  from A show thesis
  proof (cases rule: Allocate_cases)
    case (failed e)
    with assms None A show thesis
      by (intro that(2) [of e]) (auto simp: EnsureTCPRuntime_def)
  next
    case (bound p)
    with assms None A show thesis
      by (intro that(3) [of _ p]) (auto simp: EnsureTCPRuntime_def NewServiceRuntime_def Let_def)
  qed
qed

lemma rt_ok_mono:
  "rt_ok m w name rt \<Longrightarrow> rm_alloc m' = rm_alloc m \<Longrightarrow> set (wd_listeners w) \<subseteq> set (wd_listeners w') \<Longrightarrow>
     rt_ok m' w' name rt"
  by (auto simp: rt_ok_def)

lemma rm_inv_Ensure [wf_intros]:
  assumes "rm_inv m w" and "EnsureTCPRuntime E bindable name preferred m w = (m', w', r)"
  shows "rm_inv m' w'"
  using assms(2)
proof (cases rule: EnsureTCPRuntime_cases)
  case (existing rt)
  with assms(1) show ?thesis by simp
next
  case (failed e)
  with assms(1) show ?thesis by (auto simp: rm_inv_def rt_ok_def)
next
  case (created p rt)
  have new: "rt_listener rt \<notin> set (wd_listeners w)"
    using created(4,5) by (simp add: can_bind_def)
  have old: "list_all (\<lambda>(n, x). rt_ok m' w' n x) (rm_runtimes m)"
    using assms(1) created(3,7) by (auto simp: rm_inv_def list_all_iff intro: rt_ok_mono)
  have "rt_ok m' w' name rt"
    using created(3,4,7)
    by (simp add: rt_ok_def Runtime_Endpoint_def Frontend_Addr_def allocAddr_def)
  then have "list_all (\<lambda>(n, x). rt_ok m' w' n x) (rm_runtimes m')"
    using created(1,3) old by (simp add: mput_new)
  moreover have "rt_listener rt \<notin> (rt_listener \<circ> snd) ` set (rm_runtimes m)"
    using assms(1) new by (auto simp: rm_inv_def list_all_iff rt_ok_def)
  ultimately show ?thesis
    using assms(1) created(1,3,7) new mwf_mput [of "rm_runtimes m" name rt] by (auto simp: rm_inv_def mput_new)
qed

lemma rm_inv_Remove [wf_intros]:
  assumes "rm_inv m w" and "RemoveRuntime name m w = (m', w', b)"
  shows "rm_inv m' w'"
proof (cases "mget (rm_runtimes m) name")
  case None
  with assms show ?thesis by (simp add: RemoveRuntime_def)
next
  case (Some rt)
  then have m': "m' = m\<lparr>rm_runtimes := mdel name (rm_runtimes m)\<rparr>"
    and w': "wd_listeners w' = removeAll (rt_listener rt) (wd_listeners w)"
    using assms(2) by (auto simp: RemoveRuntime_def close_listener_def net_Close_def)
  have d: "distinct (map (rt_listener \<circ> snd) (rm_runtimes m))" using assms(1) by (simp add: rm_inv_def)
  have "rt_listener x \<noteq> rt_listener rt" if "(n, x) \<in> set (rm_runtimes m)" "n \<noteq> name" for n x
    using distinct_map_in_eq [OF d that(1) mget_in [OF Some]] that(2) by auto
  then have "list_all (\<lambda>(n, x). rt_ok m' w' n x) (rm_runtimes m')"
    using assms(1) m' w' by (auto simp: rm_inv_def list_all_iff rt_ok_def mdel_filter)
  moreover have "distinct (map (rt_listener \<circ> snd) (rm_runtimes m'))"
    using d m' by (simp add: mdel_filter distinct_map_filter)
  ultimately show ?thesis using assms(1) m' w' by (simp add: rm_inv_def distinct_removeAll)
qed

lemma fold_mdel_all: "fold mdel ks m = filter (\<lambda>(k, _). k \<notin> set ks) m"
  by (induction ks arbitrary: m) (auto simp: mdel_filter intro: filter_cong)

lemma fold_close: "wd_listeners (fold close_listener rts w) = filter (\<lambda>l. l \<notin> rt_listener ` set rts) (wd_listeners w)"
  by (induction rts arbitrary: w)
     (auto simp: close_listener_def net_Close_def removeAll_filter_not_eq intro: filter_cong)

lemma Shutdown_closes:
  assumes "Runtime_Shutdown m w = (m', w')"
  shows "rm_runtimes m' = []"
    and "set (wd_listeners w') = set (wd_listeners w) - rt_listener ` set (map snd (rm_runtimes m))"
proof -
  have "rm_runtimes m' = fold mdel (map fst (rm_runtimes m)) (rm_runtimes m)"
    using assms by (auto simp: Runtime_Shutdown_def Let_def)
  then show "rm_runtimes m' = []"
    by (auto simp: fold_mdel_all filter_empty_conv) (metis fst_conv image_eqI)
  have "w' = fold close_listener (map snd (rm_runtimes m)) w"
    using assms by (auto simp: Runtime_Shutdown_def Let_def)
  then show "set (wd_listeners w') = set (wd_listeners w) - rt_listener ` set (map snd (rm_runtimes m))"
    by (auto simp: fold_close)
qed

lemma Ensure_idempotent:
  assumes "EnsureTCPRuntime E bindable name preferred m w = (m', w', Inr rt)"
  shows "EnsureTCPRuntime E2 bindable2 name preferred2 m' w'' = (m', w'', Inr rt)"
  using assms by (cases rule: EnsureTCPRuntime_cases) (auto simp: EnsureTCPRuntime_def)

lemma Ensure_Get:
  assumes "EnsureTCPRuntime E bindable name preferred m w = (m', w', r)"
  shows "Runtime_Get m' n = (if n = name then (case r of Inl _ \<Rightarrow> None | Inr rt \<Rightarrow> Some rt) else Runtime_Get m n)"
  using assms by (cases rule: EnsureTCPRuntime_cases) (auto simp: Runtime_Get_def)

lemma rm_inv_Shutdown [wf_intros]:
  assumes "rm_inv m w" and "Runtime_Shutdown m w = (m', w')"
  shows "rm_inv m' w'"
proof -
  have "distinct (wd_listeners w')"
    using assms by (auto simp: Runtime_Shutdown_def Let_def fold_close rm_inv_def)
  then show ?thesis using Shutdown_closes(1) [OF assms(2)] by (simp add: rm_inv_def)
qed

text \<open>The usual case: nothing is remembered and the preferred port is free.\<close>

lemma Allocate_preferred:
  assumes "remembered_port w name = 0" "preferred \<noteq> 0" "can_bind bindable a w preferred"
    and "\<not> (io_MkdirErr E \<or> io_CreateErr E \<or> io_WriteErr E \<or> io_SyncErr E \<or> io_CloseErr E \<or> io_RenameErr E)"
  shows "\<exists>w'. Allocate E bindable a name preferred w =
      (w', Inr \<lparr>an_Port = preferred, an_Listener = allocAddr (al_host a) preferred\<rparr>) \<and>
    wd_listeners w' = allocAddr (al_host a) preferred # wd_listeners w \<and>
    (\<forall>n. n \<noteq> name \<longrightarrow> remembered_port w' n = remembered_port w n)"
proof (cases "wd_state w")
  case None
  with assms show ?thesis
    by (simp add: Allocate_first candidates_def alloc_try_bound remembered_port_def)
next
  case (Some st)
  obtain files' st' err where S: "SetPort E (wd_files w) st name preferred = (files', st', err)"
    using prod_cases3 by blast
  have "err = None" using SetPort_no_errors [OF assms(4) S] .
  with assms Some S SetPort_Port [OF S] show ?thesis
    by (simp add: Allocate_first candidates_def alloc_try_bound remembered_port_def)
qed

lemma Ensure_preferred:
  assumes "mget (rm_runtimes m) name = None" "remembered_port w name = 0" "preferred \<noteq> 0"
    and "can_bind bindable (rm_alloc m) w preferred"
    and "\<not> (io_MkdirErr E \<or> io_CreateErr E \<or> io_WriteErr E \<or> io_SyncErr E \<or> io_CloseErr E \<or> io_RenameErr E)"
  shows "\<exists>w' rt. EnsureTCPRuntime E bindable name preferred m w =
      (m\<lparr>rm_runtimes := mput name rt (rm_runtimes m)\<rparr>, w', Inr rt) \<and>
    rt_Frontend rt = \<lparr>fe_Host = al_host (rm_alloc m), fe_Port = preferred, fe_URL = []\<rparr> \<and>
    wd_listeners w' = allocAddr (al_host (rm_alloc m)) preferred # wd_listeners w \<and>
    (\<forall>n. n \<noteq> name \<longrightarrow> remembered_port w' n = remembered_port w n)"
  using Allocate_preferred [OF assms(2-5)] assms(1)
  by (auto simp: EnsureTCPRuntime_def NewServiceRuntime_def Let_def)

interpretation runtimes: inv_system rm_init rm_step "\<lambda>s. rm_inv (fst s) (snd s)"
proof unfold_locales
  fix s :: "RuntimeManager \<times> world"
  assume "rm_init s"
  then show "rm_inv (fst s) (snd s)" using rm_inv_New by (auto simp: rm_init_def)
next
  fix s t :: "RuntimeManager \<times> world"
  assume inv: "rm_inv (fst s) (snd s)" and "rm_step s t"
  from this(2) show "rm_inv (fst t) (snd t)"
    by cases (use inv in \<open>auto intro: wf_intros\<close>)
qed

lemma rm_inv_get: "rm_inv m w \<Longrightarrow> Runtime_Get m n = Some rt \<Longrightarrow> rt_ok m w n rt"
  using mget_in unfolding rm_inv_def Runtime_Get_def list_all_iff by fast

lemma rm_inv_distinct:
  assumes "rm_inv m w" "Runtime_Get m n1 = Some rt1" "Runtime_Get m n2 = Some rt2" "n1 \<noteq> n2"
  shows "rt_listener rt1 \<noteq> rt_listener rt2"
  using distinct_map_in_eq [of "rt_listener \<circ> snd" "rm_runtimes m" "(n1, rt1)" "(n2, rt2)"] assms mget_in
  unfolding rm_inv_def Runtime_Get_def by fastforce

text \<open>C12: Frontend listeners are exclusive. In every reachable state of the runtime
  manager, each runtime's listener is open on its published endpoint, different services
  have different frontend ports, and no endpoint is bound twice.\<close>

theorem frontends_exclusive:
  assumes "reach rm_init rm_step (m, w)"
    and "Runtime_Get m n1 = Some rt1" and "Runtime_Get m n2 = Some rt2" and "n1 \<noteq> n2"
  shows "fe_Port (rt_Frontend rt1) \<noteq> fe_Port (rt_Frontend rt2) \<and>
    Runtime_Endpoint rt1 \<noteq> Runtime_Endpoint rt2 \<and>
    Runtime_Endpoint rt1 = rt_listener rt1 \<and>
    count_list (wd_listeners w) (Runtime_Endpoint rt1) = 1"
proof -
  have inv: "rm_inv m w" using runtimes.reach_inv [OF assms(1)] by simp
  have "rt_listener rt1 \<noteq> rt_listener rt2" using rm_inv_distinct [OF inv assms(2-4)] .
  moreover have "rt_ok m w n1 rt1" "rt_ok m w n2 rt2" using rm_inv_get [OF inv] assms(2,3) by blast+
  moreover have "distinct (wd_listeners w)" using inv by (simp add: rm_inv_def)
  ultimately show ?thesis
    by (auto simp: rt_ok_def Runtime_Endpoint_def Frontend_Addr_def count_list_distinct)
qed

theorem frontends_exclusive_witness:
  "\<exists>m w rt1 rt2. reach rm_init rm_step (m, w) \<and>
     Runtime_Get m ''a'' = Some rt1 \<and> Runtime_Get m ''b'' = Some rt2 \<and>
     fe_Port (rt_Frontend rt1) \<noteq> fe_Port (rt_Frontend rt2)"
proof -
  let ?m0 = "NewRuntimeManager (NewAllocator ''127.0.0.1'' 15000 19999)"
  have 0: "reach rm_init rm_step (?m0, sample_world)"
    by (intro reach_init) (auto simp: rm_init_def sample_world_def)
  have ok: "\<not> (io_MkdirErr calm \<or> io_CreateErr calm \<or> io_WriteErr calm \<or> io_SyncErr calm \<or> io_CloseErr calm \<or> io_RenameErr calm)"
    by (simp add: calm_def)
  have "mget (rm_runtimes ?m0) ''a'' = None" "remembered_port sample_world ''a'' = 0" "(16000 :: int) \<noteq> 0"
    "can_bind (\<lambda>_. True) (rm_alloc ?m0) sample_world 16000"
    by (simp_all add: NewRuntimeManager_def remembered_port_def sample_world_def can_bind_def)
  from Ensure_preferred [OF this ok] obtain w1 rt1
    where e1: "EnsureTCPRuntime calm (\<lambda>_. True) ''a'' 16000 ?m0 sample_world =
        (?m0\<lparr>rm_runtimes := mput ''a'' rt1 (rm_runtimes ?m0)\<rparr>, w1, Inr rt1)"
      and l1: "wd_listeners w1 = [allocAddr ''127.0.0.1'' 16000]" and r1: "remembered_port w1 ''b'' = 0"
    by (auto simp: NewRuntimeManager_def NewAllocator_def sample_world_def remembered_port_def)
  let ?m1 = "?m0\<lparr>rm_runtimes := mput ''a'' rt1 (rm_runtimes ?m0)\<rparr>"
  have ne: "allocAddr ''127.0.0.1'' 16001 \<noteq> allocAddr ''127.0.0.1'' 16000"
    by (simp add: allocAddr_def JoinHostPort_def Itoa_inj)
  have "mget (rm_runtimes ?m1) ''b'' = None" "(16001 :: int) \<noteq> 0"
    "can_bind (\<lambda>_. True) (rm_alloc ?m1) w1 16001"
    using ne by (simp_all add: NewRuntimeManager_def NewAllocator_def can_bind_def l1)
  from Ensure_preferred [OF this(1) r1 this(2,3) ok] obtain w2 rt2
    where e2: "EnsureTCPRuntime calm (\<lambda>_. True) ''b'' 16001 ?m1 w1 =
        (?m1\<lparr>rm_runtimes := mput ''b'' rt2 (rm_runtimes ?m1)\<rparr>, w2, Inr rt2)"
    by auto
  let ?m2 = "?m1\<lparr>rm_runtimes := mput ''b'' rt2 (rm_runtimes ?m1)\<rparr>"
  have "reach rm_init rm_step (?m2, w2)"
    using 0 e1 e2 by (meson reach_step rm_step.ensure)
  moreover have "Runtime_Get ?m2 ''a'' = Some rt1" "Runtime_Get ?m2 ''b'' = Some rt2" "''a'' \<noteq> ''b''"
    by (simp_all add: Runtime_Get_def)
  ultimately show ?thesis using frontends_exclusive [of ?m2 w2 "''a''" rt1 "''b''" rt2] by blast
qed

end
