(* ===== verification/Daemon.thy ===== *)
theory Daemon
  imports Config Lease Proxy Runtime_Manager
begin

text \<open>
  \<open>internal/daemon\<close>: the daemon ties the registry, the leases, the frontend runtimes and
  the HTTP router together. \<open>Register\<close> and \<open>endPublication\<close> run under the daemon's
  \<open>mutate\<close> mutex and are one function each; operations that take several locks in turn
  (\<open>DeleteRegistration\<close>, \<open>sweepLeases\<close>) are given here as they run without interference,
  and step by step in theory \<open>Daemon_Events\<close>. What a call reads from outside (clocks,
  random bytes, the resolver, the disk, the operating system's sockets) is in \<open>reg_env\<close>
  and \<open>new_env\<close>. An error is its stable code; messages are not modelled. Every operation
  returns the state it leaves, on the error branches too.
\<close>

section \<open>Definitions\<close>

subsection \<open>Error codes (errors.go) and identifiers (id.go)\<close>

type_synonym code = string

abbreviation (input) CodeInvalidRequest :: code where "CodeInvalidRequest \<equiv> ''invalid_request''"
abbreviation (input) CodeInvalidName :: code where "CodeInvalidName \<equiv> ''invalid_name''"
abbreviation (input) CodeInvalidBackend :: code where "CodeInvalidBackend \<equiv> ''invalid_backend''"
abbreviation (input) CodeNameConflict :: code where "CodeNameConflict \<equiv> ''name_conflict''"
abbreviation (input) CodePortExhausted :: code where "CodePortExhausted \<equiv> ''port_exhausted''"
abbreviation (input) CodeRegistrationNotFound :: code where "CodeRegistrationNotFound \<equiv> ''registration_not_found''"
abbreviation (input) CodeUnauthorized :: code where "CodeUnauthorized \<equiv> ''unauthorized''"
abbreviation (input) CodeServiceNotFound :: code where "CodeServiceNotFound \<equiv> ''service_not_found''"
abbreviation (input) CodeUnsupportedKind :: code where "CodeUnsupportedKind \<equiv> ''unsupported_kind''"
abbreviation (input) CodeDockerUnavailable :: code where "CodeDockerUnavailable \<equiv> ''docker_unavailable''"
abbreviation (input) CodeInternal :: code where "CodeInternal \<equiv> ''internal_error''"

definition base36_digit :: "nat \<Rightarrow> char" where
  "base36_digit d = (if d < 10 then char_of (48 + d) else char_of (55 + d))"

fun base36 :: "nat \<Rightarrow> string" where
  "base36 n = (if n < 36 then [base36_digit n] else base36 (n div 36) @ [base36_digit (n mod 36)])"

definition byte_bits :: "char \<Rightarrow> bool list" where
  "byte_bits c = map (\<lambda>i. bit (byte c) (7 - i)) [0..<8]"

fun bits_val :: "bool list \<Rightarrow> nat" where
  "bits_val [] = 0"
| "bits_val (b # bs) = (if b then 2 ^ length bs else 0) + bits_val bs"

definition base32_digit :: "nat \<Rightarrow> char" where
  "base32_digit d = (if d < 26 then char_of (65 + d) else char_of (24 + d))"

fun base32_bits :: "bool list \<Rightarrow> string" where
  "base32_bits (a # b # c # d # e # bs) = base32_digit (bits_val [a, b, c, d, e]) # base32_bits bs"
| "base32_bits [] = []"
| "base32_bits bs = [base32_digit (bits_val (take 5 (bs @ replicate 5 False)))]"

text \<open>\<open>ms\<close> is \<open>time.Now().UnixMilli()\<close>, \<open>buf\<close> the random bytes; the digits are upper case.\<close>

definition newID :: "nat \<Rightarrow> string \<Rightarrow> string" where
  "newID ms buf = base36 ms @ base32_bits (concat (map byte_bits buf))"

subsection \<open>State\<close>

record Daemon =
  dm_cfg :: Config
  dm_Registry :: Registry
  dm_Runtime :: RuntimeManager
  dm_Lease :: LeaseManager
  dm_world :: world           \<comment> \<open>\<open>State\<close>, the disk and the open listeners\<close>
  dm_HTTP :: "string Router"  \<comment> \<open>a provider closure captures the service name\<close>
  dm_dockerStatus :: string
  dm_tlsCert :: bool
  dm_httpListener :: "string option"
  dm_httpsListener :: "string option"
  dm_startedAt :: gotime
  dm_started :: bool          \<comment> \<open>\<open>cancel\<close> is set\<close>

record reg_env =
  re_go :: go_env
  re_io :: io_env
  re_bindable :: "string \<Rightarrow> bool"
  re_now :: gotime            \<comment> \<open>\<open>time.Now()\<close> for the record\<close>
  re_lease_now :: gotime      \<comment> \<open>\<open>time.Now()\<close> in \<open>AddWithTTL\<close>\<close>
  re_ms :: nat
  re_id_bytes :: string
  re_token_bytes :: "string option"

record RegisterParams =
  rp_Name :: string
  rp_Kind :: Kind
  rp_AppProtocol :: string
  rp_Backend :: Backend
  rp_PreferredPort :: int
  rp_TTLSeconds :: int
  rp_Source :: Source
  rp_OwnerKey :: string
  rp_RegistrationID :: string
  rp_DockerContainerID :: string
  rp_HTTPHost :: string

record RegisterResult =
  rr_RegistrationID :: string
  rr_LeaseToken :: string
  rr_Name :: string
  rr_Frontend :: Frontend
  rr_ExpiresAt :: "gotime option"
  rr_TTLSeconds :: int

subsection \<open>Backend providers\<close>

text \<open>The provider of the TCP runtimes and the one of the HTTP routes.\<close>

definition tcp_provider :: "Registry \<Rightarrow> string \<Rightarrow> Backend option" where
  "tcp_provider r name =
     (case Registry_Resolve r name of
        None \<Rightarrow> None
      | Some rec \<Rightarrow>
          if sr_Status rec \<noteq> StatusReady \<or> sr_Backend rec = None then None else sr_Backend rec)"

definition http_provider :: "Registry \<Rightarrow> string \<Rightarrow> Backend option" where
  "http_provider r name =
     (case Registry_Resolve r name of
        None \<Rightarrow> None
      | Some rec \<Rightarrow> if sr_Status rec \<noteq> StatusReady then None else sr_Backend rec)"

subsection \<open>Starting (New, bindProxyListeners, loadTLS)\<close>

datatype new_error =
    ConfigInvalid config_error
  | StateFailed state_error
  | TLSIncomplete
  | TLSLoadFailed
  | BadListenerAddr string
  | BindHTTPFailed
  | BindHTTPSFailed

record new_env =
  ne_io :: io_env
  ne_bindable :: "string \<Rightarrow> bool"
  ne_UserConfigDir :: "string option"
  ne_UserHomeDir :: "string option"
  ne_KeyPairOk :: bool        \<comment> \<open>\<open>tls.LoadX509KeyPair\<close> succeeds\<close>
  ne_now :: gotime

definition listenerPort :: "string \<Rightarrow> int option" where
  "listenerPort addr = (case SplitHostPort addr of None \<Rightarrow> None | Some (_, rawPort) \<Rightarrow> Atoi rawPort)"

definition loadTLS :: "new_env \<Rightarrow> HTTPConfig \<Rightarrow> (new_error, bool) result" where
  "loadTLS N cfg =
     (if hc_CertFile cfg = [] \<and> hc_KeyFile cfg = [] then Inr False
      else if hc_CertFile cfg = [] \<or> hc_KeyFile cfg = [] then Inl TLSIncomplete
      else if ne_KeyPairOk N then Inr True else Inl TLSLoadFailed)"

definition bindProxyListeners :: "(string \<Rightarrow> bool) \<Rightarrow> Daemon \<Rightarrow> Daemon \<times> new_error option" where
  "bindProxyListeners bindable d =
     (let cfg = cf_HTTP (dm_cfg d); w = dm_world d;
          bound = (if hc_Enabled cfg then
              (case net_Listen bindable (wd_listeners w) (hc_HTTPAddr cfg) of
                 None \<Rightarrow> (d, Some BindHTTPFailed)
               | Some lns \<Rightarrow> (d\<lparr>dm_world := w\<lparr>wd_listeners := lns\<rparr>, dm_httpListener := Some (hc_HTTPAddr cfg)\<rparr>, None))
            else (d, None)) in
      case bound of
        (d1, Some err) \<Rightarrow> (d1, Some err)
      | (d1, None) \<Rightarrow>
          if dm_tlsCert d1 then
            (let w1 = dm_world d1 in
             case net_Listen bindable (wd_listeners w1) (hc_HTTPSAddr cfg) of
               None \<Rightarrow>
                 ((case dm_httpListener d1 of
                     None \<Rightarrow> d1
                   | Some ln \<Rightarrow>
                       d1\<lparr>dm_world := w1\<lparr>wd_listeners := net_Close (wd_listeners w1) ln\<rparr>, dm_httpListener := None\<rparr>),
                  Some BindHTTPSFailed)
             | Some lns \<Rightarrow>
                 (d1\<lparr>dm_world := w1\<lparr>wd_listeners := lns\<rparr>, dm_httpsListener := Some (hc_HTTPSAddr cfg)\<rparr>, None))
          else (d1, None))"

text \<open>Besides the result, the disk and the listeners that \<open>New\<close> leaves.\<close>

definition Daemon_New :: "new_env \<Rightarrow> Config \<Rightarrow> fs \<Rightarrow> string list \<Rightarrow> fs \<times> string list \<times> (new_error, Daemon) result" where
  "Daemon_New N cfg0 files lns =
     (case Config_Validate cfg0 of
        Some err \<Rightarrow> (files, lns, Inl (ConfigInvalid err))
      | None \<Rightarrow>
          (let cfg = (if cf_StatePath cfg0 = []
                      then cfg0\<lparr>cf_StatePath := DefaultStatePath (ne_UserConfigDir N) (ne_UserHomeDir N)\<rparr> else cfg0) in
           case Load (ne_io N) files (cf_StatePath cfg) of
             (files', Inl err) \<Rightarrow> (files', lns, Inl (StateFailed err))
           | (files', Inr st) \<Rightarrow>
               (case loadTLS N (cf_HTTP cfg) of
                  Inl err \<Rightarrow> (files', lns, Inl err)
                | Inr cert \<Rightarrow>
                    (let (scheme, addr) = (if cert then (''https'', hc_HTTPSAddr (cf_HTTP cfg))
                                           else (''http'', hc_HTTPAddr (cf_HTTP cfg))) in
                     case listenerPort addr of
                       None \<Rightarrow> (files', lns, Inl (BadListenerAddr addr))
                     | Some port \<Rightarrow>
                         (let alloc = NewAllocator (cf_TCPFrontendHost cfg) (cf_TCPFrontendMin cfg) (cf_TCPFrontendMax cfg);
                              d = \<lparr>dm_cfg = cfg, dm_Registry = NewRegistry, dm_Runtime = NewRuntimeManager alloc,
                                   dm_Lease = NewLeaseManager (cf_LeaseTTL cfg),
                                   dm_world = \<lparr>wd_files = files', wd_state = Some st, wd_listeners = lns\<rparr>,
                                   dm_HTTP = NewRouter scheme port,
                                   dm_dockerStatus = (if dk_Enabled (cf_Docker cfg) then ''degraded'' else ''disabled''),
                                   dm_tlsCert = cert, dm_httpListener = None, dm_httpsListener = None,
                                   dm_startedAt = ne_now N, dm_started = False\<rparr> in
                          case bindProxyListeners (ne_bindable N) d of
                            (d', Some err) \<Rightarrow> (files', wd_listeners (dm_world d'), Inl err)
                          | (d', None) \<Rightarrow> (files', wd_listeners (dm_world d'), Inr d'))))))"

subsection \<open>Registration\<close>

definition canonicalHTTPHost :: "go_env \<Rightarrow> string \<Rightarrow> string option" where
  "canonicalHTTPHost G raw =
     (let host = TrimSuffix (ToLower G (TrimSpace raw)) ''.'' in
      if host = [] then None
      else if ContainsAny host '':/@'' then None
      else Some host)"

definition frontendLabel :: "Frontend \<Rightarrow> string" where
  "frontendLabel f = (if fe_URL f \<noteq> [] then fe_URL f else Frontend_Addr f)"

definition reg_ttl :: "Config \<Rightarrow> Source \<Rightarrow> int \<Rightarrow> duration" where
  "reg_ttl cfg source secs =
     (if source \<noteq> SourceDocker \<and> secs > 0 then wrap64 (secs * Second) else cf_LeaseTTL cfg)"

definition reg_hostname :: "go_env \<Rightarrow> Kind \<Rightarrow> string \<Rightarrow> string option" where
  "reg_hostname G kind raw = (if kind = KindHTTP then canonicalHTTPHost G raw else Some [])"

definition reg_conflict :: "Registry \<Rightarrow> string \<Rightarrow> Kind \<Rightarrow> string \<Rightarrow> bool" where
  "reg_conflict r name kind hostname \<longleftrightarrow>
     (case Registry_Resolve r name of
        Some existing \<Rightarrow>
          sr_Kind existing \<noteq> kind \<or> (kind = KindHTTP \<and> sr_Hostname existing \<noteq> hostname)
      | None \<Rightarrow> False) \<or>
     (kind = KindHTTP \<and>
      (case FindByHostname r hostname of Some existing \<Rightarrow> sr_Name existing \<noteq> name | None \<Rightarrow> False))"

definition reg_retire :: "string \<Rightarrow> string \<Rightarrow> string \<Rightarrow> Daemon \<Rightarrow> Daemon" where
  "reg_retire name ownerKey producerID d =
     (case Registry_Resolve (dm_Registry d) name of
        Some existing \<Rightarrow>
          if sr_OwnerKey existing = ownerKey \<and> sr_ProducerID existing \<noteq> producerID \<and>
             (sr_Source existing = SourceProcess \<or> sr_Source existing = SourceManual)
          then d\<lparr>dm_Lease := Lease_Remove (dm_Lease d) (sr_ProducerID existing)\<rparr>
          else d
      | None \<Rightarrow> d)"

definition reg_frontend :: "reg_env \<Rightarrow> RegisterParams \<Rightarrow> Kind \<Rightarrow> string \<Rightarrow> Daemon \<Rightarrow> Daemon \<times> (code, Frontend) result" where
  "reg_frontend R p kind hostname d =
     (if kind = KindHTTP
      then (d, Inr \<lparr>fe_Host = [], fe_Port = 0, fe_URL = FrontendURL (re_go R) (dm_HTTP d) hostname\<rparr>)
      else
        (case EnsureTCPRuntime (re_io R) (re_bindable R) (rp_Name p) (rp_PreferredPort p) (dm_Runtime d) (dm_world d) of
           (m, w, Inl (ErrPortExhausted _ _)) \<Rightarrow> (d\<lparr>dm_Runtime := m, dm_world := w\<rparr>, Inl CodePortExhausted)
         | (m, w, Inl (PersistFailed _)) \<Rightarrow> (d\<lparr>dm_Runtime := m, dm_world := w\<rparr>, Inl CodeInternal)
         | (m, w, Inr rt) \<Rightarrow> (d\<lparr>dm_Runtime := m, dm_world := w\<rparr>, Inr (rt_Frontend rt))))"

definition reg_record :: "reg_env \<Rightarrow> RegisterParams \<Rightarrow> Kind \<Rightarrow> Source \<Rightarrow> string \<Rightarrow> string \<Rightarrow> string \<Rightarrow> Frontend \<Rightarrow> ServiceRecord" where
  "reg_record R p kind source hostname ownerKey producerID frontend =
     \<lparr>sr_Name = rp_Name p, sr_Kind = kind, sr_AppProtocol = rp_AppProtocol p, sr_OwnerKey = ownerKey,
      sr_ProducerID = producerID, sr_Source = source, sr_Backend = Some (rp_Backend p),
      sr_Frontend = frontend, sr_Hostname = (if kind = KindHTTP then hostname else []),
      sr_Status = StatusReady, sr_DockerContainerID = rp_DockerContainerID p, sr_UpdatedAt = re_now R\<rparr>"

definition reg_install ::
  "reg_env \<Rightarrow> RegisterParams \<Rightarrow> Kind \<Rightarrow> Source \<Rightarrow> duration \<Rightarrow> string \<Rightarrow> string \<Rightarrow> string \<Rightarrow> string \<Rightarrow> Daemon
     \<Rightarrow> Daemon \<times> (code, RegisterResult) result" where
  "reg_install R p kind source ttl hostname regID ownerKey producerID d =
     (case reg_frontend R p kind hostname d of
        (d1, Inl err) \<Rightarrow> (d1, Inl err)
      | (d1, Inr frontend) \<Rightarrow>
          (let rec = reg_record R p kind source hostname ownerKey producerID frontend in
           case CreateOrReplaceOwned (re_now R) (dm_Registry d1) rec of
             (_, Inl _) \<Rightarrow> (d1, Inl CodeNameConflict)
           | (r', Inr _) \<Rightarrow>
               (let d2 = d1\<lparr>dm_Registry := r'\<rparr>;
                    d3 = (if kind = KindHTTP
                          then d2\<lparr>dm_HTTP := Router_Set (re_go R) (sr_Hostname rec) (rp_Name p) (dm_HTTP d2)\<rparr> else d2);
                    res = \<lparr>rr_RegistrationID = regID, rr_LeaseToken = [], rr_Name = rp_Name p,
                           rr_Frontend = frontend, rr_ExpiresAt = None, rr_TTLSeconds = 0\<rparr> in
                if source = SourceDocker then (d3, Inr res)
                else
                  (case NewToken (re_token_bytes R) of
                     None \<Rightarrow> (d3, Inl CodeInternal)
                   | Some token \<Rightarrow>
                       (let (l, entry) = AddWithTTL (re_lease_now R) (dm_Lease d3) regID (rp_Name p) ownerKey token ttl in
                        (d3\<lparr>dm_Lease := l\<rparr>,
                         Inr (res\<lparr>rr_LeaseToken := token, rr_ExpiresAt := Some (le_ExpiresAt entry),
                                  rr_TTLSeconds := ttl div Second\<rparr>)))))))"

definition registerLocked :: "reg_env \<Rightarrow> RegisterParams \<Rightarrow> Daemon \<Rightarrow> Daemon \<times> (code, RegisterResult) result" where
  "registerLocked R p d =
     (if ValidateName (rp_Name p) \<noteq> None then (d, Inl CodeInvalidName)
      else
        (let kind = (if rp_Kind p = [] then KindTCP else rp_Kind p) in
         if kind \<noteq> KindTCP \<and> kind \<noteq> KindHTTP then (d, Inl CodeUnsupportedKind)
         else if ValidateBackend (re_go R) (rp_Backend p) \<noteq> None then (d, Inl CodeInvalidBackend)
         else
           (let source = (if rp_Source p = [] then SourceProcess else rp_Source p);
                ttl = reg_ttl (dm_cfg d) source (rp_TTLSeconds p) in
            if source \<noteq> SourceDocker \<and> (ttl < MinLeaseTTL \<or> ttl > MaxLeaseTTL) then (d, Inl CodeInvalidRequest)
            else
              (case reg_hostname (re_go R) kind (rp_HTTPHost p) of
                 None \<Rightarrow> (d, Inl CodeInvalidRequest)
               | Some hostname \<Rightarrow>
                   if reg_conflict (dm_Registry d) (rp_Name p) kind hostname then (d, Inl CodeNameConflict)
                   else
                     (let regID = (if rp_RegistrationID p = [] then newID (re_ms R) (re_id_bytes R) else rp_RegistrationID p);
                          ownerKey = (if rp_OwnerKey p = [] then source @ '':'' @ regID else rp_OwnerKey p) in
                      if source = SourceDocker \<and> rp_DockerContainerID p = [] then (d, Inl CodeInvalidRequest)
                      else
                        (let producerID = (if source = SourceDocker then rp_DockerContainerID p else regID) in
                         if CheckOwnership (dm_Registry d) (rp_Name p) ownerKey \<noteq> None then (d, Inl CodeNameConflict)
                         else reg_install R p kind source ttl hostname regID ownerKey producerID
                                (reg_retire (rp_Name p) ownerKey producerID d)))))))"

definition Register :: "reg_env \<Rightarrow> RegisterParams \<Rightarrow> Daemon \<Rightarrow> Daemon \<times> (code, RegisterResult) result" where
  "Register R p d = registerLocked R p d"

subsection \<open>Heartbeats, removal and expiry\<close>

definition Heartbeat :: "gotime \<Rightarrow> string \<Rightarrow> string \<Rightarrow> Daemon \<Rightarrow> Daemon \<times> (code, gotime) result" where
  "Heartbeat now rid token d =
     (case Renew now (dm_Lease d) rid token of
        (l, Inl LeaseNotFound) \<Rightarrow> (d\<lparr>dm_Lease := l\<rparr>, Inl CodeRegistrationNotFound)
      | (l, Inl LeaseUnauthorized) \<Rightarrow> (d\<lparr>dm_Lease := l\<rparr>, Inl CodeUnauthorized)
      | (l, Inr exp) \<Rightarrow> (d\<lparr>dm_Lease := l\<rparr>, Inr exp))"

definition endPublication :: "gotime \<Rightarrow> string \<Rightarrow> string \<Rightarrow> Daemon \<Rightarrow> Daemon \<times> bool" where
  "endPublication now name producerID d =
     (case ClearBackendIf now (dm_Registry d) name producerID of
        (r, ok) \<Rightarrow> (d\<lparr>dm_Registry := r\<rparr>, ok))"

definition DeleteRegistration :: "gotime \<Rightarrow> string \<Rightarrow> string \<Rightarrow> Daemon \<Rightarrow> Daemon \<times> code option" where
  "DeleteRegistration now rid token d =
     (case Lease_Get (dm_Lease d) rid of
        None \<Rightarrow> (d, Some CodeRegistrationNotFound)
      | Some e \<Rightarrow>
          (case Lease_Delete (dm_Lease d) rid token of
             (l, Some LeaseUnauthorized) \<Rightarrow> (d\<lparr>dm_Lease := l\<rparr>, Some CodeUnauthorized)
           | (l, Some LeaseNotFound) \<Rightarrow> (d\<lparr>dm_Lease := l\<rparr>, Some CodeRegistrationNotFound)
           | (l, None) \<Rightarrow>
               (fst (endPublication now (le_Name e) (le_RegistrationID e) (d\<lparr>dm_Lease := l\<rparr>)), None)))"

definition sweepLeases :: "gotime \<Rightarrow> gotime \<Rightarrow> Daemon \<Rightarrow> Daemon" where
  "sweepLeases now clear_now d =
     (case TakeExpired now (dm_Lease d) of
        (l, out) \<Rightarrow>
          fold (\<lambda>e d. fst (endPublication clear_now (le_Name e) (le_RegistrationID e) d)) out (d\<lparr>dm_Lease := l\<rparr>))"

definition ForgetDockerPublication :: "gotime \<Rightarrow> string \<Rightarrow> string \<Rightarrow> string \<Rightarrow> Daemon \<Rightarrow> Daemon" where
  "ForgetDockerPublication now name ownerKey containerID d = fst (endPublication now name containerID d)"

subsection \<open>Queries\<close>

record ServiceInfo =
  si_Name :: string
  si_Kind :: Kind
  si_AppProtocol :: string
  si_Status :: Status
  si_Frontend :: Frontend
  si_Backend :: "Backend option"
  si_Source :: Source
  si_OwnerKey :: string
  si_ProducerID :: string
  si_DockerContainerID :: string
  si_Hostname :: string

definition infoFromRecord :: "ServiceRecord \<Rightarrow> bool \<Rightarrow> ServiceInfo" where
  "infoFromRecord rec includeBackend =
     \<lparr>si_Name = sr_Name rec, si_Kind = sr_Kind rec, si_AppProtocol = sr_AppProtocol rec,
      si_Status = sr_Status rec, si_Frontend = sr_Frontend rec,
      si_Backend = (if includeBackend \<and> sr_Backend rec \<noteq> None then sr_Backend rec else None),
      si_Source = sr_Source rec, si_OwnerKey = sr_OwnerKey rec, si_ProducerID = sr_ProducerID rec,
      si_DockerContainerID = sr_DockerContainerID rec, si_Hostname = sr_Hostname rec\<rparr>"

definition Daemon_List :: "Daemon \<Rightarrow> ServiceInfo list" where
  "Daemon_List d = map (\<lambda>rec. infoFromRecord rec False) (Registry_List (dm_Registry d))"

definition Daemon_Resolve :: "Daemon \<Rightarrow> string \<Rightarrow> (code, ServiceInfo) result" where
  "Daemon_Resolve d name =
     (case Registry_Resolve (dm_Registry d) name of
        None \<Rightarrow> Inl CodeServiceNotFound
      | Some rec \<Rightarrow> Inr (infoFromRecord rec False))"

definition Daemon_Inspect :: "Daemon \<Rightarrow> string \<Rightarrow> (code, ServiceInfo) result" where
  "Daemon_Inspect d name =
     (case Registry_Resolve (dm_Registry d) name of
        None \<Rightarrow> Inl CodeServiceNotFound
      | Some rec \<Rightarrow> Inr (infoFromRecord rec True))"

definition SetDockerStatus :: "string \<Rightarrow> Daemon \<Rightarrow> Daemon" where
  "SetDockerStatus status d = d\<lparr>dm_dockerStatus := status\<rparr>"

definition DockerStatus :: "Daemon \<Rightarrow> string" where
  "DockerStatus d = dm_dockerStatus d"

fun check_range_loop :: "(string \<Rightarrow> bool) \<Rightarrow> string list \<Rightarrow> string \<Rightarrow> int list \<Rightarrow> code option" where
  "check_range_loop bindable lns host [] = Some CodePortExhausted"
| "check_range_loop bindable lns host (port # ports) =
     (case net_Listen bindable lns (JoinHostPort host (Itoa port)) of
        Some _ \<Rightarrow> None
      | None \<Rightarrow> check_range_loop bindable lns host ports)"

definition CheckFrontendRange :: "(string \<Rightarrow> bool) \<Rightarrow> Daemon \<Rightarrow> code option" where
  "CheckFrontendRange bindable d =
     check_range_loop bindable (wd_listeners (dm_world d)) (cf_TCPFrontendHost (dm_cfg d))
       [cf_TCPFrontendMin (dm_cfg d)..cf_TCPFrontendMax (dm_cfg d)]"

subsection \<open>Start and shutdown\<close>

text \<open>\<open>docker_ok\<close>: \<open>dockerwatch.NewClient\<close> succeeds.\<close>

definition StartDockerWatcher :: "bool \<Rightarrow> Daemon \<Rightarrow> Daemon" where
  "StartDockerWatcher docker_ok d =
     (if \<not> dk_Enabled (cf_Docker (dm_cfg d)) then SetDockerStatus ''disabled'' d
      else if \<not> docker_ok then SetDockerStatus ''degraded'' d
      else d)"

definition Start :: "bool \<Rightarrow> Daemon \<Rightarrow> Daemon" where
  "Start docker_ok d = StartDockerWatcher docker_ok (d\<lparr>dm_started := True\<rparr>)"

definition close_opt :: "string option \<Rightarrow> string list \<Rightarrow> string list" where
  "close_opt ln lns = (case ln of None \<Rightarrow> lns | Some l \<Rightarrow> net_Close lns l)"

text \<open>Cancelling the daemon's context makes the proxy servers close their listeners.\<close>

definition Shutdown :: "io_env \<Rightarrow> Daemon \<Rightarrow> Daemon \<times> state_error option" where
  "Shutdown E d =
     (let w = dm_world d;
          w1 = (if dm_started d
                then w\<lparr>wd_listeners := close_opt (dm_httpsListener d) (close_opt (dm_httpListener d) (wd_listeners w))\<rparr>
                else w);
          (m, w2) = Runtime_Shutdown (dm_Runtime d) w1 in
      case wd_state w2 of
        None \<Rightarrow> (d\<lparr>dm_Runtime := m, dm_world := w2\<rparr>, None)
      | Some st \<Rightarrow>
          (case Save E (wd_files w2) st of
             (files, st', err) \<Rightarrow>
               (d\<lparr>dm_Runtime := m, dm_world := w2\<lparr>wd_files := files, wd_state := Some st'\<rparr>\<rparr>, err)))"

subsection \<open>Reference definitions and the invariant\<close>

text \<open>
  What a registration decides before it changes anything: the code it is rejected with,
  or the identity and parameters of the publication it will install.
\<close>

record plan =
  pl_kind :: Kind
  pl_source :: Source
  pl_ttl :: duration
  pl_hostname :: string
  pl_regID :: string
  pl_ownerKey :: string
  pl_producerID :: string

definition reg_plan :: "reg_env \<Rightarrow> RegisterParams \<Rightarrow> Daemon \<Rightarrow> plan" where
  "reg_plan R p d =
     (let kind = (if rp_Kind p = [] then KindTCP else rp_Kind p);
          source = (if rp_Source p = [] then SourceProcess else rp_Source p);
          regID = (if rp_RegistrationID p = [] then newID (re_ms R) (re_id_bytes R) else rp_RegistrationID p) in
      \<lparr>pl_kind = kind, pl_source = source, pl_ttl = reg_ttl (dm_cfg d) source (rp_TTLSeconds p),
       pl_hostname = (case reg_hostname (re_go R) kind (rp_HTTPHost p) of None \<Rightarrow> [] | Some h \<Rightarrow> h),
       pl_regID = regID,
       pl_ownerKey = (if rp_OwnerKey p = [] then source @ '':'' @ regID else rp_OwnerKey p),
       pl_producerID = (if source = SourceDocker then rp_DockerContainerID p else regID)\<rparr>)"

definition reg_reject :: "reg_env \<Rightarrow> RegisterParams \<Rightarrow> Daemon \<Rightarrow> code option" where
  "reg_reject R p d =
     (let pl = reg_plan R p d in
      if ValidateName (rp_Name p) \<noteq> None then Some CodeInvalidName
      else if pl_kind pl \<noteq> KindTCP \<and> pl_kind pl \<noteq> KindHTTP then Some CodeUnsupportedKind
      else if ValidateBackend (re_go R) (rp_Backend p) \<noteq> None then Some CodeInvalidBackend
      else if pl_source pl \<noteq> SourceDocker \<and> (pl_ttl pl < MinLeaseTTL \<or> pl_ttl pl > MaxLeaseTTL)
      then Some CodeInvalidRequest
      else if reg_hostname (re_go R) (pl_kind pl) (rp_HTTPHost p) = None then Some CodeInvalidRequest
      else if reg_conflict (dm_Registry d) (rp_Name p) (pl_kind pl) (pl_hostname pl) then Some CodeNameConflict
      else if pl_source pl = SourceDocker \<and> rp_DockerContainerID p = [] then Some CodeInvalidRequest
      else if CheckOwnership (dm_Registry d) (rp_Name p) (pl_ownerKey pl) \<noteq> None then Some CodeNameConflict
      else None)"

text \<open>The record a publication installs, and the state after it is installed.\<close>

definition plan_record :: "reg_env \<Rightarrow> RegisterParams \<Rightarrow> plan \<Rightarrow> Frontend \<Rightarrow> ServiceRecord" where
  "plan_record R p pl fe =
     reg_record R p (pl_kind pl) (pl_source pl) (pl_hostname pl) (pl_ownerKey pl) (pl_producerID pl) fe"

definition reg_publish :: "reg_env \<Rightarrow> RegisterParams \<Rightarrow> plan \<Rightarrow> Frontend \<Rightarrow> Daemon \<Rightarrow> Daemon" where
  "reg_publish R p pl fe d =
     d\<lparr>dm_Registry := (dm_Registry d)\<lparr>services := mput (rp_Name p) (plan_record R p pl fe) (services (dm_Registry d))\<rparr>,
       dm_HTTP := (if pl_kind pl = KindHTTP then Router_Set (re_go R) (pl_hostname pl) (rp_Name p) (dm_HTTP d)
                   else dm_HTTP d)\<rparr>"

definition retired :: "reg_env \<Rightarrow> RegisterParams \<Rightarrow> Daemon \<Rightarrow> Daemon" where
  "retired R p d = reg_retire (rp_Name p) (pl_ownerKey (reg_plan R p d)) (pl_producerID (reg_plan R p d)) d"

section \<open>Lemmas\<close>

subsection \<open>Registration, branch by branch\<close>

lemma registerLocked_plan:
  "registerLocked R p d =
     (case reg_reject R p d of
        Some c \<Rightarrow> (d, Inl c)
      | None \<Rightarrow>
          (let pl = reg_plan R p d in
           reg_install R p (pl_kind pl) (pl_source pl) (pl_ttl pl) (pl_hostname pl) (pl_regID pl) (pl_ownerKey pl)
             (pl_producerID pl) (reg_retire (rp_Name p) (pl_ownerKey pl) (pl_producerID pl) d)))"
proof -
  define kind where "kind = (if rp_Kind p = [] then KindTCP else rp_Kind p)"
  define source where "source = (if rp_Source p = [] then SourceProcess else rp_Source p)"
  define regID where "regID = (if rp_RegistrationID p = [] then newID (re_ms R) (re_id_bytes R) else rp_RegistrationID p)"
  define ownerKey where "ownerKey = (if rp_OwnerKey p = [] then source @ '':'' @ regID else rp_OwnerKey p)"
  define hn where "hn = reg_hostname (re_go R) kind (rp_HTTPHost p)"
  define ttl where "ttl = reg_ttl (dm_cfg d) source (rp_TTLSeconds p)"
  define bad_kind where "bad_kind \<longleftrightarrow> kind \<noteq> KindTCP \<and> kind \<noteq> KindHTTP"
  define bad_ttl where "bad_ttl \<longleftrightarrow> source \<noteq> SourceDocker \<and> (ttl < MinLeaseTTL \<or> ttl > MaxLeaseTTL)"
  define docker where "docker \<longleftrightarrow> source = SourceDocker"
  have pl: "pl_kind (reg_plan R p d) = kind" "pl_source (reg_plan R p d) = source"
    "pl_ttl (reg_plan R p d) = ttl" "pl_regID (reg_plan R p d) = regID" "pl_ownerKey (reg_plan R p d) = ownerKey"
    "pl_hostname (reg_plan R p d) = (case hn of None \<Rightarrow> [] | Some h \<Rightarrow> h)"
    "pl_producerID (reg_plan R p d) = (if docker then rp_DockerContainerID p else regID)"
    by (simp_all add: reg_plan_def Let_def kind_def source_def regID_def ownerKey_def hn_def ttl_def docker_def)
  note folds = kind_def [symmetric] source_def [symmetric] regID_def [symmetric] ownerKey_def [symmetric]
    hn_def [symmetric] ttl_def [symmetric] bad_kind_def [symmetric] bad_ttl_def [symmetric] docker_def [symmetric]
  show ?thesis
    unfolding reg_reject_def Let_def pl registerLocked_def folds
    by (cases hn) (simp_all split: if_split)
qed

lemma retired_simps [simp]:
  "dm_Registry (retired R p d) = dm_Registry d" "dm_Runtime (retired R p d) = dm_Runtime d"
  "dm_world (retired R p d) = dm_world d" "dm_HTTP (retired R p d) = dm_HTTP d" "dm_cfg (retired R p d) = dm_cfg d"
  by (simp_all add: retired_def reg_retire_def split: option.splits)

lemma reg_publish_simps [simp]:
  "dm_Lease (reg_publish R p pl fe d) = dm_Lease d" "dm_Runtime (reg_publish R p pl fe d) = dm_Runtime d"
  "dm_world (reg_publish R p pl fe d) = dm_world d" "dm_cfg (reg_publish R p pl fe d) = dm_cfg d"
  by (simp_all add: reg_publish_def)

lemma mget_reg_publish [simp]:
  "mget (services (dm_Registry (reg_publish R p pl fe d))) n =
     (if n = rp_Name p then Some (plan_record R p pl fe) else mget (services (dm_Registry d)) n)"
  by (simp add: reg_publish_def)

lemma plan_record_simps [simp]:
  "sr_Name (plan_record R p pl fe) = rp_Name p" "sr_Kind (plan_record R p pl fe) = pl_kind pl"
  "sr_OwnerKey (plan_record R p pl fe) = pl_ownerKey pl" "sr_ProducerID (plan_record R p pl fe) = pl_producerID pl"
  "sr_Source (plan_record R p pl fe) = pl_source pl" "sr_Backend (plan_record R p pl fe) = Some (rp_Backend p)"
  "sr_Frontend (plan_record R p pl fe) = fe" "sr_Status (plan_record R p pl fe) = StatusReady"
  "sr_Hostname (plan_record R p pl fe) = (if pl_kind pl = KindHTTP then pl_hostname pl else [])"
  "sr_UpdatedAt (plan_record R p pl fe) = re_now R" "sr_DockerContainerID (plan_record R p pl fe) = rp_DockerContainerID p"
  by (simp_all add: plan_record_def reg_record_def)

lemma plan_record_now: "re_now R = 0 \<Longrightarrow> plan_record R p pl fe\<lparr>sr_UpdatedAt := 0\<rparr> = plan_record R p pl fe"
  by (simp add: plan_record_def reg_record_def)

lemma install_record:
  assumes "CheckOwnership r (rp_Name p) (pl_ownerKey pl) = None"
  shows "CreateOrReplaceOwned (re_now R) r (plan_record R p pl fe) =
    (r\<lparr>services := mput (rp_Name p) (plan_record R p pl fe) (services r)\<rparr>, Inr (plan_record R p pl fe))"
  using assms by (simp add: CreateOrReplaceOwned_iff Let_def plan_record_now)

lemma publish_fold:
  "(if pl_kind pl = KindHTTP
    then d\<lparr>dm_Registry := (dm_Registry d)\<lparr>services := mput (rp_Name p) (plan_record R p pl fe) (services (dm_Registry d))\<rparr>,
           dm_HTTP := Router_Set (re_go R) (sr_Hostname (plan_record R p pl fe)) (rp_Name p)
             (dm_HTTP (d\<lparr>dm_Registry := (dm_Registry d)\<lparr>services := mput (rp_Name p) (plan_record R p pl fe) (services (dm_Registry d))\<rparr>\<rparr>))\<rparr>
    else d\<lparr>dm_Registry := (dm_Registry d)\<lparr>services := mput (rp_Name p) (plan_record R p pl fe) (services (dm_Registry d))\<rparr>\<rparr>) =
   reg_publish R p pl fe d"
  by (simp add: reg_publish_def)

lemma reg_reject_None:
  assumes "reg_reject R p d = None"
  defines "pl \<equiv> reg_plan R p d"
  shows "ValidateName (rp_Name p) = None" and "pl_kind pl = KindTCP \<or> pl_kind pl = KindHTTP"
    and "ValidateBackend (re_go R) (rp_Backend p) = None"
    and "pl_source pl \<noteq> SourceDocker \<Longrightarrow> MinLeaseTTL \<le> pl_ttl pl \<and> pl_ttl pl \<le> MaxLeaseTTL"
    and "reg_hostname (re_go R) (pl_kind pl) (rp_HTTPHost p) = Some (pl_hostname pl)"
    and "\<not> reg_conflict (dm_Registry d) (rp_Name p) (pl_kind pl) (pl_hostname pl)"
    and "CheckOwnership (dm_Registry d) (rp_Name p) (pl_ownerKey pl) = None"
    and "pl_source pl = SourceDocker \<Longrightarrow> rp_DockerContainerID p \<noteq> []"
proof -
  note r = assms(1) [unfolded reg_reject_def Let_def, folded pl_def]
  show "ValidateName (rp_Name p) = None" using r by (simp split: if_splits)
  show "pl_kind pl = KindTCP \<or> pl_kind pl = KindHTTP" using r by (simp split: if_splits)
  show "ValidateBackend (re_go R) (rp_Backend p) = None" using r by (simp split: if_splits)
  show "MinLeaseTTL \<le> pl_ttl pl \<and> pl_ttl pl \<le> MaxLeaseTTL" if "pl_source pl \<noteq> SourceDocker"
    using r that by (simp split: if_splits)
  have "reg_hostname (re_go R) (pl_kind pl) (rp_HTTPHost p) \<noteq> None" using r by (simp split: if_splits)
  moreover have "pl_hostname pl = (case reg_hostname (re_go R) (pl_kind pl) (rp_HTTPHost p) of None \<Rightarrow> [] | Some h \<Rightarrow> h)"
    by (simp add: pl_def reg_plan_def Let_def)
  ultimately show "reg_hostname (re_go R) (pl_kind pl) (rp_HTTPHost p) = Some (pl_hostname pl)" by auto
  show "\<not> reg_conflict (dm_Registry d) (rp_Name p) (pl_kind pl) (pl_hostname pl)" using r by (simp split: if_splits)
  show "CheckOwnership (dm_Registry d) (rp_Name p) (pl_ownerKey pl) = None" using r by (simp split: if_splits)
  show "rp_DockerContainerID p \<noteq> []" if "pl_source pl = SourceDocker" using r that by (simp split: if_splits)
qed

text \<open>The outcomes of a registration.\<close>

lemma Register_cases:
  assumes "Register R p d = (d', r)"
  defines "pl \<equiv> reg_plan R p d"
  obtains (rejected) c where "reg_reject R p d = Some c" "d' = d" "r = Inl c"
  | (unallocated) c d1 where "reg_reject R p d = None" "pl_kind pl \<noteq> KindHTTP"
      "reg_frontend R p (pl_kind pl) (pl_hostname pl) (retired R p d) = (d1, Inl c)" "d' = d1" "r = Inl c"
  | (no_token) fe d1 where "reg_reject R p d = None"
      "reg_frontend R p (pl_kind pl) (pl_hostname pl) (retired R p d) = (d1, Inr fe)"
      "pl_source pl \<noteq> SourceDocker" "re_token_bytes R = None"
      "d' = reg_publish R p pl fe d1" "r = Inl CodeInternal"
  | (docker) fe d1 where "reg_reject R p d = None"
      "reg_frontend R p (pl_kind pl) (pl_hostname pl) (retired R p d) = (d1, Inr fe)"
      "pl_source pl = SourceDocker" "d' = reg_publish R p pl fe d1"
      "r = Inr \<lparr>rr_RegistrationID = pl_regID pl, rr_LeaseToken = [], rr_Name = rp_Name p,
                rr_Frontend = fe, rr_ExpiresAt = None, rr_TTLSeconds = 0\<rparr>"
  | (leased) fe d1 token l e where "reg_reject R p d = None"
      "reg_frontend R p (pl_kind pl) (pl_hostname pl) (retired R p d) = (d1, Inr fe)"
      "pl_source pl \<noteq> SourceDocker" "NewToken (re_token_bytes R) = Some token"
      "AddWithTTL (re_lease_now R) (dm_Lease d1) (pl_regID pl) (rp_Name p) (pl_ownerKey pl) token (pl_ttl pl) = (l, e)"
      "d' = (reg_publish R p pl fe d1)\<lparr>dm_Lease := l\<rparr>"
      "r = Inr \<lparr>rr_RegistrationID = pl_regID pl, rr_LeaseToken = token, rr_Name = rp_Name p,
                rr_Frontend = fe, rr_ExpiresAt = Some (le_ExpiresAt e), rr_TTLSeconds = pl_ttl pl div Second\<rparr>"
proof (cases "reg_reject R p d")
  case (Some c)
  with assms(1) show thesis by (intro rejected) (auto simp: Register_def registerLocked_plan)
next
  case None
  obtain d1 fr where F: "reg_frontend R p (pl_kind pl) (pl_hostname pl) (retired R p d) = (d1, fr)" by fastforce
  have eq: "(d', r) = reg_install R p (pl_kind pl) (pl_source pl) (pl_ttl pl) (pl_hostname pl) (pl_regID pl)
      (pl_ownerKey pl) (pl_producerID pl) (retired R p d)"
    using assms(1) None by (simp add: Register_def registerLocked_plan Let_def pl_def retired_def)
  show thesis
  proof (cases fr)
    case (Inl c)
    then show thesis using None F eq
      by (intro unallocated) (auto simp: reg_install_def reg_frontend_def split: if_splits)
  next
    case (Inr fe)
    have "dm_Registry d1 = dm_Registry d"
      using F by (auto simp: reg_frontend_def split: if_splits prod.splits sum.splits alloc_error.splits)
    then have own: "CheckOwnership (dm_Registry d1) (rp_Name p) (pl_ownerKey pl) = None"
      using reg_reject_None(7) [OF None] by (simp add: pl_def)
    note step = eq [unfolded reg_install_def F Inr prod.case sum.case Let_def plan_record_def [symmetric]
        install_record [OF own] publish_fold]
    show thesis
    proof (cases "pl_source pl = SourceDocker")
      case True
      then show thesis using step None F Inr by (intro docker) simp_all
    next
      case False
      show thesis
      proof (cases "NewToken (re_token_bytes R)")
        case tok: None
        then have "re_token_bytes R = None" by (simp add: NewToken_def split: option.splits)
        then show thesis using step None F Inr False tok by (intro no_token) simp_all
      next
        case (Some token)
        obtain l e where "AddWithTTL (re_lease_now R) (dm_Lease d1) (pl_regID pl) (rp_Name p) (pl_ownerKey pl)
            token (pl_ttl pl) = (l, e)" by fastforce
        then show thesis using step None F Inr False Some by (intro leased) simp_all
      qed
    qed
  qed
qed

end
