(* ===== verification/Daemon_Events.thy ===== *)
theory Daemon_Events
  imports Daemon
begin

text \<open>
  The running daemon as a sequence of events. \<open>Register\<close> and \<open>endPublication\<close> hold the
  daemon's mutex and every lease operation holds the lease manager's, so these are the
  atomic events; an operation that uses several of them is split: deleting a
  registration or sweeping expired leases first takes the leases and leaves the
  publications to be ended \<open>pending\<close>, and each pending one is ended by a later event.
  Any interleaving of the API handlers, the lease sweeper and the Docker watcher is a
  list of events.
\<close>

section \<open>Definitions\<close>

type_synonym sys = "Daemon \<times> (string \<times> string) list"

datatype event =
    EvRegister reg_env RegisterParams
  | EvHeartbeat gotime string string
  | EvDelete string string
  | EvSweep gotime
  | EvEnd gotime string string
  | EvForget gotime string string string

fun apply_ev :: "event \<Rightarrow> sys \<Rightarrow> sys" where
  "apply_ev (EvRegister R p) (d, P) = (fst (Register R p d), P)"
| "apply_ev (EvHeartbeat now rid token) (d, P) = (fst (Heartbeat now rid token d), P)"
| "apply_ev (EvDelete rid token) (d, P) =
     (case Lease_Get (dm_Lease d) rid of
        None \<Rightarrow> (d, P)
      | Some e \<Rightarrow>
          (case Lease_Delete (dm_Lease d) rid token of
             (l, Some _) \<Rightarrow> (d\<lparr>dm_Lease := l\<rparr>, P)
           | (l, None) \<Rightarrow> (d\<lparr>dm_Lease := l\<rparr>, P @ [(le_Name e, le_RegistrationID e)])))"
| "apply_ev (EvSweep now) (d, P) =
     (case TakeExpired now (dm_Lease d) of
        (l, out) \<Rightarrow> (d\<lparr>dm_Lease := l\<rparr>, P @ map (\<lambda>e. (le_Name e, le_RegistrationID e)) out))"
| "apply_ev (EvEnd now name producerID) (d, P) =
     (if (name, producerID) \<in> set P
      then (fst (endPublication now name producerID d), remove1 (name, producerID) P) else (d, P))"
| "apply_ev (EvForget now name ownerKey containerID) (d, P) =
     (ForgetDockerPublication now name ownerKey containerID d, P)"

definition run :: "event list \<Rightarrow> sys \<Rightarrow> sys" where
  "run evs s = fold apply_ev evs s"

subsection \<open>Invariant\<close>

definition backend_ok :: "Backend \<Rightarrow> bool" where
  "backend_ok b \<longleftrightarrow> 1 \<le> be_Port b \<and> be_Port b \<le> 65535 \<and> (\<exists>G. IsLoopbackHost G (be_Host b))"

definition rec_inv :: "go_env \<Rightarrow> Daemon \<Rightarrow> string \<Rightarrow> ServiceRecord \<Rightarrow> bool" where
  "rec_inv G d name rec \<longleftrightarrow>
     ValidateName name = None \<and> (sr_Kind rec = KindTCP \<or> sr_Kind rec = KindHTTP) \<and>
     (sr_Kind rec = KindTCP \<longrightarrow> sr_Hostname rec = [] \<and>
        (\<exists>rt. Runtime_Get (dm_Runtime d) name = Some rt \<and> rt_Frontend rt = sr_Frontend rec)) \<and>
     (sr_Kind rec = KindHTTP \<longrightarrow> sr_Hostname rec \<noteq> [] \<and>
        sr_Frontend rec = \<lparr>fe_Host = [], fe_Port = 0, fe_URL = FrontendURL G (dm_HTTP d) (sr_Hostname rec)\<rparr> \<and>
        Router_Lookup G (dm_HTTP d) (sr_Hostname rec) \<noteq> None) \<and>
     (\<forall>b. sr_Backend rec = Some b \<longrightarrow> backend_ok b)"

definition hosts_unique :: "Registry \<Rightarrow> bool" where
  "hosts_unique r \<longleftrightarrow>
     (\<forall>n1 r1 n2 r2. mget (services r) n1 = Some r1 \<longrightarrow> mget (services r) n2 = Some r2 \<longrightarrow>
        sr_Hostname r1 = sr_Hostname r2 \<longrightarrow> sr_Hostname r1 \<noteq> [] \<longrightarrow> n1 = n2)"

definition dm_inv :: "go_env \<Rightarrow> Daemon \<Rightarrow> bool" where
  "dm_inv G d \<longleftrightarrow>
     reg_wf (dm_Registry d) \<and> lease_wf (dm_Lease d) \<and> rm_inv (dm_Runtime d) (dm_world d) \<and>
     router_wf (dm_HTTP d) \<and> hosts_unique (dm_Registry d) \<and>
     (\<forall>name rec. mget (services (dm_Registry d)) name = Some rec \<longrightarrow> rec_inv G d name rec) \<and>
     (\<forall>rid e. Lease_Get (dm_Lease d) rid = Some e \<longrightarrow> mget (services (dm_Registry d)) (le_Name e) \<noteq> None)"

text \<open>Every event of a history sees the same Unicode case table.\<close>

fun same_table :: "go_env \<Rightarrow> event \<Rightarrow> bool" where
  "same_table G (EvRegister R p) \<longleftrightarrow> env_ToLower (re_go R) = env_ToLower G"
| "same_table G _ \<longleftrightarrow> True"

definition sys_init :: "sys \<Rightarrow> bool" where
  "sys_init s \<longleftrightarrow> snd s = [] \<and>
     (\<exists>N cfg files lns files' lns'. Daemon_New N cfg files lns = (files', lns', Inr (fst s)) \<and> distinct lns)"

definition sys_step :: "go_env \<Rightarrow> sys \<Rightarrow> sys \<Rightarrow> bool" where
  "sys_step G s t \<longleftrightarrow> (\<exists>ev. same_table G ev \<and> t = apply_ev ev s)"

text \<open>What stays of a service for as long as the daemon runs.\<close>

definition same_service :: "ServiceRecord \<Rightarrow> ServiceRecord \<Rightarrow> bool" where
  "same_service rec rec' \<longleftrightarrow>
     sr_Kind rec' = sr_Kind rec \<and> sr_Hostname rec' = sr_Hostname rec \<and> sr_Frontend rec' = sr_Frontend rec"

subsection \<open>Sample inputs\<close>

definition sample_go :: go_env where
  "sample_go = \<lparr>env_ToLower = (\<lambda>s. s), env_LookupHost = (\<lambda>_. None)\<rparr>"

definition sample_cfg :: Config where
  "sample_cfg = Default\<lparr>cf_StatePath := ''/s''\<rparr>"

definition sample_new :: new_env where
  "sample_new = \<lparr>ne_io = calm, ne_bindable = (\<lambda>_. True), ne_UserConfigDir = None, ne_UserHomeDir = None,
     ne_KeyPairOk = False, ne_now = 1\<rparr>"

definition sample_daemon :: Daemon where
  "sample_daemon =
     \<lparr>dm_cfg = sample_cfg, dm_Registry = NewRegistry,
      dm_Runtime = NewRuntimeManager (NewAllocator ''127.0.0.1'' 15000 19999),
      dm_Lease = NewLeaseManager (15 * Second),
      dm_world = \<lparr>wd_files = Map.empty,
        wd_state = Some \<lparr>st_path = ''/s'', st_m = \<lparr>md_Version = 1, md_TCPPorts = Some []\<rparr>, st_dirty = False\<rparr>,
        wd_listeners = []\<rparr>,
      dm_HTTP = NewRouter ''http'' 8088, dm_dockerStatus = ''degraded'', dm_tlsCert = False,
      dm_httpListener = None, dm_httpsListener = None, dm_startedAt = 1, dm_started = False\<rparr>"

definition sample_backend :: Backend where
  "sample_backend = \<lparr>be_Host = ''127.0.0.1'', be_Port = 5432\<rparr>"

text \<open>Registrations as the API makes them: without an owner key or a registration id.\<close>

definition sample_reg :: "gotime \<Rightarrow> nat \<Rightarrow> reg_env" where
  "sample_reg now ms = \<lparr>re_go = sample_go, re_io = calm, re_bindable = (\<lambda>_. True), re_now = now, re_lease_now = now,
     re_ms = ms, re_id_bytes = [], re_token_bytes = Some ''k''\<rparr>"

definition tcp_params :: "string \<Rightarrow> int \<Rightarrow> int \<Rightarrow> RegisterParams" where
  "tcp_params name preferred ttl = \<lparr>rp_Name = name, rp_Kind = ''tcp'', rp_AppProtocol = [], rp_Backend = sample_backend,
     rp_PreferredPort = preferred, rp_TTLSeconds = ttl, rp_Source = ''process'', rp_OwnerKey = [],
     rp_RegistrationID = [], rp_DockerContainerID = [], rp_HTTPHost = []\<rparr>"

text \<open>The service \<open>db\<close> registered with a lease of \<open>ttl\<close> seconds at time \<open>now\<close>.\<close>

definition sample_registered :: "gotime \<Rightarrow> int \<Rightarrow> Daemon" where
  "sample_registered now ttl = fst (Register (sample_reg now 1) (tcp_params ''db'' 16000 ttl) sample_daemon)"

section \<open>Lemmas\<close>

lemma ToLower_cong: "env_ToLower G = env_ToLower G' \<Longrightarrow> ToLower G = ToLower G'"
  by (simp add: fun_eq_iff ToLower_def)

lemma normalizeHost_cong: "env_ToLower G = env_ToLower G' \<Longrightarrow> normalizeHost G = normalizeHost G'"
  using ToLower_cong [of G G'] by (simp add: fun_eq_iff normalizeHost_def)

lemma FrontendURL_cong:
  "env_ToLower G = env_ToLower G' \<Longrightarrow> ro_scheme r = ro_scheme r' \<Longrightarrow> ro_port r = ro_port r' \<Longrightarrow>
     FrontendURL G r h = FrontendURL G' r' h"
  unfolding FrontendURL_def using normalizeHost_cong [of G G'] by (simp only:)

lemma Router_Set_simps [simp]:
  "ro_scheme (Router_Set G h p r) = ro_scheme r" "ro_port (Router_Set G h p r) = ro_port r"
  by (simp_all add: Router_Set_def Let_def)

subsection \<open>What an event leaves alone\<close>

lemma endPublication_simps [simp]:
  "dm_Lease (fst (endPublication now name pid d)) = dm_Lease d"
  "dm_Runtime (fst (endPublication now name pid d)) = dm_Runtime d"
  "dm_world (fst (endPublication now name pid d)) = dm_world d"
  "dm_HTTP (fst (endPublication now name pid d)) = dm_HTTP d"
  "dm_cfg (fst (endPublication now name pid d)) = dm_cfg d"
  "dm_Registry (fst (endPublication now name pid d)) = fst (ClearBackendIf now (dm_Registry d) name pid)"
  by (simp_all add: endPublication_def case_prod_beta)

lemma Heartbeat_simps [simp]:
  "dm_Registry (fst (Heartbeat now rid token d)) = dm_Registry d"
  "dm_Runtime (fst (Heartbeat now rid token d)) = dm_Runtime d"
  "dm_world (fst (Heartbeat now rid token d)) = dm_world d"
  "dm_HTTP (fst (Heartbeat now rid token d)) = dm_HTTP d"
  "dm_Lease (fst (Heartbeat now rid token d)) = fst (Renew now (dm_Lease d) rid token)"
  by (auto simp: Heartbeat_def split: prod.splits sum.splits lease_error.splits)

lemma reg_frontend_keeps:
  assumes "reg_frontend R p kind hostname d = (d1, r)"
  shows "dm_Registry d1 = dm_Registry d" "dm_Lease d1 = dm_Lease d" "dm_HTTP d1 = dm_HTTP d" "dm_cfg d1 = dm_cfg d"
  using assms by (auto simp: reg_frontend_def split: if_splits prod.splits sum.splits alloc_error.splits)

lemma reg_frontend_runtime:
  assumes "reg_frontend R p kind hostname d = (d1, r)" "rm_inv (dm_Runtime d) (dm_world d)"
  shows "rm_inv (dm_Runtime d1) (dm_world d1)"
    and "Runtime_Get (dm_Runtime d) n = Some rt \<Longrightarrow> Runtime_Get (dm_Runtime d1) n = Some rt"
    and "kind \<noteq> KindHTTP \<Longrightarrow> r = Inr fe \<Longrightarrow>
      \<exists>rt. Runtime_Get (dm_Runtime d1) (rp_Name p) = Some rt \<and> rt_Frontend rt = fe"
    and "kind = KindHTTP \<Longrightarrow> r = Inr fe \<Longrightarrow>
      fe = \<lparr>fe_Host = [], fe_Port = 0, fe_URL = FrontendURL (re_go R) (dm_HTTP d) hostname\<rparr>"
proof -
  obtain m w e where E: "EnsureTCPRuntime (re_io R) (re_bindable R) (rp_Name p) (rp_PreferredPort p)
      (dm_Runtime d) (dm_world d) = (m, w, e)" using prod_cases3 by blast
  have inv: "rm_inv m w" using rm_inv_Ensure [OF assms(2) E] .
  have keep: "Runtime_Get (dm_Runtime d) n = Some rt \<Longrightarrow> Runtime_Get m n = Some rt"
    using E by (cases rule: EnsureTCPRuntime_cases) (auto simp: Runtime_Get_def)
  note cases_d1 = assms(1) [unfolded reg_frontend_def E]
  show "rm_inv (dm_Runtime d1) (dm_world d1)"
    using cases_d1 inv assms(2) by (auto split: if_splits sum.splits alloc_error.splits)
  show "Runtime_Get (dm_Runtime d1) n = Some rt" if "Runtime_Get (dm_Runtime d) n = Some rt"
    using cases_d1 keep that by (auto split: if_splits sum.splits alloc_error.splits)
  show "\<exists>rt. Runtime_Get (dm_Runtime d1) (rp_Name p) = Some rt \<and> rt_Frontend rt = fe"
    if "kind \<noteq> KindHTTP" "r = Inr fe"
    using cases_d1 that Ensure_Get [OF E, of "rp_Name p"] by (auto split: sum.splits alloc_error.splits)
  show "fe = \<lparr>fe_Host = [], fe_Port = 0, fe_URL = FrontendURL (re_go R) (dm_HTTP d) hostname\<rparr>"
    if "kind = KindHTTP" "r = Inr fe"
    using cases_d1 that by auto
qed

lemma retired_lease: "lease_wf (dm_Lease d) \<Longrightarrow> lease_wf (dm_Lease (retired R p d))"
  by (auto simp: retired_def reg_retire_def split: option.splits intro: wf_intros)

lemma retired_get: "Lease_Get (dm_Lease (retired R p d)) rid = Some e \<Longrightarrow> Lease_Get (dm_Lease d) rid = Some e"
  by (auto simp: retired_def reg_retire_def split: option.splits if_splits)

subsection \<open>Every event keeps the invariant\<close>

lemma dm_inv_lease:
  assumes "dm_inv G d" "lease_wf l" "\<And>rid e. Lease_Get l rid = Some e \<Longrightarrow> \<exists>e'. Lease_Get (dm_Lease d) rid = Some e' \<and> le_Name e' = le_Name e"
  shows "dm_inv G (d\<lparr>dm_Lease := l\<rparr>)"
  using assms unfolding dm_inv_def rec_inv_def by (auto) (metis option.distinct(1))

lemma backend_ok_validated: "ValidateBackend G b = None \<Longrightarrow> backend_ok b"
  using ValidateBackend_None IsLoopbackHost_iff unfolding backend_ok_def by blast

lemma canonical_nonempty: "canonicalHTTPHost G raw = Some h \<Longrightarrow> h \<noteq> []"
  by (auto simp: canonicalHTTPHost_def Let_def split: if_splits)

lemma hosts_unique_put:
  assumes "hosts_unique r" "reg_wf r"
    and "\<And>n rec'. mget (services r) n = Some rec' \<Longrightarrow> n \<noteq> name \<Longrightarrow> sr_Hostname rec \<noteq> [] \<Longrightarrow> sr_Hostname rec' \<noteq> sr_Hostname rec"
  shows "hosts_unique (r\<lparr>services := mput name rec (services r)\<rparr>)"
  using assms unfolding hosts_unique_def by (simp split: if_splits) metis

lemma no_conflict_hosts:
  assumes "\<not> reg_conflict r name KindHTTP h" "reg_wf r" "hosts_unique r" "h \<noteq> []"
    and "mget (services r) n = Some rec" "n \<noteq> name"
  shows "sr_Hostname rec \<noteq> h"
proof
  assume h: "sr_Hostname rec = h"
  have in_n: "(n, rec) \<in> set (services r)" using assms(5) by (rule mget_in)
  then obtain rec' where f: "FindByHostname r h = Some rec'"
    using h FindByHostname_None [of r h] by (cases "FindByHostname r h") auto
  then obtain n' where n': "(n', rec') \<in> set (services r)" "sr_Hostname rec' = h"
    using FindByHostname_Some by blast
  have m': "mget (services r) n' = Some rec'"
    using n'(1) assms(2) mget_iff by (metis reg_wf_def)
  have "sr_Name rec' = n'" using reg_wf_mget [OF assms(2) m'] by (simp add: rec_ok_def)
  moreover have "sr_Name rec' = name" using assms(1) f by (simp add: reg_conflict_def)
  moreover have "n = n'" using assms(3,4,5) m' n'(2) h unfolding hosts_unique_def by metis
  ultimately show False using assms(6) by simp
qed

lemma rec_inv_mono:
  assumes "rec_inv G d name rec"
    and "\<And>rt. Runtime_Get (dm_Runtime d) name = Some rt \<Longrightarrow> Runtime_Get (dm_Runtime d') name = Some rt"
    and "Router_Lookup G (dm_HTTP d) (sr_Hostname rec) \<noteq> None \<Longrightarrow> Router_Lookup G (dm_HTTP d') (sr_Hostname rec) \<noteq> None"
    and "FrontendURL G (dm_HTTP d') (sr_Hostname rec) = FrontendURL G (dm_HTTP d) (sr_Hostname rec)"
  shows "rec_inv G d' name rec"
  using assms by (auto simp: rec_inv_def)

lemma Lookup_Set_mono:
  "env_ToLower G' = env_ToLower G \<Longrightarrow> Router_Lookup G r h \<noteq> None \<Longrightarrow> Router_Lookup G (Router_Set G' h' p r) h \<noteq> None"
  using normalizeHost_cong [of G' G] by (simp add: Router_Lookup_def Router_Set_def Let_def)

lemma rec_inv_new:
  assumes "reg_reject R p d = None" "env_ToLower (re_go R) = env_ToLower G"
    and "reg_frontend R p (pl_kind (reg_plan R p d)) (pl_hostname (reg_plan R p d)) (retired R p d) = (d1, Inr fe)"
    and "rm_inv (dm_Runtime d) (dm_world d)"
  shows "rec_inv G (reg_publish R p (reg_plan R p d) fe d1) (rp_Name p) (plan_record R p (reg_plan R p d) fe)"
proof -
  let ?pl = "reg_plan R p d"
  note rej = reg_reject_None [OF assms(1)]
  have inv: "rm_inv (dm_Runtime (retired R p d)) (dm_world (retired R p d))" using assms(4) by simp
  note fr = reg_frontend_runtime [OF assms(3) inv]
  have keep: "dm_HTTP d1 = dm_HTTP d" using reg_frontend_keeps(3) [OF assms(3)] by simp
  have url: "FrontendURL G (Router_Set (re_go R) h x (dm_HTTP d)) h = FrontendURL (re_go R) (dm_HTTP d) h" for h x
    by (rule FrontendURL_cong) (simp_all add: assms(2))
  have look: "Router_Lookup G (Router_Set (re_go R) h x (dm_HTTP d)) h \<noteq> None" for h x
    using normalizeHost_cong [OF assms(2)] by (simp add: Router_Lookup_def Router_Set_def Let_def)
  show ?thesis
  proof (cases "pl_kind ?pl = KindHTTP")
    case True
    then have "canonicalHTTPHost (re_go R) (rp_HTTPHost p) = Some (pl_hostname ?pl)"
      using rej(5) by (simp add: reg_hostname_def)
    then have "pl_hostname ?pl \<noteq> []" by (rule canonical_nonempty)
    then show ?thesis
      using True rej(1) backend_ok_validated [OF rej(3)] fr(4) [OF True refl] url look
      by (simp add: rec_inv_def reg_publish_def keep)
  next
    case False
    then show ?thesis
      using rej(1,2) backend_ok_validated [OF rej(3)] fr(3) [OF False refl]
      by (simp add: rec_inv_def)
  qed
qed

lemma dm_inv_publish:
  assumes "dm_inv G d" "reg_reject R p d = None" "env_ToLower (re_go R) = env_ToLower G"
    and F: "reg_frontend R p (pl_kind (reg_plan R p d)) (pl_hostname (reg_plan R p d)) (retired R p d) = (d1, Inr fe)"
  shows "dm_inv G (reg_publish R p (reg_plan R p d) fe d1)"
proof -
  let ?pl = "reg_plan R p d"
  let ?rec = "plan_record R p ?pl fe"
  let ?d' = "reg_publish R p ?pl fe d1"
  note rej = reg_reject_None [OF assms(2)]
  have inv: "reg_wf (dm_Registry d)" "lease_wf (dm_Lease d)" "rm_inv (dm_Runtime d) (dm_world d)"
    "router_wf (dm_HTTP d)" "hosts_unique (dm_Registry d)"
    using assms(1) by (auto simp: dm_inv_def)
  have keep: "dm_Registry d1 = dm_Registry d" "dm_Lease d1 = dm_Lease (retired R p d)" "dm_HTTP d1 = dm_HTTP d"
    using reg_frontend_keeps [OF F] by simp_all
  have inv': "rm_inv (dm_Runtime (retired R p d)) (dm_world (retired R p d))" using inv(3) by simp
  note fr = reg_frontend_runtime [OF F inv']
  have other: "sr_Hostname rec \<noteq> sr_Hostname ?rec"
    if "mget (services (dm_Registry d)) n = Some rec" "n \<noteq> rp_Name p" "sr_Hostname ?rec \<noteq> []" for n rec
    using that rej(6) no_conflict_hosts [OF _ inv(1,5) _ that(1,2)] by (auto split: if_splits)
  have "hosts_unique (dm_Registry ?d')"
    using hosts_unique_put [OF inv(5,1), where rec = ?rec and name = "rp_Name p"] other keep
    by (simp add: reg_publish_def del: plan_record_simps)
  moreover have "reg_wf (dm_Registry ?d')"
    using inv(1) keep by (simp add: reg_publish_def) (rule reg_wf_mput, simp_all add: rec_ok_def)
  moreover have "rec_inv G ?d' n rec" if "mget (services (dm_Registry ?d')) n = Some rec" for n rec
  proof (cases "n = rp_Name p")
    case True
    with that rec_inv_new [OF assms(2,3) F inv(3)] show ?thesis by simp
  next
    case False
    then have "rec_inv G d n rec" using that assms(1) keep by (simp add: dm_inv_def)
    then show ?thesis
    proof (rule rec_inv_mono)
      show "Runtime_Get (dm_Runtime ?d') n = Some rt" if "Runtime_Get (dm_Runtime d) n = Some rt" for rt
        using fr(2) that by simp
      show "Router_Lookup G (dm_HTTP ?d') (sr_Hostname rec) \<noteq> None"
        if "Router_Lookup G (dm_HTTP d) (sr_Hostname rec) \<noteq> None"
        using Lookup_Set_mono [OF assms(3) that] that by (simp add: reg_publish_def keep del: not_None_eq)
      show "FrontendURL G (dm_HTTP ?d') (sr_Hostname rec) = FrontendURL G (dm_HTTP d) (sr_Hostname rec)"
        by (rule FrontendURL_cong) (simp_all add: reg_publish_def keep)
    qed
  qed
  moreover have "mget (services (dm_Registry ?d')) (le_Name e) \<noteq> None" if "Lease_Get (dm_Lease ?d') rid = Some e" for rid e
    using that assms(1) keep retired_get [of R p d rid e] by (auto simp: dm_inv_def)
  moreover have "router_wf (dm_HTTP ?d')" using inv(4) keep by (simp add: reg_publish_def router_wf_Set)
  ultimately show ?thesis
    using fr(1) keep retired_lease [OF inv(2)] by (simp add: dm_inv_def)
qed

lemma dm_inv_Register:
  assumes "dm_inv G d" "env_ToLower (re_go R) = env_ToLower G" "Register R p d = (d', r)"
  shows "dm_inv G d'"
  using assms(3)
proof (cases rule: Register_cases)
  case (rejected c)
  with assms(1) show ?thesis by simp
next
  case (unallocated c d1)
  have inv: "rm_inv (dm_Runtime (retired R p d)) (dm_world (retired R p d))" using assms(1) by (simp add: dm_inv_def)
  note fr = reg_frontend_runtime [OF unallocated(3) inv] and keep = reg_frontend_keeps [OF unallocated(3)]
  have "rec_inv G d1 n rec" if "rec_inv G d n rec" for n rec
    by (rule rec_inv_mono [OF that]) (use fr(2) keep in auto)
  moreover have "lease_wf (dm_Lease d1)" using keep retired_lease assms(1) by (auto simp: dm_inv_def)
  moreover have "mget (services (dm_Registry d)) (le_Name e) \<noteq> None" if "Lease_Get (dm_Lease d1) rid = Some e" for rid e
    using that keep(2) retired_get [of R p d rid e] assms(1) by (simp add: dm_inv_def)
  ultimately show ?thesis
    using unallocated(4) assms(1) fr(1) keep by (simp add: dm_inv_def)
next
  case (no_token fe d1)
  with dm_inv_publish [OF assms(1) no_token(1) assms(2) no_token(2)] show ?thesis by simp
next
  case (docker fe d1)
  with dm_inv_publish [OF assms(1) docker(1) assms(2) docker(2)] show ?thesis by simp
next
  case (leased fe d1 token l e)
  let ?d2 = "reg_publish R p (reg_plan R p d) fe d1"
  have inv: "dm_inv G ?d2" using dm_inv_publish [OF assms(1) leased(1) assms(2) leased(2)] .
  have get: "Lease_Get l j = (if j = pl_regID (reg_plan R p d) then Some e else Lease_Get (dm_Lease d1) j)" for j
    using Lease_Get_Add [where m = "dm_Lease d1" and rid = "pl_regID (reg_plan R p d)" and j = j] leased(5)
    by (metis fst_conv snd_conv)
  have "le_Name e = rp_Name p" using leased(5) by (auto simp: AddWithTTL_def Let_def)
  then have ref: "mget (services (dm_Registry ?d2)) (le_Name e') \<noteq> None" if "Lease_Get l rid = Some e'" for rid e'
    using that inv by (cases "rid = pl_regID (reg_plan R p d)") (auto simp: get dm_inv_def)
  have wf: "lease_wf l"
    using inv lease_wf_Add [of "dm_Lease d1"] leased(5) by (metis dm_inv_def fst_conv reg_publish_simps(1))
  have "rec_inv G (?d2\<lparr>dm_Lease := l\<rparr>) n rec = rec_inv G ?d2 n rec" for n rec
    by (simp add: rec_inv_def)
  then show ?thesis
    using inv wf ref unfolding leased(6) dm_inv_def by simp
qed

lemma dm_inv_end:
  assumes "dm_inv G d"
  shows "dm_inv G (fst (endPublication now name pid d))"
proof -
  let ?d' = "fst (endPublication now name pid d)"
  have get: "mget (services (dm_Registry ?d')) n =
      (case mget (services (dm_Registry d)) n of None \<Rightarrow> None
       | Some rec \<Rightarrow> if n = name \<and> sr_ProducerID rec = pid
           then Some (rec\<lparr>sr_Backend := None, sr_Status := StatusUnavailable, sr_UpdatedAt := now\<rparr>) else Some rec)" for n
    by (simp add: ClearBackendIf_mget)
  have "hosts_unique (dm_Registry ?d')"
    using assms unfolding dm_inv_def hosts_unique_def get
    by (auto split: option.splits if_splits)
  moreover have "rec_inv G ?d' n rec" if "mget (services (dm_Registry ?d')) n = Some rec" for n rec
  proof -
    obtain old where old: "mget (services (dm_Registry d)) n = Some old"
        and rec: "rec = old \<or> rec = old\<lparr>sr_Backend := None, sr_Status := StatusUnavailable, sr_UpdatedAt := now\<rparr>"
      using \<open>mget (services (dm_Registry ?d')) n = Some rec\<close> unfolding get
      by (auto split: option.splits if_splits)
    have "rec_inv G d n old" using assms old by (simp add: dm_inv_def)
    then show ?thesis using rec by (auto simp: rec_inv_def)
  qed
  moreover have "mget (services (dm_Registry ?d')) n \<noteq> None" if "mget (services (dm_Registry d)) n \<noteq> None" for n
    using that unfolding get by (auto split: option.splits)
  ultimately show ?thesis
    using assms reg_wf_ClearBackendIf [of "dm_Registry d" now name pid] by (auto simp: dm_inv_def)
qed

lemma Renew_get_name:
  "Lease_Get (fst (Renew now m rid token)) j = Some e \<Longrightarrow> \<exists>e'. Lease_Get m j = Some e' \<and> le_Name e' = le_Name e"
  by (auto simp: Renew_get split: option.splits if_splits)

lemma dm_inv_event:
  assumes "dm_inv G d" "same_table G ev" "apply_ev ev (d, P) = (d', P')"
  shows "dm_inv G d'"
proof (cases ev)
  case (EvRegister R p)
  then show ?thesis using assms dm_inv_Register [of G d R p] by (cases "Register R p d") auto
next
  case (EvHeartbeat now rid token)
  have "dm_inv G (d\<lparr>dm_Lease := fst (Renew now (dm_Lease d) rid token)\<rparr>)"
    by (rule dm_inv_lease [OF assms(1)]) (use assms(1) in \<open>auto simp: dm_inv_def intro: wf_intros dest: Renew_get_name\<close>)
  moreover have "d' = d\<lparr>dm_Lease := fst (Renew now (dm_Lease d) rid token)\<rparr>"
    using EvHeartbeat assms(3) by (auto simp: Heartbeat_def split: prod.splits sum.splits lease_error.splits)
  ultimately show ?thesis by simp
next
  case (EvDelete rid token)
  have "dm_inv G (d\<lparr>dm_Lease := fst (Lease_Delete (dm_Lease d) rid token)\<rparr>)"
    by (rule dm_inv_lease [OF assms(1)])
       (use assms(1) in \<open>auto simp: dm_inv_def Lease_Delete_cases intro: wf_intros split: option.splits if_splits\<close>)
  moreover have "d' = d \<or> d' = d\<lparr>dm_Lease := fst (Lease_Delete (dm_Lease d) rid token)\<rparr>"
    using EvDelete assms(3) by (auto split: option.splits prod.splits)
  ultimately show ?thesis using assms(1) by auto
next
  case (EvSweep now)
  have wf: "lease_wf (dm_Lease d)" using assms(1) by (simp add: dm_inv_def)
  have "dm_inv G (d\<lparr>dm_Lease := fst (TakeExpired now (dm_Lease d))\<rparr>)"
    by (rule dm_inv_lease [OF assms(1)])
       (use wf in \<open>auto simp: TakeExpired_entries Lease_Get_def lease_wf_def [of "dm_Lease d"]
          intro: wf_intros split: option.splits if_splits\<close>)
  then show ?thesis using EvSweep assms(3) by (auto split: prod.splits)
next
  case (EvEnd now name pid)
  then show ?thesis using assms dm_inv_end by (auto split: if_splits)
next
  case (EvForget now name ownerKey cid)
  then show ?thesis using assms dm_inv_end by (auto simp: ForgetDockerPublication_def)
qed

subsection \<open>A new daemon\<close>

lemma bind_cases:
  assumes "bindProxyListeners bindable d = (d', None)" "distinct (wd_listeners (dm_world d))"
  shows "dm_Registry d' = dm_Registry d \<and> dm_Runtime d' = dm_Runtime d \<and> dm_Lease d' = dm_Lease d \<and>
    dm_HTTP d' = dm_HTTP d \<and> dm_cfg d' = dm_cfg d \<and> wd_state (dm_world d') = wd_state (dm_world d) \<and>
    wd_files (dm_world d') = wd_files (dm_world d) \<and> distinct (wd_listeners (dm_world d'))"
  using assms
  by (auto simp: bindProxyListeners_def Let_def net_Listen_def split: if_splits option.splits)

lemma Daemon_New_cases:
  assumes "Daemon_New N cfg0 files lns = (files', lns', Inr d)"
  obtains st scheme port cfg d0 where "Config_Validate cfg0 = None"
    "Load (ne_io N) files (cf_StatePath cfg) = (files', Inr st)"
    "bindProxyListeners (ne_bindable N) d0 = (d, None)"
    "dm_Registry d0 = NewRegistry" "dm_Lease d0 = NewLeaseManager (cf_LeaseTTL cfg)"
    "dm_Runtime d0 = NewRuntimeManager (NewAllocator (cf_TCPFrontendHost cfg) (cf_TCPFrontendMin cfg) (cf_TCPFrontendMax cfg))"
    "dm_HTTP d0 = NewRouter scheme port" "dm_world d0 = \<lparr>wd_files = files', wd_state = Some st, wd_listeners = lns\<rparr>"
    "dm_cfg d0 = cfg" "cf_LeaseTTL cfg = cf_LeaseTTL cfg0" "cf_TCPFrontendMin cfg = cf_TCPFrontendMin cfg0"
    "cf_TCPFrontendMax cfg = cf_TCPFrontendMax cfg0" "cf_TCPFrontendHost cfg = cf_TCPFrontendHost cfg0"
    "dm_httpListener d0 = None" "dm_httpsListener d0 = None"
proof -
  define cfg where "cfg = (if cf_StatePath cfg0 = []
      then cfg0\<lparr>cf_StatePath := DefaultStatePath (ne_UserConfigDir N) (ne_UserHomeDir N)\<rparr> else cfg0)"
  have same: "cf_LeaseTTL cfg = cf_LeaseTTL cfg0" "cf_TCPFrontendMin cfg = cf_TCPFrontendMin cfg0"
    "cf_TCPFrontendMax cfg = cf_TCPFrontendMax cfg0" "cf_TCPFrontendHost cfg = cf_TCPFrontendHost cfg0"
    by (simp_all add: cfg_def)
  note eq = assms [unfolded Daemon_New_def Let_def, folded cfg_def]
  have v: "Config_Validate cfg0 = None" using eq by (cases "Config_Validate cfg0") auto
  obtain st where L: "Load (ne_io N) files (cf_StatePath cfg) = (files', Inr st)"
  proof (cases "Load (ne_io N) files (cf_StatePath cfg)")
    case (Pair f r)
    with eq v that show thesis
      by (cases r) (auto split: sum.splits option.splits prod.splits if_splits)
  qed
  show thesis
    using eq v L same by (auto split: sum.splits option.splits prod.splits if_splits intro!: that)
qed

lemma dm_inv_New:
  assumes "Daemon_New N cfg files lns = (files', lns', Inr d)" "distinct lns"
  shows "dm_inv G d"
  using assms(1)
proof (cases rule: Daemon_New_cases)
  case (1 st scheme port cfg d0)
  have "distinct (wd_listeners (dm_world d0))" using 1 assms(2) by simp
  note b = bind_cases [OF 1(3) this]
  show ?thesis using 1 b
    by (auto simp: dm_inv_def hosts_unique_def NewRegistry_def reg_wf_def Lease_Get_def NewLeaseManager_def
        lease_wf_def router_wf_New intro: rm_inv_New)
qed

interpretation daemon: inv_system sys_init "sys_step G" "\<lambda>s. dm_inv G (fst s)" for G
proof unfold_locales
  fix s assume "sys_init s"
  then show "dm_inv G (fst s)" using dm_inv_New by (auto simp: sys_init_def)
next
  fix s t assume "dm_inv G (fst s)" "sys_step G s t"
  then show "dm_inv G (fst t)"
    using dm_inv_event [of G "fst s" _ "snd s" "fst t" "snd t"] by (auto simp: sys_step_def)
qed

lemma run_steps: "\<forall>ev \<in> set evs. same_table G ev \<Longrightarrow> (sys_step G)\<^sup>*\<^sup>* s (run evs s)"
  unfolding run_def
proof (induction evs arbitrary: s)
  case (Cons ev evs)
  have "sys_step G s (apply_ev ev s)" using Cons.prems by (auto simp: sys_step_def)
  moreover have "(sys_step G)\<^sup>*\<^sup>* (apply_ev ev s) (fold apply_ev evs (apply_ev ev s))"
    using Cons by simp
  ultimately show ?case by (simp add: converse_rtranclp_into_rtranclp)
qed simp

subsection \<open>Frontends are immutable\<close>

lemma publish_same_service:
  assumes "dm_inv G d" "reg_reject R p d = None" "env_ToLower (re_go R) = env_ToLower G"
    and F: "reg_frontend R p (pl_kind (reg_plan R p d)) (pl_hostname (reg_plan R p d)) (retired R p d) = (d1, Inr fe)"
    and rec: "mget (services (dm_Registry d)) (rp_Name p) = Some rec"
  shows "same_service rec (plan_record R p (reg_plan R p d) fe)"
proof -
  let ?pl = "reg_plan R p d"
  note rej = reg_reject_None [OF assms(2)]
  have inv: "rec_inv G d (rp_Name p) rec" using assms(1) rec by (simp add: dm_inv_def)
  have k: "sr_Kind rec = pl_kind ?pl" and h: "pl_kind ?pl = KindHTTP \<Longrightarrow> sr_Hostname rec = pl_hostname ?pl"
    using rej(6) rec by (auto simp: reg_conflict_def Registry_Resolve_mget)
  have rm: "rm_inv (dm_Runtime (retired R p d)) (dm_world (retired R p d))" using assms(1) by (simp add: dm_inv_def)
  show ?thesis
  proof (cases "pl_kind ?pl = KindHTTP")
    case True
    have "FrontendURL (re_go R) (dm_HTTP d) h' = FrontendURL G (dm_HTTP d) h'" for h'
      by (rule FrontendURL_cong) (simp_all add: assms(3))
    then show ?thesis
      using True k h inv reg_frontend_runtime(4) [OF F rm True refl] by (simp add: same_service_def rec_inv_def)
  next
    case False
    then have tcp: "sr_Kind rec = KindTCP" using k rej(2) by simp
    then obtain rt where rt: "Runtime_Get (dm_Runtime d) (rp_Name p) = Some rt" "rt_Frontend rt = sr_Frontend rec"
      using inv by (auto simp: rec_inv_def)
    then have "EnsureTCPRuntime (re_io R) (re_bindable R) (rp_Name p) (rp_PreferredPort p)
        (dm_Runtime d) (dm_world d) = (dm_Runtime d, dm_world d, Inr rt)"
      by (simp add: EnsureTCPRuntime_def Runtime_Get_def)
    then have "fe = rt_Frontend rt" using F False by (simp add: reg_frontend_def)
    then show ?thesis using False k tcp rt inv by (simp add: same_service_def rec_inv_def)
  qed
qed

lemma Register_same_service:
  assumes "dm_inv G d" "env_ToLower (re_go R) = env_ToLower G" "Register R p d = (d', r)"
    and "mget (services (dm_Registry d)) n = Some rec"
  shows "\<exists>rec'. mget (services (dm_Registry d')) n = Some rec' \<and> same_service rec rec'"
proof -
  have pub: "\<exists>rec'. mget (services (dm_Registry (reg_publish R p (reg_plan R p d) fe d1))) n = Some rec' \<and>
      same_service rec rec'"
    if "reg_reject R p d = None"
      and "reg_frontend R p (pl_kind (reg_plan R p d)) (pl_hostname (reg_plan R p d)) (retired R p d) = (d1, Inr fe)"
    for fe d1
    using publish_same_service [OF assms(1) that(1) assms(2) that(2)] assms(4) reg_frontend_keeps(1) [OF that(2)]
    by (auto simp: same_service_def)
  show ?thesis
    using assms(3)
  proof (cases rule: Register_cases)
    case (unallocated c d1)
    then show ?thesis using assms(4) reg_frontend_keeps(1) [OF unallocated(3)] by (auto simp: same_service_def)
  qed (use assms(4) pub in \<open>auto simp: same_service_def\<close>)
qed

lemma end_same_service:
  "mget (services (dm_Registry d)) n = Some rec \<Longrightarrow>
     \<exists>rec'. mget (services (dm_Registry (fst (endPublication now name pid d)))) n = Some rec' \<and> same_service rec rec'"
  by (simp add: ClearBackendIf_mget same_service_def)

lemma event_same_service:
  assumes "dm_inv G d" "same_table G ev" "apply_ev ev (d, P) = (d', P')"
    and "mget (services (dm_Registry d)) n = Some rec"
  shows "\<exists>rec'. mget (services (dm_Registry d')) n = Some rec' \<and> same_service rec rec'"
proof (cases ev)
  case (EvRegister R p)
  then show ?thesis using assms Register_same_service [of G d R p] by (cases "Register R p d") auto
next
  case (EvHeartbeat now rid token)
  then have "dm_Registry d' = dm_Registry d" using assms(3) Heartbeat_simps(1) by auto
  then show ?thesis using assms(4) by (simp add: same_service_def)
next
  case (EvDelete rid token)
  then have "dm_Registry d' = dm_Registry d" using assms(3) by (auto split: option.splits prod.splits)
  then show ?thesis using assms(4) by (simp add: same_service_def)
next
  case (EvSweep now)
  then have "dm_Registry d' = dm_Registry d" using assms(3) by (auto split: prod.splits)
  then show ?thesis using assms(4) by (simp add: same_service_def)
next
  case (EvEnd now name pid)
  then show ?thesis using assms(3,4) end_same_service by (fastforce simp: same_service_def split: if_splits)
next
  case (EvForget now name ownerKey cid)
  then show ?thesis using assms(3,4) end_same_service by (auto simp: ForgetDockerPublication_def)
qed

lemma same_service_trans: "same_service a b \<Longrightarrow> same_service b c \<Longrightarrow> same_service a c"
  by (simp add: same_service_def)

lemma run_same_service:
  assumes "dm_inv G (fst s)" "\<forall>ev \<in> set evs. same_table G ev" "mget (services (dm_Registry (fst s))) n = Some rec"
  shows "\<exists>rec'. mget (services (dm_Registry (fst (run evs s)))) n = Some rec' \<and> same_service rec rec'"
  using assms
proof (induction evs arbitrary: s rec)
  case Nil
  then show ?case by (simp add: run_def same_service_def)
next
  case (Cons ev evs)
  obtain d' P' where a: "apply_ev ev (fst s, snd s) = (d', P')" by fastforce
  have ev: "same_table G ev" using Cons.prems by simp
  obtain rec1 where r1: "mget (services (dm_Registry d')) n = Some rec1" "same_service rec rec1"
    using event_same_service [OF Cons.prems(1) ev a Cons.prems(3)] by blast
  have "dm_inv G (fst (d', P'))" using dm_inv_event [OF Cons.prems(1) ev a] by simp
  from Cons.IH [OF this] Cons.prems(2) r1(1)
  obtain rec2 where "mget (services (dm_Registry (fst (run evs (d', P'))))) n = Some rec2" "same_service rec1 rec2"
    by auto
  then show ?case using a r1(2) by (auto simp: run_def intro: same_service_trans)
qed

subsection \<open>Sample runs\<close>

lemma sample_New: "Daemon_New sample_new sample_cfg Map.empty [] = (Map.empty, [], Inr sample_daemon)"
proof -
  have "Config_Validate sample_cfg = None"
    by (simp add: sample_cfg_def Config_Validate_def Default_def)
  moreover have "listenerPort ''127.0.0.1:8088'' = Some 8088" by code_simp
  ultimately show ?thesis
    by (simp add: Daemon_New_def sample_cfg_def Default_def sample_new_def Load_def calm_def loadTLS_def
        bindProxyListeners_def sample_daemon_def Let_def)
qed

lemma sample_backend_ok: "ValidateBackend sample_go sample_backend = None"
proof -
  have "IsLoopbackHost sample_go ''127.0.0.1'' \<and> TrimSpace ''127.0.0.1'' \<noteq> []"
    by (simp add: sample_go_def) code_simp
  then show ?thesis by (simp add: ValidateBackend_def sample_backend_def)
qed

lemma tcp_params_simps [simp]:
  "rp_Name (tcp_params n q t) = n" "rp_Kind (tcp_params n q t) = ''tcp''" "rp_Backend (tcp_params n q t) = sample_backend"
  "rp_PreferredPort (tcp_params n q t) = q" "rp_TTLSeconds (tcp_params n q t) = t"
  "rp_Source (tcp_params n q t) = ''process''" "rp_OwnerKey (tcp_params n q t) = []"
  "rp_RegistrationID (tcp_params n q t) = []"
  by (simp_all add: tcp_params_def)

lemma sample_reg_simps [simp]:
  "re_go (sample_reg t ms) = sample_go" "re_io (sample_reg t ms) = calm" "re_bindable (sample_reg t ms) = (\<lambda>_. True)"
  "re_lease_now (sample_reg t ms) = t" "re_ms (sample_reg t ms) = ms" "re_id_bytes (sample_reg t ms) = []"
  "re_token_bytes (sample_reg t ms) = Some ''k''"
  by (simp_all add: sample_reg_def)

lemma sample_Register:
  fixes ms :: nat
  assumes "ValidateName name = None" "3 \<le> ttl" "ttl \<le> 3600"
    and "mget (services (dm_Registry d)) name = None" "mget (rm_runtimes (dm_Runtime d)) name = None"
    and "remembered_port (dm_world d) name = 0" "preferred \<noteq> 0"
    and "can_bind (\<lambda>_. True) (rm_alloc (dm_Runtime d)) (dm_world d) preferred"
  defines "rid \<equiv> newID ms []"
  shows "\<exists>d' res rec. Register (sample_reg now ms) (tcp_params name preferred ttl) d = (d', Inr res) \<and>
    rr_RegistrationID res = rid \<and> rr_Name res = name \<and>
    services (dm_Registry d') = mput name rec (services (dm_Registry d)) \<and>
    sr_ProducerID rec = rid \<and> sr_OwnerKey rec = ''process:'' @ rid \<and> sr_Status rec = StatusReady \<and>
    sr_Source rec = ''process'' \<and> sr_Kind rec = ''tcp'' \<and> sr_Backend rec = Some sample_backend \<and>
    fe_Port (sr_Frontend rec) = preferred \<and>
    dm_Lease d' = fst (AddWithTTL now (dm_Lease d) rid name (''process:'' @ rid) (hex_EncodeToString ''k'') (ttl * Second))"
proof -
  let ?R = "sample_reg now ms" and ?p = "tcp_params name preferred ttl"
  have ttl: "reg_ttl (dm_cfg d) SourceProcess ttl = ttl * Second"
    using assms(2,3) by (simp add: reg_ttl_def)
  have plan: "reg_plan ?R ?p d = \<lparr>pl_kind = ''tcp'', pl_source = ''process'', pl_ttl = ttl * Second, pl_hostname = [],
      pl_regID = rid, pl_ownerKey = ''process:'' @ rid, pl_producerID = rid\<rparr>"
    using ttl by (simp add: reg_plan_def reg_hostname_def rid_def Let_def)
  have rej: "reg_reject ?R ?p d = None"
    using assms(1-4) sample_backend_ok
    by (simp add: reg_reject_def plan Let_def reg_hostname_def reg_conflict_def Registry_Resolve_mget CheckOwnership_def)
  have "\<not> (io_MkdirErr calm \<or> io_CreateErr calm \<or> io_WriteErr calm \<or> io_SyncErr calm \<or> io_CloseErr calm \<or> io_RenameErr calm)"
    by (simp add: calm_def)
  from Ensure_preferred [OF assms(5-8) this] obtain m w rt
    where E: "EnsureTCPRuntime calm (\<lambda>_. True) name preferred (dm_Runtime d) (dm_world d) = (m, w, Inr rt)"
      and fe: "fe_Port (rt_Frontend rt) = preferred" by auto
  have ret: "retired ?R ?p d = d" using assms(4) by (simp add: retired_def reg_retire_def Registry_Resolve_mget)
  have F: "reg_frontend ?R ?p (pl_kind (reg_plan ?R ?p d)) (pl_hostname (reg_plan ?R ?p d)) (retired ?R ?p d) =
      (d\<lparr>dm_Runtime := m, dm_world := w\<rparr>, Inr (rt_Frontend rt))"
    by (simp add: reg_frontend_def plan ret E)
  obtain d' r where reg: "Register ?R ?p d = (d', r)" by fastforce
  then show ?thesis
  proof (cases rule: Register_cases)
    case (leased fe' d1 token l e)
    have "fe' = rt_Frontend rt" "d1 = d\<lparr>dm_Runtime := m, dm_world := w\<rparr>" using leased(2) F by simp_all
    moreover have "token = hex_EncodeToString ''k''" using leased(4) by (simp add: NewToken_def)
    moreover have "l = fst (AddWithTTL now (dm_Lease d) rid name (''process:'' @ rid) token (ttl * Second))"
      using leased(5) \<open>d1 = _\<close> by (simp add: plan)
    ultimately show ?thesis
      using reg leased(6,7) fe
      by (intro exI [of _ d'] exI exI [of _ "plan_record ?R ?p (reg_plan ?R ?p d) (rt_Frontend rt)"])
         (auto simp: reg_publish_def plan)
  qed (use rej F plan in auto)
qed

text \<open>C1: The frontend of a service is stable. Once a service has been registered, its
  record never disappears and its kind, hostname and frontend never change, whatever
  registrations, heartbeats, removals, sweeps and Docker events follow, in any order and
  interleaving.\<close>

theorem frontend_immutable:
  assumes "Daemon_New N cfg files lns = (files', lns', Inr d0)" and "distinct lns"
    and "\<forall>ev \<in> set (evs @ later). same_table G ev"
    and "Registry_Resolve (dm_Registry (fst (run evs (d0, [])))) name = Some rec"
  shows "\<exists>rec'. Registry_Resolve (dm_Registry (fst (run (evs @ later) (d0, [])))) name = Some rec' \<and>
    sr_Kind rec' = sr_Kind rec \<and> sr_Hostname rec' = sr_Hostname rec \<and> sr_Frontend rec' = sr_Frontend rec"
proof -
  have "dm_inv G (fst (d0, []))" using dm_inv_New [OF assms(1,2)] by simp
  then have inv: "dm_inv G (fst (run evs (d0, [])))"
    using daemon.steps_inv [OF run_steps] assms(3) by fastforce
  have "\<forall>ev \<in> set later. same_table G ev" using assms(3) by simp
  from run_same_service [OF inv this] assms(4) show ?thesis
    by (auto simp: same_service_def run_def Registry_Resolve_mget)
qed

lemma db_valid: "ValidateName ''db'' = None"
  by code_simp

lemma sample_can_bind: "can_bind (\<lambda>_. True) (rm_alloc (dm_Runtime sample_daemon)) (dm_world sample_daemon) 16000"
  by (simp add: can_bind_def sample_daemon_def)

lemma sample_fresh:
  "mget (services (dm_Registry sample_daemon)) n = None" "mget (rm_runtimes (dm_Runtime sample_daemon)) n = None"
  "remembered_port (dm_world sample_daemon) n = 0"
  by (simp_all add: sample_daemon_def NewRegistry_def NewRuntimeManager_def remembered_port_def Port_def ports_of_def)

lemma sample_registered:
  assumes "3 \<le> ttl" "ttl \<le> 3600"
  shows "\<exists>rec. services (dm_Registry (sample_registered now ttl)) = [(''db'', rec)] \<and>
    sr_ProducerID rec = newID 1 [] \<and> sr_OwnerKey rec = ''process:'' @ newID 1 [] \<and> sr_Status rec = StatusReady \<and>
    sr_Source rec = ''process'' \<and> sr_Kind rec = ''tcp'' \<and> sr_Backend rec = Some sample_backend \<and>
    fe_Port (sr_Frontend rec) = 16000"
    and "dm_Lease (sample_registered now ttl) = fst (AddWithTTL now (dm_Lease sample_daemon) (newID 1 []) ''db''
      (''process:'' @ newID 1 []) (hex_EncodeToString ''k'') (ttl * Second))"
proof -
  have "(16000 :: int) \<noteq> 0" by simp
  note reg = sample_Register [OF db_valid assms sample_fresh(1-3) this sample_can_bind, of now 1]
  have e: "services (dm_Registry sample_daemon) = []" by (simp add: sample_daemon_def NewRegistry_def)
  show "\<exists>rec. services (dm_Registry (sample_registered now ttl)) = [(''db'', rec)] \<and>
    sr_ProducerID rec = newID 1 [] \<and> sr_OwnerKey rec = ''process:'' @ newID 1 [] \<and> sr_Status rec = StatusReady \<and>
    sr_Source rec = ''process'' \<and> sr_Kind rec = ''tcp'' \<and> sr_Backend rec = Some sample_backend \<and>
    fe_Port (sr_Frontend rec) = 16000"
    using reg unfolding sample_registered_def e by (auto simp: mput_def)
  show "dm_Lease (sample_registered now ttl) = fst (AddWithTTL now (dm_Lease sample_daemon) (newID 1 []) ''db''
      (''process:'' @ newID 1 []) (hex_EncodeToString ''k'') (ttl * Second))"
    using reg unfolding sample_registered_def by auto
qed

theorem frontend_immutable_witness:
  "\<exists>rec'. Registry_Resolve (dm_Registry (fst (run
     [EvRegister (sample_reg 5 1) (tcp_params ''db'' 16000 3), EvSweep (10 * Second), EvEnd 11 ''db'' (newID 1 [])]
     (sample_daemon, [])))) ''db'' = Some rec' \<and> fe_Port (sr_Frontend rec') = 16000"
proof -
  let ?evs = "[EvRegister (sample_reg 5 1) (tcp_params ''db'' 16000 3)]"
  let ?later = "[EvSweep (10 * Second), EvEnd 11 ''db'' (newID 1 [])]"
  have t: "\<forall>ev \<in> set (?evs @ ?later). same_table sample_go ev" by (simp add: sample_reg_def)
  have d: "distinct ([] :: string list)" by simp
  obtain rec where rec: "services (dm_Registry (sample_registered 5 3)) = [(''db'', rec)]"
      and fe: "fe_Port (sr_Frontend rec) = 16000"
    using sample_registered(1) [of 3 5] by auto
  have "Registry_Resolve (dm_Registry (fst (run ?evs (sample_daemon, [])))) ''db'' = Some rec"
    using rec by (simp add: run_def Registry_Resolve_mget sample_registered_def)
  from frontend_immutable [OF sample_New d t this] fe show ?thesis by auto
qed

lemma sample_daemon_reach: "reach sys_init (sys_step G) (sample_daemon, [])"
  using sample_New distinct.simps(1) unfolding sys_init_def by (intro reach_init) fastforce

lemma sample_registered_reach: "reach sys_init (sys_step sample_go) (sample_registered 5 3, [])"
proof -
  note sample_daemon_reach
  moreover have "sys_step sample_go (sample_daemon, []) (sample_registered 5 3, [])"
    unfolding sys_step_def
    by (rule exI [of _ "EvRegister (sample_reg 5 1) (tcp_params ''db'' 16000 3)"])
       (simp add: sample_registered_def sample_reg_def)
  ultimately show ?thesis by (rule reach_step)
qed

text \<open>C2: What the daemon publishes is real. In every reachable state, the frontend of a
  TCP service is the address of an open listener of its own runtime, and a connection to
  it is sent to the record's backend; an HTTP service has a route for its hostname and no
  other service has the same hostname; every installed backend has a valid port and was
  verified to be on the loopback interface; and a service is ready exactly while it has a
  backend.\<close>

theorem published_services_real:
  assumes "reach sys_init (sys_step G) (d, P)" and "Registry_Resolve (dm_Registry d) name = Some rec"
  shows "(sr_Kind rec = KindTCP \<or> sr_Kind rec = KindHTTP) \<and>
    (sr_Kind rec = KindTCP \<longrightarrow>
      (\<exists>rt. Runtime_Get (dm_Runtime d) name = Some rt \<and> rt_Frontend rt = sr_Frontend rec) \<and>
      Frontend_Addr (sr_Frontend rec) \<in> set (wd_listeners (dm_world d)) \<and>
      tcp_provider (dm_Registry d) name = sr_Backend rec) \<and>
    (sr_Kind rec = KindHTTP \<longrightarrow>
      Router_Lookup G (dm_HTTP d) (sr_Hostname rec) \<noteq> None \<and>
      (\<forall>name' rec'. Registry_Resolve (dm_Registry d) name' = Some rec' \<longrightarrow>
         sr_Hostname rec' = sr_Hostname rec \<longrightarrow> name' = name)) \<and>
    (\<forall>b. sr_Backend rec = Some b \<longrightarrow> 1 \<le> be_Port b \<and> be_Port b \<le> 65535 \<and> (\<exists>G. IsLoopbackHost G (be_Host b))) \<and>
    (sr_Status rec = StatusReady \<longleftrightarrow> sr_Backend rec \<noteq> None)"
proof -
  have inv: "dm_inv G d" using daemon.reach_inv [OF assms(1)] by simp
  have rec: "mget (services (dm_Registry d)) name = Some rec"
    using assms(2) by (simp add: Registry_Resolve_mget)
  have ri: "rec_inv G d name rec" using inv rec by (simp add: dm_inv_def)
  have ok: "rec_ok name rec" using inv rec reg_wf_mget by (auto simp: dm_inv_def)
  have 1: "sr_Kind rec = KindTCP \<or> sr_Kind rec = KindHTTP" using ri by (simp add: rec_inv_def)
  have 2: "(\<exists>rt. Runtime_Get (dm_Runtime d) name = Some rt \<and> rt_Frontend rt = sr_Frontend rec) \<and>
      Frontend_Addr (sr_Frontend rec) \<in> set (wd_listeners (dm_world d)) \<and>
      tcp_provider (dm_Registry d) name = sr_Backend rec" if "sr_Kind rec = KindTCP"
  proof -
    obtain rt where rt: "Runtime_Get (dm_Runtime d) name = Some rt" "rt_Frontend rt = sr_Frontend rec"
      using ri \<open>sr_Kind rec = KindTCP\<close> by (auto simp: rec_inv_def)
    have "rt_ok (dm_Runtime d) (dm_world d) name rt" using inv rt(1) rm_inv_get by (auto simp: dm_inv_def)
    then show ?thesis
      using rt assms(2) ok by (auto simp: rt_ok_def Runtime_Endpoint_def tcp_provider_def rec_ok_def)
  qed
  have 3: "Router_Lookup G (dm_HTTP d) (sr_Hostname rec) \<noteq> None \<and>
      (\<forall>name' rec'. Registry_Resolve (dm_Registry d) name' = Some rec' \<longrightarrow>
         sr_Hostname rec' = sr_Hostname rec \<longrightarrow> name' = name)" if "sr_Kind rec = KindHTTP"
    using ri inv rec that unfolding dm_inv_def hosts_unique_def rec_inv_def Registry_Resolve_mget by metis
  have 4: "1 \<le> be_Port b \<and> be_Port b \<le> 65535 \<and> (\<exists>G. IsLoopbackHost G (be_Host b))" if "sr_Backend rec = Some b" for b
    using ri that by (simp add: rec_inv_def backend_ok_def)
  have 5: "sr_Status rec = StatusReady \<longleftrightarrow> sr_Backend rec \<noteq> None" using ok by (simp add: rec_ok_def)
  show ?thesis using 1 2 3 4 5 by blast
qed

theorem published_services_real_witness:
  "\<exists>d P rec. reach sys_init (sys_step sample_go) (d, P) \<and> Registry_Resolve (dm_Registry d) ''db'' = Some rec \<and>
     Frontend_Addr (sr_Frontend rec) \<in> set (wd_listeners (dm_world d))"
proof -
  let ?d = "sample_registered 5 3"
  obtain rec where s: "services (dm_Registry ?d) = [(''db'', rec)]" and k: "sr_Kind rec = KindTCP"
    using sample_registered(1) [of 3 5] by auto
  have rec: "Registry_Resolve (dm_Registry ?d) ''db'' = Some rec"
    using s by (simp add: Registry_Resolve_mget)
  from published_services_real [OF sample_registered_reach rec] k sample_registered_reach rec show ?thesis by blast
qed

end
