(* ===== verification/Daemon_Leases.thy ===== *)
theory Daemon_Leases
  imports Daemon_Events
begin

text \<open>
  The life of a publication: while heartbeats arrive in time, every ready service of a
  process or manual source is covered by a lease or is already waiting to be ended, so a
  sweep leaves no service ready whose lease has run out. A heartbeat that arrives after
  the lease has expired but before the sweeper has seen it breaks this, and the theorems
  on orphans show the consequence. The operations \<open>DeleteRegistration\<close> and \<open>sweepLeases\<close>
  are shown to be the sequences of events they are split into.
\<close>

section \<open>Definitions\<close>

definition leased_source :: "ServiceRecord \<Rightarrow> bool" where
  "leased_source rec \<longleftrightarrow> sr_Source rec \<noteq> SourceDocker"

definition covered :: "sys \<Rightarrow> string \<Rightarrow> ServiceRecord \<Rightarrow> bool" where
  "covered s name rec \<longleftrightarrow>
     (\<exists>e. Lease_Get (dm_Lease (fst s)) (sr_ProducerID rec) = Some e \<and> le_Name e = name) \<or>
     (name, sr_ProducerID rec) \<in> set (snd s)"

definition tracked :: "sys \<Rightarrow> bool" where
  "tracked s \<longleftrightarrow>
     (\<forall>name rec. mget (services (dm_Registry (fst s))) name = Some rec \<longrightarrow> live rec \<longrightarrow> leased_source rec \<longrightarrow>
        covered s name rec)"

definition pids_unique :: "Daemon \<Rightarrow> bool" where
  "pids_unique d \<longleftrightarrow>
     (\<forall>n1 r1 n2 r2. mget (services (dm_Registry d)) n1 = Some r1 \<longrightarrow> mget (services (dm_Registry d)) n2 = Some r2 \<longrightarrow>
        leased_source r1 \<longrightarrow> leased_source r2 \<longrightarrow> sr_ProducerID r1 = sr_ProducerID r2 \<longrightarrow> n1 = n2)"

text \<open>
  The events of a history in which the random source works (new identifiers are new,
  tokens can be generated) and no heartbeat comes after its lease's expiry.
\<close>

fun timely :: "event \<Rightarrow> sys \<Rightarrow> bool" where
  "timely (EvRegister R p) (d, P) \<longleftrightarrow>
     pl_source (reg_plan R p d) = SourceDocker \<or>
     (re_token_bytes R \<noteq> None \<and> Lease_Get (dm_Lease d) (pl_regID (reg_plan R p d)) = None \<and>
      (\<forall>n rec. mget (services (dm_Registry d)) n = Some rec \<longrightarrow> sr_ProducerID rec \<noteq> pl_regID (reg_plan R p d)))"
| "timely (EvHeartbeat now rid token) (d, P) \<longleftrightarrow>
     (\<forall>e. Lease_Get (dm_Lease d) rid = Some e \<longrightarrow> now < le_ExpiresAt e)"
| "timely _ s \<longleftrightarrow> True"

fun timely_run :: "event list \<Rightarrow> sys \<Rightarrow> bool" where
  "timely_run [] s \<longleftrightarrow> True"
| "timely_run (ev # evs) s \<longleftrightarrow> timely ev s \<and> timely_run evs (apply_ev ev s)"

definition flush :: "gotime \<Rightarrow> sys \<Rightarrow> sys" where
  "flush t s = run (map (\<lambda>(name, pid). EvEnd t name pid) (snd s)) s"

text \<open>A ready service that nothing will ever end.\<close>

definition orphan :: "sys \<Rightarrow> string \<Rightarrow> ServiceRecord \<Rightarrow> bool" where
  "orphan s name rec \<longleftrightarrow>
     mget (services (dm_Registry (fst s))) name = Some rec \<and> live rec \<and> leased_source rec \<and>
     Lease_Get (dm_Lease (fst s)) (sr_ProducerID rec) = None \<and> (name, sr_ProducerID rec) \<notin> set (snd s)"

text \<open>
  Events of other producers: no registration under the orphan's owner key (the key of an
  API registration contains its fresh identifier), none reusing its identifier, and no
  container with this identifier.
\<close>

fun foreign :: "string \<Rightarrow> ServiceRecord \<Rightarrow> event \<Rightarrow> Daemon \<Rightarrow> bool" where
  "foreign name rec (EvRegister R p) d \<longleftrightarrow>
     pl_ownerKey (reg_plan R p d) \<noteq> sr_OwnerKey rec \<and> pl_regID (reg_plan R p d) \<noteq> sr_ProducerID rec"
| "foreign name rec (EvForget t n k cid) d \<longleftrightarrow> cid \<noteq> sr_ProducerID rec"
| "foreign name rec _ d \<longleftrightarrow> True"

fun foreign_run :: "string \<Rightarrow> ServiceRecord \<Rightarrow> event list \<Rightarrow> sys \<Rightarrow> bool" where
  "foreign_run name rec [] s \<longleftrightarrow> True"
| "foreign_run name rec (ev # evs) s \<longleftrightarrow> foreign name rec ev (fst s) \<and> foreign_run name rec evs (apply_ev ev s)"

section \<open>Lemmas\<close>

subsection \<open>The split operations are sequences of events\<close>

lemma fst_EvEnd: "(name, pid) \<in> set P \<Longrightarrow> fst (apply_ev (EvEnd t name pid) (d, P)) = fst (endPublication t name pid d)"
  by simp

lemma flush_steps:
  "run (map (\<lambda>(name, pid). EvEnd t name pid) P) (d, P) =
     (fold (\<lambda>(name, pid) d. fst (endPublication t name pid d)) P d, [])"
  unfolding run_def
proof (induction P arbitrary: d)
  case (Cons x P)
  obtain n q where [simp]: "x = (n, q)" by fastforce
  show ?case using Cons.IH by simp
qed simp

lemma fold_pairs:
  "fold (\<lambda>(name, pid) d. f name pid d) (map (\<lambda>e. (g e, h e)) es) d = fold (\<lambda>e d. f (g e) (h e) d) es d"
  by (induction es arbitrary: d) auto

text \<open>The lease sweeper does exactly this: it takes the expired leases, then ends
  the publication of each. Deleting a registration is taking its lease and then ending
  its publication, and its rejections (unknown identifier, wrong token) end nothing.\<close>

theorem sweep_and_delete_as_events:
  "sweepLeases now t d = fst (flush t (apply_ev (EvSweep now) (d, []))) \<and>
   (snd (DeleteRegistration t rid token d) = None \<longleftrightarrow>
      (\<exists>e. Lease_Get (dm_Lease d) rid = Some e \<and> token = le_Token e)) \<and>
   fst (DeleteRegistration t rid token d) = fst (flush t (apply_ev (EvDelete rid token) (d, [])))"
proof (intro conjI)
  show "sweepLeases now t d = fst (flush t (apply_ev (EvSweep now) (d, [])))"
    by (simp add: sweepLeases_def flush_def flush_steps fold_pairs del: map_map split: prod.splits)
  show "snd (DeleteRegistration t rid token d) = None \<longleftrightarrow>
      (\<exists>e. Lease_Get (dm_Lease d) rid = Some e \<and> token = le_Token e)"
    by (auto simp: DeleteRegistration_def Lease_Delete_cases split: option.splits)
  show "fst (DeleteRegistration t rid token d) = fst (flush t (apply_ev (EvDelete rid token) (d, [])))"
    by (auto simp: DeleteRegistration_def Lease_Delete_cases flush_def flush_steps run_def split: option.splits)
qed

subsection \<open>Coverage is kept while heartbeats are in time\<close>

lemma registry_event:
  assumes "apply_ev ev (d, P) = (d', P')"
  shows "(\<nexists>R p. ev = EvRegister R p) \<Longrightarrow> mget (services (dm_Registry d')) n = Some rec' \<Longrightarrow>
    \<exists>rec. mget (services (dm_Registry d)) n = Some rec \<and> sr_ProducerID rec' = sr_ProducerID rec \<and>
      sr_Source rec' = sr_Source rec \<and> sr_OwnerKey rec' = sr_OwnerKey rec \<and> (live rec' \<longrightarrow> rec' = rec)"
proof -
  assume no: "\<nexists>R p. ev = EvRegister R p" and rec': "mget (services (dm_Registry d')) n = Some rec'"
  have clear: "\<exists>rec. mget (services (dm_Registry d)) n = Some rec \<and> sr_ProducerID rec' = sr_ProducerID rec \<and>
      sr_Source rec' = sr_Source rec \<and> sr_OwnerKey rec' = sr_OwnerKey rec \<and> (live rec' \<longrightarrow> rec' = rec)"
    if "mget (services (fst (ClearBackendIf t (dm_Registry d) name pid))) n = Some rec'" for t name pid
    using that by (auto simp: ClearBackendIf_mget live_def split: option.splits if_splits)
  show ?thesis
  proof (cases ev)
    case (EvEnd t name pid)
    then show ?thesis using assms rec' clear by (auto split: if_splits)
  next
    case (EvForget t name k cid)
    then show ?thesis using assms rec' clear by (auto simp: ForgetDockerPublication_def)
  next
    case (EvHeartbeat t rid token)
    then have "dm_Registry d' = dm_Registry d" using assms Heartbeat_simps(1) by auto
    then show ?thesis using rec' by simp
  next
    case (EvDelete rid token)
    then have "dm_Registry d' = dm_Registry d" using assms by (auto split: option.splits prod.splits)
    then show ?thesis using rec' by simp
  next
    case (EvSweep t)
    then have "dm_Registry d' = dm_Registry d" using assms by (auto split: prod.splits)
    then show ?thesis using rec' by simp
  qed (use no in blast)
qed

lemma cleared_not_live:
  assumes "mget (services (fst (ClearBackendIf t r n pid))) n = Some rec" "pid = sr_ProducerID rec"
  shows "\<not> live rec"
proof (cases "mget (services r) n")
  case (Some old)
  show ?thesis
  proof (cases "sr_ProducerID old = pid")
    case True
    with Some assms(1) have "rec = old\<lparr>sr_Backend := None, sr_Status := StatusUnavailable, sr_UpdatedAt := t\<rparr>"
      by (simp add: ClearBackendIf_mget)
    then show ?thesis by (simp add: live_def)
  next
    case False
    with Some assms show ?thesis by (simp add: ClearBackendIf_mget)
  qed
qed (use assms in \<open>simp add: ClearBackendIf_mget\<close>)

lemma covered_event:
  assumes "lease_wf (dm_Lease d)" "timely ev (d, P)" "apply_ev ev (d, P) = (d', P')" "\<nexists>R p. ev = EvRegister R p"
    and "covered (d, P) name rec" "mget (services (dm_Registry d')) name = Some rec" "live rec"
  shows "covered (d', P') name rec"
proof (cases ev)
  case (EvHeartbeat now rid token)
  then have "dm_Lease d' = fst (Renew now (dm_Lease d) rid token)" "P' = P"
    using assms(3) Heartbeat_simps(5) by auto
  then show ?thesis using EvHeartbeat assms(2,5) by (auto simp: covered_def Renew_get lease_live_def split: option.splits if_splits)
next
  case (EvDelete rid token)
  have "entry_ok rid e" if "Lease_Get (dm_Lease d) rid = Some e" for e
    using lease_wf_mget [OF assms(1)] that by (simp add: Lease_Get_def)
  then show ?thesis using EvDelete assms(3,5)
    by (fastforce simp: covered_def Lease_Delete_cases entry_ok_def split: option.splits if_splits)
next
  case (EvSweep now)
  have l: "dm_Lease d' = fst (TakeExpired now (dm_Lease d))"
    "P' = P @ map (\<lambda>e. (le_Name e, le_RegistrationID e)) (Lease_Expired now (dm_Lease d))"
    using EvSweep assms(3) TakeExpired_out [of now "dm_Lease d"] by (auto split: prod.splits)
  have wf: "mwf (lm_entries (dm_Lease d))" using assms(1) by (simp add: lease_wf_def)
  show ?thesis
  proof (cases "(name, sr_ProducerID rec) \<in> set P")
    case True
    then show ?thesis using l by (simp add: covered_def)
  next
    case False
    then obtain e where e: "Lease_Get (dm_Lease d) (sr_ProducerID rec) = Some e" "le_Name e = name"
      using assms(5) by (auto simp: covered_def)
    have id: "le_RegistrationID e = sr_ProducerID rec"
      using lease_wf_mget [OF assms(1)] e(1) by (auto simp: Lease_Get_def entry_ok_def)
    show ?thesis
    proof (cases "lease_live now e")
      case True
      then have "Lease_Get (dm_Lease d') (sr_ProducerID rec) = Some e"
        using e(1) l(1) TakeExpired_entries [OF wf] by (simp add: Lease_Get_def)
      then show ?thesis using e(2) by (auto simp: covered_def)
    next
      case False
      then have "e \<in> set (Lease_Expired now (dm_Lease d))"
        using Lease_Expired_set [OF assms(1)] e(1) id by simp
      then show ?thesis using l(2) e(2) id by (force simp: covered_def)
    qed
  qed
next
  case (EvEnd t n pid)
  show ?thesis
  proof (cases "n = name \<and> pid = sr_ProducerID rec \<and> (n, pid) \<in> set P")
    case True
    then have "mget (services (fst (ClearBackendIf t (dm_Registry d) name pid))) name = Some rec"
      using assms(3,6) EvEnd by auto
    then have "\<not> live rec" using cleared_not_live True by blast
    then show ?thesis using assms(7) by simp
  next
    case False
    then show ?thesis using assms(3,5) EvEnd by (auto simp: covered_def split: if_splits)
  qed
next
  case (EvForget t n k cid)
  then show ?thesis using assms(3,5) by (auto simp: covered_def ForgetDockerPublication_def)
qed (use assms(4) in blast)

lemma unallocated_new:
  assumes "dm_inv G d" "reg_reject R p d = None" "pl_kind (reg_plan R p d) \<noteq> KindHTTP"
    and F: "reg_frontend R p (pl_kind (reg_plan R p d)) h (retired R p d) = (d1, Inl c)"
  shows "retired R p d = d"
proof (cases "mget (services (dm_Registry d)) (rp_Name p)")
  case None
  then show ?thesis by (simp add: retired_def reg_retire_def Registry_Resolve_mget)
next
  case (Some rec)
  have "sr_Kind rec = pl_kind (reg_plan R p d)"
    using reg_reject_None(6) [OF assms(2)] Some by (auto simp: reg_conflict_def Registry_Resolve_mget)
  then have "sr_Kind rec = KindTCP" using assms(3) reg_reject_None(2) [OF assms(2)] by simp
  moreover have "rec_inv G d (rp_Name p) rec" using assms(1) Some by (simp add: dm_inv_def)
  ultimately obtain rt where "Runtime_Get (dm_Runtime d) (rp_Name p) = Some rt"
    by (auto simp: rec_inv_def)
  then have False using F assms(3) by (simp add: reg_frontend_def EnsureTCPRuntime_def Runtime_Get_def)
  then show ?thesis ..
qed

lemma covered_retired:
  assumes "covered (d, P) n rec" "pids_unique d" "mget (services (dm_Registry d)) n = Some rec" "leased_source rec"
    and "n \<noteq> rp_Name p"
  shows "covered (retired R p d, P) n rec"
proof -
  have "sr_ProducerID old \<noteq> sr_ProducerID rec"
    if "mget (services (dm_Registry d)) (rp_Name p) = Some old" "leased_source old" for old
    using assms(2-5) that unfolding pids_unique_def by metis
  moreover have "leased_source old" if "sr_Source old = SourceProcess \<or> sr_Source old = SourceManual" for old
    using that by (auto simp: leased_source_def)
  ultimately have "Lease_Get (dm_Lease (retired R p d)) (sr_ProducerID rec) = Lease_Get (dm_Lease d) (sr_ProducerID rec)"
    by (auto simp: retired_def reg_retire_def Registry_Resolve_mget split: option.splits)
  then show ?thesis using assms(1) by (simp add: covered_def)
qed

lemma pids_unique_lease: "pids_unique (d\<lparr>dm_Lease := l\<rparr>) = pids_unique d"
  by (simp add: pids_unique_def)

lemma publish_pids:
  assumes "pids_unique d" "dm_Registry d1 = dm_Registry d"
    and "pl_source pl = SourceDocker \<or>
      (\<forall>n rec. mget (services (dm_Registry d)) n = Some rec \<longrightarrow> sr_ProducerID rec \<noteq> pl_producerID pl)"
  shows "pids_unique (reg_publish R p pl fe d1)"
  using assms unfolding pids_unique_def
  by (auto simp: leased_source_def split: if_splits) metis+

lemma tracked_Register:
  assumes "dm_inv G d" "tracked (d, P)" "pids_unique d" "timely (EvRegister R p) (d, P)" "Register R p d = (d', r)"
  shows "tracked (d', P) \<and> pids_unique d'"
  using assms(5)
proof (cases rule: Register_cases)
  case (rejected c)
  then show ?thesis using assms by simp
next
  case (unallocated c d1)
  have "retired R p d = d" using unallocated_new [OF assms(1) unallocated(1,2,3)] .
  then have "dm_Registry d1 = dm_Registry d" "dm_Lease d1 = dm_Lease d"
    using reg_frontend_keeps [OF unallocated(3)] by simp_all
  then show ?thesis using assms(2,3) unallocated(4) by (simp add: tracked_def covered_def pids_unique_def)
next
  case (no_token fe d1)
  then show ?thesis using assms(4) by simp
next
  case (docker fe d1)
  let ?d2 = "reg_publish R p (reg_plan R p d) fe d1"
  have keep: "dm_Registry d1 = dm_Registry d" "dm_Lease d1 = dm_Lease (retired R p d)"
    using reg_frontend_keeps [OF docker(2)] by simp_all
  have "covered (?d2, P) n rec" if "mget (services (dm_Registry ?d2)) n = Some rec" "live rec" "leased_source rec" for n rec
  proof -
    have n: "n \<noteq> rp_Name p" using that docker(3) by (auto simp: leased_source_def)
    then have "mget (services (dm_Registry d)) n = Some rec" using that(1) keep by simp
    then have "covered (retired R p d, P) n rec"
      using assms(2,3) that n by (intro covered_retired) (auto simp: tracked_def)
    then show ?thesis by (simp add: covered_def keep)
  qed
  then show ?thesis
    using docker(3,4) publish_pids [OF assms(3) keep(1)] by (simp add: tracked_def)
next
  case (leased fe d1 token l e)
  let ?pl = "reg_plan R p d"
  let ?d2 = "reg_publish R p ?pl fe d1"
  have keep: "dm_Registry d1 = dm_Registry d" "dm_Lease d1 = dm_Lease (retired R p d)"
    using reg_frontend_keeps [OF leased(2)] by simp_all
  have fresh: "sr_ProducerID rec \<noteq> pl_regID ?pl" if "mget (services (dm_Registry d)) n = Some rec" for n rec
    using assms(4) leased(3) that by auto
  have pid: "pl_producerID ?pl = pl_regID ?pl" using leased(3) by (auto simp: reg_plan_def Let_def split: if_splits)
  have get: "Lease_Get l j = (if j = pl_regID ?pl then Some e else Lease_Get (dm_Lease d1) j)" for j
    using Lease_Get_Add [where m = "dm_Lease d1" and rid = "pl_regID ?pl" and j = j] leased(5)
    by (metis fst_conv snd_conv)
  have en: "le_Name e = rp_Name p" using leased(5) by (auto simp: AddWithTTL_def Let_def)
  have "covered (d', P) n rec" if "mget (services (dm_Registry d')) n = Some rec" "live rec" "leased_source rec" for n rec
  proof (cases "n = rp_Name p")
    case True
    then show ?thesis using that leased(6) en pid by (auto simp: covered_def get)
  next
    case n: False
    then have old: "mget (services (dm_Registry d)) n = Some rec" using that(1) keep leased(6) by simp
    then have "covered (retired R p d, P) n rec"
      using assms(2,3) that n by (intro covered_retired) (auto simp: tracked_def)
    then show ?thesis using leased(6) fresh [OF old] by (simp add: covered_def keep get)
  qed
  moreover have "pids_unique ?d2" using publish_pids [OF assms(3) keep(1)] fresh pid by simp
  then have "pids_unique d'" by (simp only: leased(6) pids_unique_lease)
  ultimately show ?thesis unfolding tracked_def by simp
qed

lemma tracked_event:
  assumes "dm_inv G d" "tracked (d, P)" "pids_unique d" "timely ev (d, P)" "apply_ev ev (d, P) = (d', P')"
  shows "tracked (d', P') \<and> pids_unique d'"
proof (cases "\<exists>R p. ev = EvRegister R p")
  case True
  then obtain R p where ev: "ev = EvRegister R p" by blast
  then show ?thesis
    using tracked_Register [of G d P R p] assms by (cases "Register R p d") auto
next
  case False
  have wf: "lease_wf (dm_Lease d)" using assms(1) by (simp add: dm_inv_def)
  note before = registry_event [OF assms(5) False]
  have "covered (d', P') n rec" if r: "mget (services (dm_Registry d')) n = Some rec" "live rec" "leased_source rec" for n rec
  proof -
    have old: "mget (services (dm_Registry d)) n = Some rec" using before [OF r(1)] r(2) by auto
    then have "covered (d, P) n rec" using assms(2) r by (simp add: tracked_def)
    then show ?thesis using covered_event [OF wf assms(4,5) False _ r(1,2)] by simp
  qed
  moreover have "pids_unique d'"
    unfolding pids_unique_def
  proof (intro allI impI)
    fix n1 r1 n2 r2
    assume a: "mget (services (dm_Registry d')) n1 = Some r1" "mget (services (dm_Registry d')) n2 = Some r2"
      "leased_source r1" "leased_source r2" "sr_ProducerID r1 = sr_ProducerID r2"
    obtain q1 q2 where "mget (services (dm_Registry d)) n1 = Some q1" "mget (services (dm_Registry d)) n2 = Some q2"
      "leased_source q1" "leased_source q2" "sr_ProducerID q1 = sr_ProducerID q2"
      using before [OF a(1)] before [OF a(2)] a(3-5) by (auto simp: leased_source_def)
    then show "n1 = n2" using assms(3) unfolding pids_unique_def by metis
  qed
  ultimately show ?thesis by (simp add: tracked_def)
qed

lemma tracked_run:
  assumes "dm_inv G (fst s)" "tracked s" "pids_unique (fst s)" "timely_run evs s" "\<forall>ev \<in> set evs. same_table G ev"
  shows "dm_inv G (fst (run evs s)) \<and> tracked (run evs s)"
  using assms
proof (induction evs arbitrary: s)
  case (Cons ev evs)
  obtain d P where s: "s = (d, P)" by fastforce
  obtain d' P' where a: "apply_ev ev (d, P) = (d', P')" by fastforce
  have "dm_inv G d'" using dm_inv_event [OF _ _ a] Cons.prems s by simp
  moreover have "tracked (d', P') \<and> pids_unique d'" using tracked_event [OF _ _ _ _ a] Cons.prems s by simp
  ultimately show ?case using Cons.IH [of "(d', P')"] Cons.prems s a by (simp add: run_def)
qed (simp add: run_def)

lemma flush_lease: "dm_Lease (fst (flush t s)) = dm_Lease (fst s)" and flush_pending: "snd (flush t s) = []"
proof -
  obtain d P where s: "s = (d, P)" by fastforce
  have "dm_Lease (fold (\<lambda>(name, pid) d. fst (endPublication t name pid d)) P d) = dm_Lease d"
    by (induction P arbitrary: d) auto
  then show "dm_Lease (fst (flush t s)) = dm_Lease (fst s)" "snd (flush t s) = []"
    by (simp_all add: s flush_def flush_steps)
qed

lemma timely_ends: "timely_run (map (\<lambda>(n, q). EvEnd t n q) xs) s"
  by (induction xs arbitrary: s) (auto split: prod.splits)



subsection \<open>Orphans\<close>

lemma orphan_event:
  assumes "dm_inv G d" "orphan (d, P) name rec" "foreign name rec ev d" "apply_ev ev (d, P) = (d', P')"
  shows "orphan (d', P') name rec"
proof -
  have o: "mget (services (dm_Registry d)) name = Some rec" "live rec" "leased_source rec"
    "Lease_Get (dm_Lease d) (sr_ProducerID rec) = None" "(name, sr_ProducerID rec) \<notin> set P"
    using assms(2) by (auto simp: orphan_def)
  have wf: "lease_wf (dm_Lease d)" using assms(1) by (simp add: dm_inv_def)
  have key: "le_RegistrationID e = rid" if "Lease_Get (dm_Lease d) rid = Some e" for rid e
    using lease_wf_mget [OF wf] that by (simp add: Lease_Get_def entry_ok_def)
  show ?thesis
  proof (cases ev)
    case (EvRegister R p)
    obtain r where reg: "Register R p d = (d', r)" and P': "P' = P"
      using assms(4) EvRegister by (cases "Register R p d") auto
    have own: "pl_ownerKey (reg_plan R p d) \<noteq> sr_OwnerKey rec" "pl_regID (reg_plan R p d) \<noteq> sr_ProducerID rec"
      using assms(3) EvRegister by auto
    have other: "rp_Name p \<noteq> name" if "reg_reject R p d = None"
      using reg_reject_None(7) [OF that] own(1) o(1,2) by (auto simp: CheckOwnership_None_iff live_def)
    have ret: "Lease_Get (dm_Lease (retired R p d)) (sr_ProducerID rec) = None"
      using retired_get [of R p d "sr_ProducerID rec"] o(4) by (cases "Lease_Get (dm_Lease (retired R p d)) (sr_ProducerID rec)") auto
    from reg show ?thesis
    proof (cases rule: Register_cases)
      case (rejected c)
      then show ?thesis using assms(2) P' by simp
    next
      case (unallocated c d1)
      then show ?thesis
        using o ret P' reg_frontend_keeps(1,2) [OF unallocated(3)] by (simp add: orphan_def)
    next
      case (no_token fe d1)
      then show ?thesis
        using o ret P' other reg_frontend_keeps(1,2) [OF no_token(2)] by (simp add: orphan_def)
    next
      case (docker fe d1)
      then show ?thesis
        using o ret P' other reg_frontend_keeps(1,2) [OF docker(2)] by (simp add: orphan_def)
    next
      case (leased fe d1 token l e)
      have "Lease_Get l (sr_ProducerID rec) = Lease_Get (dm_Lease d1) (sr_ProducerID rec)"
        using Lease_Get_Add [where m = "dm_Lease d1" and rid = "pl_regID (reg_plan R p d)" and j = "sr_ProducerID rec"]
          leased(5) own(2) by (metis fst_conv)
      then show ?thesis
        using o ret P' other leased(1,6) reg_frontend_keeps(1,2) [OF leased(2)] by (simp add: orphan_def)
    qed
  next
    case (EvHeartbeat now rid token)
    then have "dm_Lease d' = fst (Renew now (dm_Lease d) rid token)" "dm_Registry d' = dm_Registry d" "P' = P"
      using assms(4) Heartbeat_simps(1,5) by auto
    then show ?thesis using o by (simp add: orphan_def Renew_get)
  next
    case (EvDelete rid token)
    then show ?thesis using assms(4) o key
      by (auto simp: orphan_def Lease_Delete_cases split: option.splits if_splits)
  next
    case (EvSweep now)
    have "P' = P @ map (\<lambda>e. (le_Name e, le_RegistrationID e)) (Lease_Expired now (dm_Lease d))"
      "dm_Lease d' = fst (TakeExpired now (dm_Lease d))" "dm_Registry d' = dm_Registry d"
      using EvSweep assms(4) TakeExpired_out [of now "dm_Lease d"] by (auto split: prod.splits)
    moreover have "(name, sr_ProducerID rec) \<noteq> (le_Name e, le_RegistrationID e)"
      if "e \<in> set (Lease_Expired now (dm_Lease d))" for e
      using that Lease_Expired_set [OF wf] o(4) by auto
    moreover have "mwf (lm_entries (dm_Lease d))" using wf by (simp add: lease_wf_def)
    ultimately show ?thesis
      using o TakeExpired_entries [of "dm_Lease d" now "sr_ProducerID rec"] by (auto simp: orphan_def Lease_Get_def)
  next
    case (EvEnd t n pid)
    then show ?thesis using assms(4) o
      by (auto simp: orphan_def ClearBackendIf_mget dest: notin_set_remove1 split: if_splits)
  next
    case (EvForget t n k cid)
    then show ?thesis using assms(3,4) o
      by (auto simp: orphan_def ClearBackendIf_mget ForgetDockerPublication_def)
  qed
qed

lemma orphan_run:
  assumes "dm_inv G (fst s)" "orphan s name rec" "foreign_run name rec evs s" "\<forall>ev \<in> set evs. same_table G ev"
  shows "dm_inv G (fst (run evs s)) \<and> orphan (run evs s) name rec"
  using assms
proof (induction evs arbitrary: s)
  case (Cons ev evs)
  obtain d P where s: "s = (d, P)" by fastforce
  obtain d' P' where a: "apply_ev ev (d, P) = (d', P')" by fastforce
  have "dm_inv G d'" using dm_inv_event [OF _ _ a] Cons.prems s by simp
  moreover have "orphan (d', P') name rec" using orphan_event [OF _ _ _ a] Cons.prems s by simp
  ultimately show ?case using Cons.IH [of "(d', P')"] Cons.prems s a by (simp add: run_def)
qed (simp add: run_def)

lemma orphan_blocks:
  assumes "orphan (d, P) name rec" "rp_Name p = name" "pl_ownerKey (reg_plan R p d) \<noteq> sr_OwnerKey rec"
  shows "\<exists>c. Register R p d = (d, Inl c)"
proof -
  have "reg_reject R p d \<noteq> None"
    using reg_reject_None(7) [of R p d] assms by (auto simp: orphan_def CheckOwnership_None_iff live_def)
  then show ?thesis by (auto simp: Register_def registerLocked_plan)
qed

text \<open>C7: A heartbeat that comes after its lease has expired, but before the sweeper has
  taken the lease, leaves the service ready for ever. The heartbeat is answered with
  \<open>registration_not_found\<close> and removes the lease but does not end the publication; from
  then on, whatever other producers, the sweeper and the Docker watcher do, the record
  stays ready with the dead backend, and every registration of the name under another
  owner key is rejected, the one with which the same client tries to come back included.\<close>

theorem late_heartbeat_orphans_forever:
  assumes "reach sys_init (sys_step G) (d, P)"
    and "Registry_Resolve (dm_Registry d) name = Some rec" and "sr_Status rec = StatusReady"
    and "sr_Source rec \<noteq> SourceDocker"
    and "Lease_Get (dm_Lease d) (sr_ProducerID rec) = Some e" and "le_ExpiresAt e \<le> now"
    and "(name, sr_ProducerID rec) \<notin> set P"
    and "Heartbeat now (sr_ProducerID rec) token d = (d1, r)"
    and "\<forall>ev \<in> set evs. same_table G ev" and "foreign_run name rec evs (d1, P)"
    and "run evs (d1, P) = (d2, P2)"
  shows "r = Inl CodeRegistrationNotFound \<and> Registry_Resolve (dm_Registry d2) name = Some rec \<and>
    (\<forall>R p. rp_Name p = name \<longrightarrow> pl_ownerKey (reg_plan R p d2) \<noteq> sr_OwnerKey rec \<longrightarrow> (\<exists>c. Register R p d2 = (d2, Inl c)))"
proof -
  have inv: "dm_inv G d" using daemon.reach_inv [OF assms(1)] by simp
  have exp: "\<not> lease_live now e" using assms(6) by (simp add: lease_live_def)
  have ren: "Renew now (dm_Lease d) (sr_ProducerID rec) token =
      (Lease_Remove (dm_Lease d) (sr_ProducerID rec), Inl LeaseNotFound)"
    by (rule Renew_expired [OF assms(5) exp])
  then have r: "r = Inl CodeRegistrationNotFound" using assms(8) by (simp add: Heartbeat_def)
  have d1: "apply_ev (EvHeartbeat now (sr_ProducerID rec) token) (d, P) = (d1, P)" using assms(8) by simp
  have "dm_inv G d1" by (rule dm_inv_event [OF inv _ d1]) simp
  moreover have "orphan (d1, P) name rec"
    using assms(2-4,7,8) ren by (auto simp: orphan_def live_def leased_source_def Registry_Resolve_mget Heartbeat_def)
  ultimately have o: "orphan (d2, P2) name rec"
    using orphan_run [of G "(d1, P)" name rec evs] assms(9-11) by simp
  then have "Registry_Resolve (dm_Registry d2) name = Some rec"
    by (simp add: orphan_def Registry_Resolve_mget)
  with r orphan_blocks [OF o] show ?thesis by blast
qed

theorem late_heartbeat_orphans_forever_witness:
  "\<exists>d1 d2 rec. Heartbeat (4 * Second) (newID 1 []) (hex_EncodeToString ''k'') (sample_registered 5 3) = (d1, Inl CodeRegistrationNotFound) \<and>
     run [EvSweep (100 * Second)] (d1, []) = (d2, []) \<and>
     Registry_Resolve (dm_Registry d2) ''db'' = Some rec \<and> sr_Status rec = StatusReady"
proof -
  define d where "d = sample_registered 5 3"
  obtain rec where s1: "services (dm_Registry d) = [(''db'', rec)]"
      and rec: "sr_ProducerID rec = newID 1 []" "sr_Status rec = StatusReady" "sr_Source rec = ''process''"
    using sample_registered(1) [of 3 5] by (auto simp: d_def)
  have l: "dm_Lease d = fst (AddWithTTL 5 (dm_Lease sample_daemon) (newID 1 []) ''db''
      (''process:'' @ newID 1 []) (hex_EncodeToString ''k'') (3 * Second))"
    using sample_registered(2) [of 3 5] by (simp add: d_def)
  obtain e where e: "Lease_Get (dm_Lease d) (sr_ProducerID rec) = Some e" and ex: "le_ExpiresAt e \<le> 4 * Second"
    by (simp add: l rec Lease_Get_def AddWithTTL_def Let_def)
  have rch: "reach sys_init (sys_step sample_go) (d, [])" unfolding d_def by (rule sample_registered_reach)
  have q: "Registry_Resolve (dm_Registry d) ''db'' = Some rec" using s1 by (simp add: Registry_Resolve_mget)
  have src: "sr_Source rec \<noteq> SourceDocker" using rec(3) by simp
  obtain d1 r where hb: "Heartbeat (4 * Second) (sr_ProducerID rec) (hex_EncodeToString ''k'') d = (d1, r)" by fastforce
  have lm: "lm_entries (dm_Lease d1) = []"
    using hb by (auto simp: rec l Heartbeat_def Renew_def AddWithTTL_def Let_def sample_daemon_def NewLeaseManager_def mput_def
        Lease_Remove_def mdel_def lease_live_def split: prod.splits)
  have sweep: "run [EvSweep (100 * Second)] (d1, []) = (d1, [])"
    using lm by (simp add: run_def TakeExpired_def Let_def)
  have ok: "\<forall>ev \<in> set [EvSweep (100 * Second)]. same_table sample_go ev"
    "foreign_run ''db'' rec [EvSweep (100 * Second)] (d1, [])" "(''db'', sr_ProducerID rec) \<notin> set []" by simp_all
  note orphan = late_heartbeat_orphans_forever [OF rch q rec(2) src e ex ok(3) hb ok(1,2) sweep]
  show ?thesis using orphan hb sweep rec by (auto simp: d_def)
qed

end
