(* ===== verification/Service_Runtime.thy ===== *)
theory Service_Runtime
  imports Runtime_Manager
begin

text \<open>
  \<open>internal/runtime/service.go\<close>: one service runtime as a concurrent system. Its
  goroutines are the accept loop, one worker per admitted connection and the caller that
  closes the runtime (\<open>RemoveRuntime\<close> or \<open>Shutdown\<close> of the manager, which took it out
  of the map, so there is one). Each rule of \<open>svc_step\<close> is one atomic action of one of
  them; the semaphore, the wait group and the mutex-protected connection map are the
  shared state. A proxied connection ends at any time (\<open>worker_return\<close>), which the TCP
  theory refines.
\<close>

section \<open>Definitions\<close>

abbreviation (input) max_proxies :: nat where "max_proxies \<equiv> 4096"

type_synonym conn = nat

text \<open>Where the accept loop is (\<open>acceptLoop\<close>).\<close>

datatype accept_pc =
    AAccept                  \<comment> \<open>in \<open>listener.Accept\<close>\<close>
  | AErr                     \<comment> \<open>it returned an error; about to read \<open>closed\<close>\<close>
  | AErrOpen                 \<comment> \<open>\<open>closed\<close> was false; about to poll \<open>done\<close>\<close>
  | AGot conn                \<comment> \<open>about to read the backend\<close>
  | ABackend conn Backend    \<comment> \<open>about to try the semaphore\<close>
  | ASem conn Backend        \<comment> \<open>about to call \<open>beginProxy\<close>\<close>
  | ABegun conn Backend      \<comment> \<open>about to start the worker\<close>
  | ARefused conn            \<comment> \<open>\<open>beginProxy\<close> refused; about to release\<close>
  | AStop

datatype worker_pc =
    WRun Backend             \<comment> \<open>in \<open>proxy.TCP\<close>\<close>
  | WEnd                     \<comment> \<open>it returned, the client socket is closed\<close>
  | WDeleted                 \<comment> \<open>the connection is deleted from the map\<close>
  | WRelease                 \<comment> \<open>\<open>proxies.Done\<close> called; about to release the semaphore\<close>

datatype closer_pc =
    CIdle
  | CStored                  \<comment> \<open>\<open>closed\<close> is set\<close>
  | CDone                    \<comment> \<open>\<open>done\<close> is closed\<close>
  | CListener                \<comment> \<open>the listener is closed\<close>
  | CKill "conn list"        \<comment> \<open>closing the snapshot of active connections\<close>
  | CWait                    \<comment> \<open>in \<open>WaitForProxies\<close>\<close>
  | CReturned bool

record service =
  sv_closed :: bool
  sv_done :: bool
  sv_listening :: bool
  sv_sem :: nat
  sv_connections :: "conn set"
  sv_proxies :: nat
  sv_accept :: accept_pc
  sv_workers :: "(conn, worker_pc) gomap"
  sv_closer :: closer_pc
  sv_sockets :: "conn set"   \<comment> \<open>the open client sockets\<close>
  sv_next :: conn            \<comment> \<open>the next connection to be accepted\<close>

definition service_new :: service where
  "service_new =
     \<lparr>sv_closed = False, sv_done = False, sv_listening = True, sv_sem = 0, sv_connections = {},
      sv_proxies = 0, sv_accept = AAccept, sv_workers = [], sv_closer = CIdle, sv_sockets = {}, sv_next = 0\<rparr>"

text \<open>The provider is \<open>None\<close> when it is nil.\<close>

definition CurrentBackend :: "(unit \<Rightarrow> Backend option) option \<Rightarrow> Backend option" where
  "CurrentBackend provider = (case provider of None \<Rightarrow> None | Some p \<Rightarrow> p ())"

definition beginProxy :: "conn \<Rightarrow> service \<Rightarrow> service \<times> bool" where
  "beginProxy c s =
     (if sv_closed s then (s, False)
      else (s\<lparr>sv_connections := insert c (sv_connections s), sv_proxies := sv_proxies s + 1\<rparr>, True))"

definition close_sock :: "conn \<Rightarrow> service \<Rightarrow> service" where
  "close_sock c s = s\<lparr>sv_sockets := sv_sockets s - {c}\<rparr>"

definition accept_step :: "service \<Rightarrow> service" where
  "accept_step s =
     s\<lparr>sv_accept := AGot (sv_next s), sv_sockets := insert (sv_next s) (sv_sockets s), sv_next := sv_next s + 1\<rparr>"

inductive svc_step :: "service \<Rightarrow> service \<Rightarrow> bool" where
  accept_ok: "sv_accept s = AAccept \<Longrightarrow> sv_listening s \<Longrightarrow> svc_step s (accept_step s)"
| accept_err: "sv_accept s = AAccept \<Longrightarrow> svc_step s (s\<lparr>sv_accept := AErr\<rparr>)"
| err_closed: "sv_accept s = AErr \<Longrightarrow> sv_closed s \<Longrightarrow> svc_step s (s\<lparr>sv_accept := AStop\<rparr>)"
| err_open: "sv_accept s = AErr \<Longrightarrow> \<not> sv_closed s \<Longrightarrow> svc_step s (s\<lparr>sv_accept := AErrOpen\<rparr>)"
| err_done: "sv_accept s = AErrOpen \<Longrightarrow> sv_done s \<Longrightarrow> svc_step s (s\<lparr>sv_accept := AStop\<rparr>)"
| err_retry: "sv_accept s = AErrOpen \<Longrightarrow> \<not> sv_done s \<Longrightarrow> svc_step s (s\<lparr>sv_accept := AAccept\<rparr>)"
| backend_nil: "sv_accept s = AGot c \<Longrightarrow> CurrentBackend p = None \<Longrightarrow>
    svc_step s (close_sock c s\<lparr>sv_accept := AAccept\<rparr>)"
| backend_some: "sv_accept s = AGot c \<Longrightarrow> CurrentBackend p = Some b \<Longrightarrow>
    svc_step s (s\<lparr>sv_accept := ABackend c b\<rparr>)"
| sem_acquired: "sv_accept s = ABackend c b \<Longrightarrow> sv_sem s < max_proxies \<Longrightarrow>
    svc_step s (s\<lparr>sv_accept := ASem c b, sv_sem := sv_sem s + 1\<rparr>)"
| sem_full: "sv_accept s = ABackend c b \<Longrightarrow> \<not> sv_sem s < max_proxies \<Longrightarrow>
    svc_step s (close_sock c s\<lparr>sv_accept := AAccept\<rparr>)"
| begin_ok: "sv_accept s = ASem c b \<Longrightarrow> beginProxy c s = (s', True) \<Longrightarrow>
    svc_step s (s'\<lparr>sv_accept := ABegun c b\<rparr>)"
| begin_refused: "sv_accept s = ASem c b \<Longrightarrow> beginProxy c s = (s', False) \<Longrightarrow>
    svc_step s (s'\<lparr>sv_accept := ARefused c\<rparr>)"
| refuse: "sv_accept s = ARefused c \<Longrightarrow>
    svc_step s (close_sock c s\<lparr>sv_accept := AAccept, sv_sem := sv_sem s - 1\<rparr>)"
| go_worker: "sv_accept s = ABegun c b \<Longrightarrow>
    svc_step s (s\<lparr>sv_accept := AAccept, sv_workers := mput c (WRun b) (sv_workers s)\<rparr>)"
| worker_return: "mget (sv_workers s) c = Some (WRun b) \<Longrightarrow>
    svc_step s (close_sock c s\<lparr>sv_workers := mput c WEnd (sv_workers s)\<rparr>)"
| worker_delete: "mget (sv_workers s) c = Some WEnd \<Longrightarrow>
    svc_step s (s\<lparr>sv_workers := mput c WDeleted (sv_workers s), sv_connections := sv_connections s - {c}\<rparr>)"
| worker_done: "mget (sv_workers s) c = Some WDeleted \<Longrightarrow>
    svc_step s (s\<lparr>sv_workers := mput c WRelease (sv_workers s), sv_proxies := sv_proxies s - 1\<rparr>)"
| worker_release: "mget (sv_workers s) c = Some WRelease \<Longrightarrow>
    svc_step s (s\<lparr>sv_workers := mdel c (sv_workers s), sv_sem := sv_sem s - 1\<rparr>)"
| close_store: "sv_closer s = CIdle \<Longrightarrow> svc_step s (s\<lparr>sv_closer := CStored, sv_closed := True\<rparr>)"
| close_done: "sv_closer s = CStored \<Longrightarrow> svc_step s (s\<lparr>sv_closer := CDone, sv_done := True\<rparr>)"
| close_listener: "sv_closer s = CDone \<Longrightarrow> svc_step s (s\<lparr>sv_closer := CListener, sv_listening := False\<rparr>)"
| close_snapshot: "sv_closer s = CListener \<Longrightarrow> set cs = sv_connections s \<Longrightarrow> distinct cs \<Longrightarrow>
    svc_step s (s\<lparr>sv_closer := CKill cs\<rparr>)"
| close_kill: "sv_closer s = CKill (c # cs) \<Longrightarrow> svc_step s (close_sock c s\<lparr>sv_closer := CKill cs\<rparr>)"
| close_killed: "sv_closer s = CKill [] \<Longrightarrow> svc_step s (s\<lparr>sv_closer := CWait\<rparr>)"
| wait_done: "sv_closer s = CWait \<Longrightarrow> sv_proxies s = 0 \<Longrightarrow> svc_step s (s\<lparr>sv_closer := CReturned True\<rparr>)"
| wait_expired: "sv_closer s = CWait \<Longrightarrow> svc_step s (s\<lparr>sv_closer := CReturned False\<rparr>)"

subsection \<open>Invariant\<close>

fun conn_of :: "accept_pc \<Rightarrow> conn set" where
  "conn_of (AGot c) = {c}"
| "conn_of (ABackend c b) = {c}"
| "conn_of (ASem c b) = {c}"
| "conn_of (ABegun c b) = {c}"
| "conn_of (ARefused c) = {c}"
| "conn_of _ = {}"

fun holds_sem :: "accept_pc \<Rightarrow> nat" where
  "holds_sem (ASem c b) = 1"
| "holds_sem (ABegun c b) = 1"
| "holds_sem (ARefused c) = 1"
| "holds_sem _ = 0"

fun begun :: "accept_pc \<Rightarrow> conn set" where
  "begun (ABegun c b) = {c}"
| "begun _ = {}"

fun running :: "worker_pc \<Rightarrow> bool" where
  "running (WRun b) = True"
| "running _ = False"

fun mapped :: "worker_pc \<Rightarrow> bool" where
  "mapped (WRun b) = True"
| "mapped WEnd = True"
| "mapped _ = False"

definition in_state :: "(worker_pc \<Rightarrow> bool) \<Rightarrow> service \<Rightarrow> conn set" where
  "in_state P s = {c. \<exists>w. mget (sv_workers s) c = Some w \<and> P w}"

definition closer_ok :: "service \<Rightarrow> bool" where
  "closer_ok s \<longleftrightarrow>
     (sv_closed s \<longleftrightarrow> sv_closer s \<noteq> CIdle) \<and>
     (sv_done s \<longleftrightarrow> sv_closer s \<notin> {CIdle, CStored}) \<and>
     (sv_listening s \<longleftrightarrow> sv_closer s \<in> {CIdle, CStored, CDone}) \<and>
     (sv_closer s = CReturned True \<longrightarrow> sv_proxies s = 0)"

text \<open>
  The semaphore counts the workers and the accept loop's pending one, the wait group the
  workers that have not called \<open>Done\<close>, the connection map the ones that have not left
  it; every open client socket belongs to the accept loop or to a running worker.
\<close>

definition svc_inv :: "service \<Rightarrow> bool" where
  "svc_inv s \<longleftrightarrow>
     mwf (sv_workers s) \<and>
     sv_sem s = holds_sem (sv_accept s) + length (sv_workers s) \<and> sv_sem s \<le> max_proxies \<and>
     sv_proxies s = card (begun (sv_accept s)) + length (filter (\<lambda>(c, w). w \<noteq> WRelease) (sv_workers s)) \<and>
     sv_connections s = begun (sv_accept s) \<union> in_state mapped s \<and>
     sv_sockets s \<subseteq> conn_of (sv_accept s) \<union> in_state running s \<and>
     (\<forall>c \<in> conn_of (sv_accept s). mget (sv_workers s) c = None \<and> c < sv_next s) \<and>
     (\<forall>c. mget (sv_workers s) c \<noteq> None \<longrightarrow> c < sv_next s) \<and>
     closer_ok s"

text \<open>A bound on the steps left once the listener is closed.\<close>

fun accept_left :: "accept_pc \<Rightarrow> nat" where
  "accept_left AStop = 0"
| "accept_left AErrOpen = 1"
| "accept_left AErr = 2"
| "accept_left AAccept = 3"
| "accept_left (ARefused c) = 4"
| "accept_left (ASem c b) = 5"
| "accept_left (ABackend c b) = 6"
| "accept_left (AGot c) = 7"
| "accept_left (ABegun c b) = 8"

fun worker_left :: "worker_pc \<Rightarrow> nat" where
  "worker_left (WRun b) = 4"
| "worker_left WEnd = 3"
| "worker_left WDeleted = 2"
| "worker_left WRelease = 1"

fun closer_left :: "closer_pc \<Rightarrow> nat" where
  "closer_left CListener = max_proxies + 3"
| "closer_left (CKill cs) = length cs + 2"
| "closer_left CWait = 1"
| "closer_left _ = 0"

definition drain_left :: "service \<Rightarrow> nat" where
  "drain_left s =
     accept_left (sv_accept s) + sum_list (map (worker_left \<circ> snd) (sv_workers s)) + closer_left (sv_closer s)"

definition quiet :: "service \<Rightarrow> bool" where
  "quiet s \<longleftrightarrow> sv_accept s = AStop \<and> sv_workers s = [] \<and> sv_sem s = 0 \<and> sv_proxies s = 0 \<and>
     sv_connections s = {} \<and> sv_sockets s = {}"

section \<open>Lemmas\<close>

inductive_cases svc_stepE: "svc_step s t"

subsection \<open>Updating one worker\<close>

lemma length_mput_hit: "mget m k \<noteq> None \<Longrightarrow> length (mput k v m) = length m"
  by (induction m) (auto simp: mput_def split: if_splits)

lemma sum_mput_hit:
  "mget m k = Some u \<Longrightarrow> sum_list (map (f \<circ> snd) (mput k v m)) + f u = sum_list (map (f \<circ> snd) m) + (f v :: nat)"
  by (induction m) (auto simp: mput_def split: if_splits)

lemma sum_mdel_hit:
  "mwf m \<Longrightarrow> mget m k = Some u \<Longrightarrow> sum_list (map (f \<circ> snd) (mdel k m)) + f u = (sum_list (map (f \<circ> snd) m) :: nat)"
proof (induction m)
  case (Cons a m)
  obtain k' v where a: "a = (k', v)" by fastforce
  show ?case
  proof (cases "k' = k")
    case True
    then have "mdel k m = m" using Cons.prems a by (force simp: mdel_filter filter_id_conv mget_None_iff mkeys_def)
    then show ?thesis using True Cons.prems a by (simp add: mdel_def)
  next
    case False
    then show ?thesis using Cons a by (simp add: mdel_def)
  qed
qed simp

lemma length_as_sum: "length m = sum_list (map ((\<lambda>_. 1) \<circ> snd) m)"
  by (simp add: comp_def sum_list_triv)

lemma filter_as_sum:
  "length (filter (\<lambda>(c, w). P w) m) = sum_list (map ((\<lambda>w. if P w then 1 else 0) \<circ> snd) m)"
  by (induction m) auto

lemma in_state_mput:
  "in_state P (s\<lparr>sv_workers := mput c w (sv_workers s)\<rparr>) =
     (if P w then insert c (in_state P s) else in_state P s - {c})"
  by (auto simp: in_state_def)

lemma in_state_mdel: "in_state P (s\<lparr>sv_workers := mdel c (sv_workers s)\<rparr>) = in_state P s - {c}"
  by (auto simp: in_state_def)

lemma in_state_cong: "sv_workers s = sv_workers t \<Longrightarrow> in_state P s = in_state P t"
  by (simp add: in_state_def)

lemmas svc_simps = svc_inv_def closer_ok_def close_sock_def accept_step_def beginProxy_def

lemma not_release_mput:
  "mget m c = Some u \<Longrightarrow>
     length (filter (\<lambda>(c, w). w \<noteq> WRelease) (mput c v m)) + (if u \<noteq> WRelease then 1 else 0) =
     length (filter (\<lambda>(c, w). w \<noteq> WRelease) m) + (if v \<noteq> WRelease then 1 else 0)"
  using sum_mput_hit [of m c u "\<lambda>w. if w \<noteq> WRelease then 1 else 0" v] by (simp only: filter_as_sum)

lemma not_release_mdel:
  "mwf m \<Longrightarrow> mget m c = Some WRelease \<Longrightarrow>
     length (filter (\<lambda>(c, w). w \<noteq> WRelease) (mdel c m)) = length (filter (\<lambda>(c, w). w \<noteq> WRelease) m)"
  using sum_mdel_hit [of m c WRelease "\<lambda>w. if w \<noteq> WRelease then 1 else 0"] by (simp only: filter_as_sum) simp

lemma length_mdel_hit: "mwf m \<Longrightarrow> mget m c = Some u \<Longrightarrow> length (mdel c m) + 1 = length m"
  using sum_mdel_hit [of m c u "\<lambda>_. 1"] by (simp only: length_as_sum)

subsection \<open>The invariant is kept\<close>

lemma svc_inv_new: "svc_inv service_new"
  by (simp add: svc_simps service_new_def in_state_def)

lemma svc_inv_worker_run:
  assumes "svc_inv s" "mget (sv_workers s) c = Some (WRun b)"
  shows "svc_inv (close_sock c s\<lparr>sv_workers := mput c WEnd (sv_workers s)\<rparr>)"
  using assms not_release_mput [OF assms(2), of WEnd]
  by (auto simp: svc_simps length_mput_hit in_state_def split: if_splits)

lemma svc_inv_worker_end:
  assumes "svc_inv s" "mget (sv_workers s) c = Some WEnd"
  shows "svc_inv (s\<lparr>sv_workers := mput c WDeleted (sv_workers s), sv_connections := sv_connections s - {c}\<rparr>)"
proof -
  have "c \<notin> conn_of (sv_accept s)" using assms by (auto simp: svc_inv_def)
  moreover have "begun (sv_accept s) \<subseteq> conn_of (sv_accept s)" by (cases "sv_accept s") auto
  ultimately show ?thesis
    using assms not_release_mput [OF assms(2), of WDeleted]
    by (auto simp: svc_simps length_mput_hit in_state_def split: if_splits)
qed

lemma svc_inv_worker_deleted:
  assumes "svc_inv s" "mget (sv_workers s) c = Some WDeleted"
  shows "svc_inv (s\<lparr>sv_workers := mput c WRelease (sv_workers s), sv_proxies := sv_proxies s - 1\<rparr>)"
  using assms not_release_mput [OF assms(2), of WRelease]
  by (auto simp: svc_simps length_mput_hit in_state_def split: if_splits)

lemma svc_inv_worker_release:
  assumes "svc_inv s" "mget (sv_workers s) c = Some WRelease"
  shows "svc_inv (s\<lparr>sv_workers := mdel c (sv_workers s), sv_sem := sv_sem s - 1\<rparr>)"
  using assms not_release_mdel [OF _ assms(2)] length_mdel_hit [OF _ assms(2)]
  by (auto simp: svc_simps in_state_def split: if_splits)

lemma svc_inv_go:
  assumes "svc_inv s" "sv_accept s = ABegun c b"
  shows "svc_inv (s\<lparr>sv_accept := AAccept, sv_workers := mput c (WRun b) (sv_workers s)\<rparr>)"
proof -
  have n: "mget (sv_workers s) c = None" using assms by (auto simp: svc_inv_def)
  have "length (mput c (WRun b) (sv_workers s)) = length (sv_workers s) + 1"
    "length (filter (\<lambda>(c, w). w \<noteq> WRelease) (mput c (WRun b) (sv_workers s))) =
       length (filter (\<lambda>(c, w). w \<noteq> WRelease) (sv_workers s)) + 1"
    by (simp_all add: mput_new [OF n])
  with assms n show ?thesis
    by (auto simp: svc_simps in_state_def split: if_splits)
qed

lemma svc_inv_step:
  assumes "svc_inv s" "svc_step s t"
  shows "svc_inv t"
  using assms(2,1)
proof cases
  case (go_worker c b)
  then show ?thesis using assms(1) svc_inv_go by simp
next
  case (worker_return c b)
  then show ?thesis using assms(1) svc_inv_worker_run by simp
next
  case (worker_delete c)
  then show ?thesis using assms(1) svc_inv_worker_end by simp
next
  case (worker_done c)
  then show ?thesis using assms(1) svc_inv_worker_deleted by simp
next
  case (worker_release c)
  then show ?thesis using assms(1) svc_inv_worker_release by simp
qed (auto simp: svc_simps in_state_def split: if_splits)

abbreviation svc_reach :: "service \<Rightarrow> bool" where
  "svc_reach \<equiv> reach (\<lambda>s. s = service_new) svc_step"

interpretation svc: inv_system "\<lambda>s. s = service_new" svc_step svc_inv
  by unfold_locales (auto intro: svc_inv_new svc_inv_step)

lemma svc_reach_new: "svc_reach service_new"
  by (rule reach_init) simp

lemma closed_stays: "svc_step s t \<Longrightarrow> sv_closed s \<Longrightarrow> sv_closed t"
  by (erule svc_stepE) (auto simp: close_sock_def accept_step_def beginProxy_def split: if_splits)

lemma worker_in_length: "mget m c = Some w \<Longrightarrow> P w \<Longrightarrow> 0 < length (filter (\<lambda>(c, w). P w) m)"
  by (auto simp: length_greater_0_conv filter_empty_conv dest!: mget_in)

lemma closed_proxies: "svc_step s t \<Longrightarrow> sv_closed s \<Longrightarrow> sv_proxies t \<le> sv_proxies s"
  by (erule svc_stepE) (auto simp: close_sock_def accept_step_def beginProxy_def split: if_splits)

lemma closed_proxies_run:
  "svc_step\<^sup>*\<^sup>* s t \<Longrightarrow> sv_closed s \<Longrightarrow> sv_closed t \<and> sv_proxies t \<le> sv_proxies s"
  by (induction rule: rtranclp_induct) (auto dest: closed_stays closed_proxies intro: order_trans)

text \<open>C10: A runtime never admits more than 4096 proxied connections, never leaks a client
  socket (every open one belongs to the accept loop or to a running worker) and keeps its
  counters exact: the wait group is positive when \<open>Done\<close> is called, and the semaphore
  when it is released. After \<open>Close\<close> no worker is added to the group any more, and when
  \<open>WaitForProxies\<close> returns true no proxied connection is left, then and ever after.\<close>

theorem runtime_connections_safe:
  assumes "svc_reach s"
  shows "length (sv_workers s) \<le> max_proxies \<and>
    sv_sockets s \<subseteq> conn_of (sv_accept s) \<union> in_state running s \<and>
    (\<forall>c. mget (sv_workers s) c = Some WDeleted \<longrightarrow> 0 < sv_proxies s) \<and>
    (\<forall>c. mget (sv_workers s) c = Some WRelease \<or> sv_accept s = ARefused c \<longrightarrow> 0 < sv_sem s) \<and>
    (\<forall>t. svc_step\<^sup>*\<^sup>* s t \<longrightarrow>
      (sv_closed s \<longrightarrow> sv_proxies t \<le> sv_proxies s) \<and>
      (sv_closer s = CReturned True \<longrightarrow>
        sv_proxies t = 0 \<and> sv_connections t = {} \<and> in_state running t = {}))"
proof -
  have inv: "svc_inv s" using svc.reach_inv [OF assms] .
  then have 1: "length (sv_workers s) \<le> max_proxies" "sv_sockets s \<subseteq> conn_of (sv_accept s) \<union> in_state running s"
    by (auto simp: svc_inv_def)
  have 2: "0 < sv_proxies s" if "mget (sv_workers s) c = Some WDeleted" for c
    using inv worker_in_length [OF that, of "\<lambda>w. w \<noteq> WRelease"] by (simp add: svc_inv_def)
  have 3: "0 < sv_sem s" if "mget (sv_workers s) c = Some WRelease \<or> sv_accept s = ARefused c" for c
    using inv that by (auto simp: svc_inv_def dest!: mget_in)
  have 4: "sv_proxies t \<le> sv_proxies s" if "sv_closed s" "svc_step\<^sup>*\<^sup>* s t" for t
    using closed_proxies_run [OF that(2,1)] by simp
  have 5: "sv_proxies t = 0 \<and> sv_connections t = {} \<and> in_state running t = {}"
    if "sv_closer s = CReturned True" "svc_step\<^sup>*\<^sup>* s t" for t
  proof -
    have "sv_closed s" "sv_proxies s = 0" using inv that(1) by (auto simp: svc_inv_def closer_ok_def)
    then have 0: "sv_proxies t = 0" using closed_proxies_run [OF that(2)] by simp
    have t: "svc_inv t" using svc.steps_inv [OF that(2) inv] .
    have "card (begun (sv_accept t)) = 0" using t 0 by (simp add: svc_inv_def)
    then have "begun (sv_accept t) = {}" by (cases "sv_accept t") auto
    moreover have "w = WRelease" if "mget (sv_workers t) d = Some w" for d w
      using t 0 worker_in_length [OF that, of "\<lambda>w. w \<noteq> WRelease"] by (auto simp: svc_inv_def)
    ultimately show ?thesis using t 0 by (fastforce simp: svc_inv_def in_state_def)
  qed
  show ?thesis using 1 2 3 4 5 by blast
qed

theorem runtime_connections_safe_witness:
  "\<exists>s t. svc_reach s \<and> sv_closed s \<and> svc_step\<^sup>*\<^sup>* s t \<and> sv_accept t = AGot 0 \<and> sv_proxies t = 0"
proof -
  let ?s = "service_new\<lparr>sv_closer := CStored, sv_closed := True\<rparr>"
  have "svc_step service_new ?s" by (rule close_store) (simp add: service_new_def)
  then have r: "svc_reach ?s" by (blast intro: reach_init reach_step)
  have c: "sv_closed ?s" "sv_proxies ?s = 0" by (simp_all add: service_new_def)
  have t: "svc_step\<^sup>*\<^sup>* ?s (accept_step ?s)"
    by (rule r_into_rtranclp, rule accept_ok) (simp_all add: service_new_def)
  have "sv_proxies (accept_step ?s) = 0" using runtime_connections_safe [OF r] c t by fastforce
  moreover have "sv_accept (accept_step ?s) = AGot 0" by (simp add: accept_step_def service_new_def)
  ultimately show ?thesis using r c t by blast
qed

subsection \<open>Closing drains\<close>

lemma finite_connections: "svc_inv s \<Longrightarrow> finite (sv_connections s) \<and> card (sv_connections s) \<le> max_proxies"
proof -
  assume inv: "svc_inv s"
  have sub: "in_state mapped s \<subseteq> fst ` set (sv_workers s)"
    by (force simp: in_state_def dest: mget_in)
  have fin: "finite (begun (sv_accept s))" by (cases "sv_accept s") auto
  have "card (in_state mapped s) \<le> length (sv_workers s)"
    using card_mono [OF _ sub] card_length [of "map fst (sv_workers s)"] by simp
  moreover have "card (begun (sv_accept s)) \<le> holds_sem (sv_accept s)" by (cases "sv_accept s") auto
  moreover have "card (begun (sv_accept s) \<union> in_state mapped s) \<le> card (begun (sv_accept s)) + card (in_state mapped s)"
    by (rule card_Un_le)
  moreover have "finite (in_state mapped s)" using finite_subset [OF sub] by simp
  ultimately show ?thesis using inv fin by (simp add: svc_inv_def)
qed

lemma drain_step:
  assumes "svc_inv s" "\<not> sv_listening s" "svc_step s t"
  shows "drain_left t < drain_left s \<and> \<not> sv_listening t"
proof -
  have c: "sv_closed s" "sv_done s" using assms(1,2) by (auto simp: svc_inv_def closer_ok_def)
  have wf: "mwf (sv_workers s)" using assms(1) by (simp add: svc_inv_def)
  from assms(3) show ?thesis
  proof cases
    case (go_worker c b)
    then have "mget (sv_workers s) c = None" using assms(1) by (auto simp: svc_inv_def)
    with go_worker assms(2) show ?thesis by (simp add: drain_left_def mput_new)
  next
    case (worker_return c b)
    then show ?thesis using assms(2) sum_mput_hit [OF worker_return(2), of worker_left WEnd]
      by (simp add: drain_left_def close_sock_def)
  next
    case (worker_delete c)
    then show ?thesis using assms(2) sum_mput_hit [OF worker_delete(2), of worker_left WDeleted]
      by (simp add: drain_left_def)
  next
    case (worker_done c)
    then show ?thesis using assms(2) sum_mput_hit [OF worker_done(2), of worker_left WRelease]
      by (simp add: drain_left_def)
  next
    case (worker_release c)
    then show ?thesis using assms(2) sum_mdel_hit [OF wf worker_release(2), of worker_left]
      by (simp add: drain_left_def)
  next
    case (close_snapshot cs)
    then have "length cs \<le> max_proxies"
      using finite_connections [OF assms(1)] by (metis distinct_card)
    with close_snapshot assms(2) show ?thesis by (simp add: drain_left_def)
  qed (use assms(1,2) c in \<open>auto simp: drain_left_def close_sock_def beginProxy_def svc_inv_def closer_ok_def\<close>)
qed

lemma stuck_quiet:
  assumes "svc_inv s" "\<not> sv_listening s" "\<nexists>t. svc_step s t"
  shows "quiet s \<and> (\<exists>b. sv_closer s = CReturned b)"
proof -
  have c: "sv_closed s" "sv_done s" using assms(1,2) by (auto simp: svc_inv_def closer_ok_def)
  have "sv_accept s = AStop"
  proof (cases "sv_accept s")
    case (AGot d)
    then have "svc_step s (close_sock d s\<lparr>sv_accept := AAccept\<rparr>)"
      by (rule backend_nil [of _ _ None]) (simp add: CurrentBackend_def)
    with assms(3) show ?thesis by blast
  next
    case (ABackend d b)
    then show ?thesis using assms(3) sem_acquired sem_full by blast
  next
    case (ASem d b)
    moreover have "beginProxy d s = (s, False)" using c by (simp add: beginProxy_def)
    ultimately show ?thesis using assms(3) begin_refused by blast
  qed (use assms(3) c in \<open>blast intro: svc_step.intros\<close>)+
  moreover have w: "sv_workers s = []"
  proof (rule ccontr)
    assume "sv_workers s \<noteq> []"
    then obtain d w ws where "sv_workers s = (d, w) # ws" by (metis neq_Nil_conv surj_pair)
    then have "mget (sv_workers s) d = Some w" by simp
    then show False
      using assms(3) by (cases w) (blast intro: svc_step.intros)+
  qed
  moreover have "\<exists>b. sv_closer s = CReturned b"
  proof (cases "sv_closer s")
    case CListener
    obtain cs where "set cs = sv_connections s" "distinct cs"
      using finite_connections [OF assms(1)] finite_distinct_list by blast
    with CListener assms(3) close_snapshot show ?thesis by blast
  next
    case (CKill cs)
    then show ?thesis using assms(3) by (cases cs) (blast intro: svc_step.intros)+
  qed (use assms(1-3) c in \<open>auto simp: svc_inv_def closer_ok_def intro: svc_step.intros\<close>)
  ultimately show ?thesis
    using assms(1) by (auto simp: quiet_def svc_inv_def in_state_def)
qed

lemma drain_run:
  "(svc_step ^^ n) s t \<Longrightarrow> svc_inv s \<Longrightarrow> \<not> sv_listening s \<Longrightarrow>
     svc_inv t \<and> \<not> sv_listening t \<and> n + drain_left t \<le> drain_left s"
proof (induction n arbitrary: t)
  case (Suc n)
  then obtain u where u: "(svc_step ^^ n) s u" "svc_step u t" by auto
  with Suc have "svc_inv u" "\<not> sv_listening u" "n + drain_left u \<le> drain_left s" by auto
  with u(2) drain_step [of u t] svc_inv_step show ?case by auto
qed simp



text \<open>An existing connection keeps the backend it dialed: while its worker runs, the
  backend is the one it was started with, whatever the registry holds meanwhile and
  however many other connections come and go.\<close>

theorem connection_keeps_backend:
  assumes "svc_reach s" and "mget (sv_workers s) c = Some (WRun b)"
    and "svc_step\<^sup>*\<^sup>* s t" and "mget (sv_workers t) c = Some (WRun b')"
  shows "b' = b"
proof -
  have "svc_inv s" using svc.reach_inv [OF assms(1)] .
  have "c < sv_next t \<and> c \<notin> conn_of (sv_accept t) \<and>
      (\<forall>b'. mget (sv_workers t) c = Some (WRun b') \<longrightarrow> b' = b)"
    using assms(3)
  proof (induction rule: rtranclp_induct)
    case base
    then show ?case using assms(2) \<open>svc_inv s\<close> by (auto simp: svc_inv_def)
  next
    case (step u v)
    from step(2) step.IH show ?case
      by cases (auto simp: close_sock_def accept_step_def beginProxy_def split: if_splits)
  qed
  then show ?thesis using assms(4) by auto
qed

end
