(* ===== verification/Forwarding.thy ===== *)
theory Forwarding
  imports Daemon_Events Service_Runtime
begin

text \<open>
  The daemon and what forwards traffic for it, together. A TCP runtime asks the registry for the
  backend of its service once per connection, between any two steps of the daemon; \<open>front_step\<close> is
  this interleaving for the runtime of one service. The HTTP router asks it once per request; what
  routes there are is an invariant of the daemon's steps.
\<close>

section \<open>Definitions\<close>

text \<open>The accept loop reads the backend through the closure that \<open>Register\<close> installed.\<close>

definition provider_read :: "Daemon \<Rightarrow> string \<Rightarrow> service \<Rightarrow> service \<Rightarrow> bool" where
  "provider_read d name v v' \<longleftrightarrow>
     (\<forall>c. sv_accept v = AGot c \<longrightarrow> sv_accept v' \<noteq> AGot c \<longrightarrow>
        CurrentBackend (Some (\<lambda>_. tcp_provider (dm_Registry d) name)) =
          (case sv_accept v' of ABackend _ b \<Rightarrow> Some b | _ \<Rightarrow> None))"

inductive front_step :: "go_env \<Rightarrow> string \<Rightarrow> sys \<times> service \<Rightarrow> sys \<times> service \<Rightarrow> bool" for G name where
  daemon_moves: "sys_step G s t \<Longrightarrow> front_step G name (s, v) (t, v)"
| runtime_moves: "svc_step v v' \<Longrightarrow> provider_read (fst s) name v v' \<Longrightarrow> front_step G name (s, v) (s, v')"

definition front_init :: "go_env \<Rightarrow> sys \<times> service \<Rightarrow> bool" where
  "front_init G x \<longleftrightarrow> reach sys_init (sys_step G) (fst x) \<and> snd x = service_new"

text \<open>The connections that have been given a backend and still have it.\<close>

definition in_flight :: "service \<Rightarrow> (conn \<times> Backend) set" where
  "in_flight v =
     {(c, b). sv_accept v = ABackend c b \<or> sv_accept v = ASem c b \<or> sv_accept v = ABegun c b \<or>
        mget (sv_workers v) c = Some (WRun b)}"

definition front_inv :: "go_env \<Rightarrow> sys \<times> service \<Rightarrow> bool" where
  "front_inv G x \<longleftrightarrow> dm_inv G (fst (fst x)) \<and> svc_inv (snd x) \<and> (\<forall>(c, b) \<in> in_flight (snd x). backend_ok b)"

text \<open>A route leads to an HTTP service that has the route's host.\<close>

definition routes_known :: "go_env \<Rightarrow> Daemon \<Rightarrow> bool" where
  "routes_known G d \<longleftrightarrow>
     (\<forall>k hp. mget (ro_routes (dm_HTTP d)) k = Some hp \<longrightarrow>
        (\<exists>rec. Registry_Resolve (dm_Registry d) (hp_provider hp) = Some rec \<and> sr_Kind rec = KindHTTP \<and>
           normalizeHost G (sr_Hostname rec) = k))"

text \<open>The services a request for a host may be for.\<close>

definition http_service :: "go_env \<Rightarrow> Daemon \<Rightarrow> string \<Rightarrow> ServiceRecord \<Rightarrow> bool" where
  "http_service G d host rec \<longleftrightarrow>
     Registry_Resolve (dm_Registry d) (sr_Name rec) = Some rec \<and> sr_Kind rec = KindHTTP \<and>
     normalizeHost G (sr_Hostname rec) = normalizeHost G host"

subsection \<open>Sample inputs\<close>

definition web_params :: RegisterParams where
  "web_params = \<lparr>rp_Name = ''web'', rp_Kind = ''http'', rp_AppProtocol = [], rp_Backend = sample_backend,
     rp_PreferredPort = 0, rp_TTLSeconds = 3, rp_Source = ''process'', rp_OwnerKey = [],
     rp_RegistrationID = [], rp_DockerContainerID = [], rp_HTTPHost = ''web.test''\<rparr>"

definition spoofed_request :: request where
  "spoofed_request =
     \<lparr>rq_Host = ''web.test:8088'', rq_URLScheme = [], rq_URLHost = ''evil'', rq_URLPath = ''/'',
      rq_Header = [(''X-Forwarded-For'', [''1.1.1.1''])], rq_RemoteAddr = ''10.0.0.9:999'', rq_TLS = False\<rparr>"

section \<open>Lemmas\<close>

subsection \<open>TCP connections\<close>

text \<open>What a step of the runtime adds to the connections in flight.\<close>

lemma new_in_flight:
  assumes "svc_step v v'" "(c, b) \<in> in_flight v'" "(c, b) \<notin> in_flight v"
  shows "sv_accept v = AGot c \<and> sv_accept v' = ABackend c b"
  using assms by cases (auto simp: in_flight_def close_sock_def accept_step_def beginProxy_def split: if_splits)

lemma provider_backend_ok:
  assumes "dm_inv G d" "tcp_provider (dm_Registry d) name = Some b"
  shows "\<exists>rec. Registry_Resolve (dm_Registry d) name = Some rec \<and> sr_Status rec = StatusReady \<and> sr_Backend rec = Some b \<and> backend_ok b"
proof -
  obtain rec where rec: "Registry_Resolve (dm_Registry d) name = Some rec" "sr_Status rec = StatusReady" "sr_Backend rec = Some b"
    using assms(2) by (auto simp: tcp_provider_def split: option.splits if_splits)
  then have "rec_inv G d name rec" using assms(1) by (simp add: dm_inv_def Registry_Resolve_mget)
  with rec show ?thesis by (auto simp: rec_inv_def)
qed

lemma front_new:
  assumes "front_step G name (s, v) (s', v')" "dm_inv G (fst s)" "(c, b) \<in> in_flight v'" "(c, b) \<notin> in_flight v"
  shows "s' = s \<and> (\<exists>rec. Registry_Resolve (dm_Registry (fst s)) name = Some rec \<and> sr_Status rec = StatusReady \<and>
    sr_Backend rec = Some b \<and> backend_ok b)"
  using assms(1)
proof cases
  case runtime_moves
  then have "CurrentBackend (Some (\<lambda>_. tcp_provider (dm_Registry (fst s)) name)) = Some b"
    using new_in_flight [OF _ assms(3,4)] by (auto simp: provider_read_def)
  then show ?thesis using runtime_moves(1) provider_backend_ok [OF assms(2)] by (simp add: CurrentBackend_def)
qed (use assms(3,4) in simp)

interpretation front: inv_system "front_init G" "front_step G name" "front_inv G" for G name
proof unfold_locales
  fix x assume "front_init G x"
  then show "front_inv G x"
    using daemon.reach_inv svc_inv_new by (auto simp: front_init_def front_inv_def in_flight_def service_new_def)
next
  fix x y assume inv: "front_inv G x" and step: "front_step G name x y"
  obtain s v s' v' where xy: "x = (s, v)" "y = (s', v')" by fastforce
  have "dm_inv G (fst s') \<and> svc_inv v'"
    using step inv unfolding xy
    by cases (auto simp: front_inv_def intro: daemon.inv_step svc_inv_step)
  moreover have "backend_ok b" if "(c, b) \<in> in_flight v'" for c b
    using front_new [of G name s v s' v' c b] step inv that by (auto simp: xy front_inv_def)
  ultimately show "front_inv G y" by (auto simp: xy front_inv_def)
qed

lemma in_flight_unique:
  assumes "svc_inv v" "(c, b) \<in> in_flight v" "(c, b') \<in> in_flight v"
  shows "b' = b"
  using assms by (auto simp: in_flight_def svc_inv_def)

lemma in_flight_kept:
  assumes "svc_inv v" "svc_step v v'" "(c, b) \<in> in_flight v" "(c, b') \<in> in_flight v'"
  shows "b' = b"
proof (cases "(c, b') \<in> in_flight v")
  case True
  then show ?thesis using in_flight_unique [OF assms(1,3)] by blast
next
  case False
  then have "sv_accept v = AGot c" using new_in_flight [OF assms(2,4)] by blast
  then show ?thesis using assms(1,3) by (auto simp: in_flight_def svc_inv_def)
qed



subsection \<open>HTTP requests\<close>

lemma Register_routes:
  assumes "Register R p d = (d', r)"
  shows "dm_HTTP d' = dm_HTTP d \<or>
    (\<exists>rec. dm_HTTP d' = Router_Set (re_go R) (sr_Hostname rec) (rp_Name p) (dm_HTTP d) \<and> sr_Kind rec = KindHTTP \<and>
       mget (services (dm_Registry d')) (rp_Name p) = Some rec)"
proof -
  have pub: "dm_HTTP (reg_publish R p pl fe d1) = dm_HTTP d \<or>
      dm_HTTP (reg_publish R p pl fe d1) = Router_Set (re_go R) (sr_Hostname (plan_record R p pl fe)) (rp_Name p) (dm_HTTP d) \<and>
      sr_Kind (plan_record R p pl fe) = KindHTTP"
    if "reg_frontend R p kind h (retired R p d) = (d1, Inr fe)" for fe d1 pl kind h
    using reg_frontend_keeps(3) [OF that] by (simp add: reg_publish_def)
  show ?thesis
    using assms
  proof (cases rule: Register_cases)
    case (unallocated c d1)
    then show ?thesis using reg_frontend_keeps(3) [OF unallocated(3)] by simp
  qed (use pub in \<open>auto simp del: plan_record_simps\<close>)
qed

lemma routes_known_mono:
  assumes "routes_known G d" "dm_HTTP d' = dm_HTTP d"
    and "\<And>n rec. mget (services (dm_Registry d)) n = Some rec \<Longrightarrow>
      \<exists>rec'. mget (services (dm_Registry d')) n = Some rec' \<and> same_service rec rec'"
  shows "routes_known G d'"
  using assms unfolding routes_known_def same_service_def Registry_Resolve_mget by metis

lemma routes_known_Register:
  assumes "routes_known G d" "dm_inv G d" "env_ToLower (re_go R) = env_ToLower G" "Register R p d = (d', r)"
  shows "routes_known G d'"
  using Register_routes [OF assms(4)]
proof (elim disjE exE conjE)
  assume "dm_HTTP d' = dm_HTTP d"
  then show ?thesis using Register_same_service [OF assms(2-4)] by (rule routes_known_mono [OF assms(1)])
next
  fix rec
  assume http: "dm_HTTP d' = Router_Set (re_go R) (sr_Hostname rec) (rp_Name p) (dm_HTTP d)"
    and rec: "sr_Kind rec = KindHTTP" "mget (services (dm_Registry d')) (rp_Name p) = Some rec"
  have "routes_known G (d'\<lparr>dm_HTTP := dm_HTTP d\<rparr>)"
    by (rule routes_known_mono [OF assms(1)]) (use Register_same_service [OF assms(2-4)] in simp_all)
  then show ?thesis
    using http rec normalizeHost_cong [OF assms(3)]
    by (auto simp: routes_known_def Router_Set_def Let_def Registry_Resolve_mget)
qed

lemma event_routes:
  assumes "apply_ev ev (d, P) = (d', P')" "\<nexists>R p. ev = EvRegister R p"
  shows "dm_HTTP d' = dm_HTTP d"
  using assms
  by (cases ev) (auto simp: ForgetDockerPublication_def split: option.splits prod.splits if_splits)

interpretation routed: inv_system sys_init "sys_step G" "\<lambda>s. dm_inv G (fst s) \<and> routes_known G (fst s)" for G
proof unfold_locales
  fix s assume s: "sys_init s"
  then obtain N cfg files lns files' lns' where "Daemon_New N cfg files lns = (files', lns', Inr (fst s))" "distinct lns"
    by (auto simp: sys_init_def)
  note New = this
  from New(1) have "ro_routes (dm_HTTP (fst s)) = []"
  proof (cases rule: Daemon_New_cases)
    case (1 st scheme port cfg d0)
    then show ?thesis using bind_cases [OF 1(3)] New(2) by (simp add: NewRouter_def)
  qed
  then show "dm_inv G (fst s) \<and> routes_known G (fst s)" using dm_inv_New [OF New] by (simp add: routes_known_def)
next
  fix s t assume inv: "dm_inv G (fst s) \<and> routes_known G (fst s)" and st: "sys_step G s t"
  then obtain ev where ev: "same_table G ev" "apply_ev ev (fst s, snd s) = (fst t, snd t)" by (auto simp: sys_step_def)
  have "routes_known G (fst t)"
  proof (cases "\<exists>R p. ev = EvRegister R p")
    case True
    then obtain R p where "ev = EvRegister R p" by blast
    then have t: "Register R p (fst s) = (fst t, snd (Register R p (fst s)))" and R: "env_ToLower (re_go R) = env_ToLower G"
      using ev by (cases s, auto simp: prod_eq_iff)
    show ?thesis using routes_known_Register [OF _ _ R t] inv by blast
  next
    case False
    then have "dm_HTTP (fst t) = dm_HTTP (fst s)" using event_routes [OF ev(2)] by blast
    from routes_known_mono [OF conjunct2 [OF inv] this] event_same_service [OF conjunct1 [OF inv] ev] show ?thesis by blast
  qed
  then show "dm_inv G (fst t) \<and> routes_known G (fst t)" using daemon.inv_step inv st by blast
qed

lemma route_service:
  assumes "dm_inv G d" "routes_known G d"
  shows "mget (ro_routes (dm_HTTP d)) (normalizeHost G host) = None \<longleftrightarrow> (\<nexists>rec. http_service G d host rec)"
    and "mget (ro_routes (dm_HTTP d)) (normalizeHost G host) = Some hp \<Longrightarrow>
      \<exists>rec. http_service G d host rec \<and> hp_provider hp = sr_Name rec"
proof -
  have name: "sr_Name rec = n" if "Registry_Resolve (dm_Registry d) n = Some rec" for n rec
    using that reg_wf_mget assms(1) by (fastforce simp: dm_inv_def Registry_Resolve_mget rec_ok_def)
  show 2: "\<exists>rec. http_service G d host rec \<and> hp_provider hp = sr_Name rec"
    if "mget (ro_routes (dm_HTTP d)) (normalizeHost G host) = Some hp" for hp
  proof -
    obtain rec where rec: "Registry_Resolve (dm_Registry d) (hp_provider hp) = Some rec" "sr_Kind rec = KindHTTP"
        "normalizeHost G (sr_Hostname rec) = normalizeHost G host"
      using assms(2) \<open>mget _ _ = Some hp\<close> unfolding routes_known_def by blast
    then show ?thesis using name [OF rec(1)] by (intro exI [of _ rec]) (simp add: http_service_def)
  qed
  have "mget (ro_routes (dm_HTTP d)) (normalizeHost G host) \<noteq> None" if "http_service G d host rec" for rec
  proof -
    have "rec_inv G d (sr_Name rec) rec" using that assms(1) by (simp add: http_service_def dm_inv_def Registry_Resolve_mget)
    then show ?thesis using that by (auto simp: http_service_def rec_inv_def Router_Lookup_def)
  qed
  with 2 show "mget (ro_routes (dm_HTTP d)) (normalizeHost G host) = None \<longleftrightarrow> (\<nexists>rec. http_service G d host rec)"
    by (cases "mget (ro_routes (dm_HTTP d)) (normalizeHost G host)") auto
qed

text \<open>C5: The HTTP proxy answers from the registry. In every reachable state of the daemon, a request
  gets 404 exactly if no known HTTP service has the requested host; 503 only if a service with that
  host is unavailable; 502 only if a service with that host is ready and the transfer failed; and
  whatever comes from upstream is the answer of the verified loopback backend of a ready HTTP service
  with that host, to a request sent over HTTP with the public host name as its Host and with
  forwarding headers that state the peer, the requested host and the scheme of this connection,
  whatever the caller wrote into them.\<close>

theorem http_forwarding_verified:
  assumes "reach sys_init (sys_step G) (d, P)"
  shows "case ServeHTTP G (http_provider (dm_Registry d)) prepare forward (dm_HTTP d) req of
      Status c \<Rightarrow>
        (c = 404 \<longleftrightarrow> (\<nexists>rec. http_service G d (rq_Host req) rec)) \<and>
        (c \<noteq> 404 \<longrightarrow> (\<exists>rec. http_service G d (rq_Host req) rec \<and>
           (c = 503 \<and> sr_Status rec = StatusUnavailable \<or>
            c = 502 \<and> sr_Status rec = StatusReady \<and> (\<exists>out. forward out = None))))
    | Upstream resp \<Rightarrow>
        (\<exists>rec b out. http_service G d (rq_Host req) rec \<and> sr_Status rec = StatusReady \<and> sr_Backend rec = Some b \<and>
           backend_ok b \<and> forward out = Some resp \<and>
           rq_URLScheme out = ''http'' \<and> rq_URLHost out = Backend_Addr b \<and> rq_Host out = normalizeHost G (rq_Host req) \<and>
           mget (rq_Header out) ''X-Forwarded-For'' = map_option (\<lambda>(ip, port). [ip]) (SplitHostPort (rq_RemoteAddr req)) \<and>
           mget (rq_Header out) ''X-Forwarded-Host'' = Some [rq_Host req] \<and>
           mget (rq_Header out) ''X-Forwarded-Proto'' = Some [if rq_TLS req then ''https'' else ''http''])"
proof -
  have inv: "dm_inv G d" "routes_known G d" using routed.reach_inv [OF assms] by simp_all
  note route = route_service [OF inv, of "rq_Host req"]
  show ?thesis
  proof (cases "mget (ro_routes (dm_HTTP d)) (normalizeHost G (rq_Host req))")
    case None
    then show ?thesis using route(1) by (simp add: ServeHTTP_def Let_def)
  next
    case (Some hp)
    then obtain rec where rec: "http_service G d (rq_Host req) rec" "hp_provider hp = sr_Name rec" using route(2) by blast
    then have m: "mget (services (dm_Registry d)) (sr_Name rec) = Some rec" by (simp add: http_service_def Registry_Resolve_mget)
    then have ok: "rec_ok (sr_Name rec) rec" "rec_inv G d (sr_Name rec) rec" using inv(1) reg_wf_mget by (auto simp: dm_inv_def)
    show ?thesis
    proof (cases "sr_Backend rec")
      case None
      then have "sr_Status rec = StatusUnavailable" using ok(1) by (cases "sr_Status rec") (auto simp: rec_ok_def)
      then show ?thesis using Some rec None m by (auto simp: ServeHTTP_def Let_def http_provider_def Registry_Resolve_mget)
    next
      case b: (Some b)
      then have r: "sr_Status rec = StatusReady" "backend_ok b" using ok by (auto simp: rec_ok_def rec_inv_def)
      let ?out = "Rewrite (Some \<lparr>rs_backend = b, rs_publicHost = normalizeHost G (rq_Host req)\<rparr>) req (prepare req)"
      have eq: "ServeHTTP G (http_provider (dm_Registry d)) prepare forward (dm_HTTP d) req =
          (case forward ?out of None \<Rightarrow> Status 502 | Some resp \<Rightarrow> Upstream resp)"
        using Some rec(2) m b r(1) by (simp add: ServeHTTP_def Let_def http_provider_def Registry_Resolve_mget)
      show ?thesis
      proof (cases "forward ?out")
        case None
        then show ?thesis using eq rec(1) r(1) by auto
      next
        case f: (Some resp)
        show ?thesis
          unfolding eq f option.case response.case
          by (intro exI [of _ rec] exI [of _ b] exI [of _ ?out])
             (use rec(1) r b f in \<open>simp add: Rewrite_Some_target Rewrite_Some_header\<close>)
      qed
    qed
  qed
qed

lemma sample_web:
  assumes "Register (sample_reg 5 1) web_params sample_daemon = (d, r)"
  shows "reach sys_init (sys_step sample_go) (d, [])"
    and "mget (services (dm_Registry d)) ''web'' \<noteq> None"
    and "mget (services (dm_Registry d)) ''web'' = Some rec \<Longrightarrow>
      sr_Name rec = ''web'' \<and> sr_Kind rec = KindHTTP \<and> sr_Hostname rec = ''web.test'' \<and> sr_Backend rec = Some sample_backend \<and>
      sr_Status rec = StatusReady"
    and "mget (ro_routes (dm_HTTP d)) ''web.test'' = Some \<lparr>hp_hostname = ''web.test'', hp_provider = ''web''\<rparr>"
proof -
  note sample_daemon_reach
  moreover have "sys_step sample_go (sample_daemon, []) (d, [])"
    unfolding sys_step_def using assms by (intro exI [of _ "EvRegister (sample_reg 5 1) web_params"]) simp
  ultimately show "reach sys_init (sys_step sample_go) (d, [])" by (rule reach_step)
  have n: "normalizeHost sample_go ''web.test'' = ''web.test''" by code_simp
  have e: "services (dm_Registry sample_daemon) = []" by (simp add: sample_daemon_def NewRegistry_def)
  have h: "reg_hostname sample_go KindHTTP ''web.test'' = Some ''web.test''" by code_simp
  have v: "ValidateName ''web'' = None" by code_simp
  let ?pl = "reg_plan (sample_reg 5 1) web_params sample_daemon"
  have plan: "pl_kind ?pl = KindHTTP" "pl_hostname ?pl = ''web.test''" "pl_source ?pl = SourceProcess" "pl_ttl ?pl = 3 * Second"
    using h by (simp_all add: reg_plan_def web_params_def reg_ttl_def Let_def)
  have rej: "reg_reject (sample_reg 5 1) web_params sample_daemon = None"
    using v h sample_backend_ok plan
    by (simp add: reg_reject_def Let_def reg_conflict_def Registry_Resolve_mget CheckOwnership_def FindByHostname_def e web_params_def)
  have "\<exists>fe. dm_Registry d = (dm_Registry sample_daemon)\<lparr>services := mput ''web'' (plan_record (sample_reg 5 1) web_params ?pl fe) []\<rparr> \<and>
      dm_HTTP d = Router_Set sample_go ''web.test'' ''web'' (dm_HTTP sample_daemon)"
    using assms
  proof (cases rule: Register_cases)
    case (leased fe d1 token l e)
    then show ?thesis using e plan reg_frontend_keeps [OF leased(2)]
      by (intro exI [of _ fe]) (simp add: reg_publish_def web_params_def)
  qed (use rej plan in \<open>auto simp: NewToken_def\<close>)
  then obtain fe where d: "dm_Registry d = (dm_Registry sample_daemon)\<lparr>services := mput ''web'' (plan_record (sample_reg 5 1) web_params ?pl fe) []\<rparr>"
    "dm_HTTP d = Router_Set sample_go ''web.test'' ''web'' (dm_HTTP sample_daemon)" by blast
  show "mget (services (dm_Registry d)) ''web'' \<noteq> None" by (simp add: d)
  show "sr_Name rec = ''web'' \<and> sr_Kind rec = KindHTTP \<and> sr_Hostname rec = ''web.test'' \<and> sr_Backend rec = Some sample_backend \<and>
      sr_Status rec = StatusReady" if "mget (services (dm_Registry d)) ''web'' = Some rec"
    using that plan by (auto simp: d web_params_def)
  show "mget (ro_routes (dm_HTTP d)) ''web.test'' = Some \<lparr>hp_hostname = ''web.test'', hp_provider = ''web''\<rparr>"
    by (simp add: d Router_Set_def Let_def n)
qed

theorem http_forwarding_verified_witness:
  "\<exists>d P out b. reach sys_init (sys_step sample_go) (d, P) \<and> backend_ok b \<and>
     ServeHTTP sample_go (http_provider (dm_Registry d)) (\<lambda>r. r) Some (dm_HTTP d) spoofed_request = Upstream out \<and>
     rq_URLHost out = Backend_Addr b \<and> mget (rq_Header out) ''X-Forwarded-For'' = Some [''10.0.0.9'']"
proof -
  obtain d r where reg: "Register (sample_reg 5 1) web_params sample_daemon = (d, r)" by fastforce
  note web = sample_web [OF reg]
  obtain rec where rec: "mget (services (dm_Registry d)) ''web'' = Some rec" using web(2) by blast
  have n: "normalizeHost sample_go ''web.test:8088'' = ''web.test''" by code_simp
  have s: "SplitHostPort ''10.0.0.9:999'' = Some (''10.0.0.9'', ''999'')" by code_simp
  obtain out where out: "ServeHTTP sample_go (http_provider (dm_Registry d)) (\<lambda>r. r) Some (dm_HTTP d) spoofed_request = Upstream out"
    using web(4) web(3) [OF rec] rec n
    by (simp add: ServeHTTP_def Let_def spoofed_request_def http_provider_def Registry_Resolve_mget)
  from http_forwarding_verified [OF web(1), where prepare = "\<lambda>r. r" and forward = Some and req = spoofed_request, unfolded out response.case]
  obtain b where "backend_ok b" "rq_URLHost out = Backend_Addr b"
    "mget (rq_Header out) ''X-Forwarded-For'' = map_option (\<lambda>(ip, port). [ip]) (SplitHostPort (rq_RemoteAddr spoofed_request))"
    by auto
  then show ?thesis using web(1) out s
    by (intro exI [of _ d] exI [of _ "[]"] exI [of _ out] exI [of _ b]) (simp add: spoofed_request_def)
qed

end
