(* ===== verification/Registration_Limits.thy ===== *)
theory Registration_Limits
  imports Forwarding
begin

text \<open>
  Four limits of \<open>registerLocked\<close> (\<open>internal/daemon/daemon.go\<close>): a TTL that wraps around, a
  registration that fails after it has published, two spellings of one host name, and an HTTP
  service of a daemon that does not serve HTTP.
\<close>

section \<open>Lemmas\<close>

text \<open>The seconds are multiplied before they are checked: a request for about 585 years passes the
  check as a lease of 3.3 seconds.\<close>

lemma ttl_overflow_accepted:
  "reg_ttl cfg SourceProcess 18446744077 = 3290448384 \<and> MinLeaseTTL \<le> (3290448384 :: int) \<and> (3290448384 :: int) \<le> MaxLeaseTTL"
  by (simp add: reg_ttl_def wrap64_def)

text \<open>When no token can be made, the caller gets an error although the record is ready, and no lease
  covers it, so no sweep will end it.\<close>

lemma failed_token_leaves_record:
  assumes "reg_reject R p d = None" and "pl_source (reg_plan R p d) \<noteq> SourceDocker" and "re_token_bytes R = None"
    and "Register R p d = (d', r)" and "\<nexists>c d1. reg_frontend R p (pl_kind (reg_plan R p d)) (pl_hostname (reg_plan R p d)) (retired R p d) = (d1, Inl c)"
  shows "r = Inl CodeInternal \<and> (\<exists>rec. Registry_Resolve (dm_Registry d') (rp_Name p) = Some rec \<and> sr_Status rec = StatusReady) \<and>
    dm_Lease d' = dm_Lease (retired R p d)"
  using assms(4)
proof (cases rule: Register_cases)
  case (no_token fe d1)
  then show ?thesis using reg_frontend_keeps [OF no_token(2)]
    by (simp add: Registry_Resolve_mget plan_record_def reg_record_def)
qed (use assms in \<open>auto simp: NewToken_def\<close>)

text \<open>The daemon compares host names with one trailing dot removed, the router removes another one:
  the host name \<open>a..\<close> does not conflict with the service that has \<open>a\<close>, but takes over its route.\<close>

lemma host_spelling_takes_route:
  assumes "services (dm_Registry d) = [(''one'', rec)]" and "sr_Hostname rec = ''a''"
  shows "reg_hostname sample_go KindHTTP ''a..'' = Some ''a.''" and "\<not> reg_conflict (dm_Registry d) ''two'' KindHTTP ''a.''"
    and "Router_Lookup sample_go (Router_Set sample_go ''a.'' ''two'' (Router_Set sample_go ''a'' ''one'' r)) ''a'' = Some ''two''"
proof -
  show "reg_hostname sample_go KindHTTP ''a..'' = Some ''a.''" by code_simp
  show "\<not> reg_conflict (dm_Registry d) ''two'' KindHTTP ''a.''"
    using assms by (simp add: reg_conflict_def Registry_Resolve_mget FindByHostname_def)
  have "normalizeHost sample_go ''a.'' = ''a''" "normalizeHost sample_go ''a'' = ''a''" by code_simp+
  then show "Router_Lookup sample_go (Router_Set sample_go ''a.'' ''two'' (Router_Set sample_go ''a'' ''one'' r)) ''a'' = Some ''two''"
    by (simp add: Router_Lookup_def Router_Set_def Let_def)
qed

text \<open>With the default configuration the HTTP proxy is off; an HTTP registration is acknowledged all the
  same, with a URL on which nothing listens.\<close>

lemma http_accepted_without_proxy:
  "\<exists>d res rec. Register (sample_reg 5 1) web_params sample_daemon = (d, Inr res) \<and>
     fe_URL (rr_Frontend res) = ''http://web.test:8088'' \<and> wd_listeners (dm_world d) = [] \<and>
     Registry_Resolve (dm_Registry d) ''web'' = Some rec \<and> sr_Status rec = StatusReady"
proof -
  obtain d r where reg: "Register (sample_reg 5 1) web_params sample_daemon = (d, r)" by fastforce
  note web = sample_web [OF reg]
  obtain rec where rec: "mget (services (dm_Registry d)) ''web'' = Some rec" using web(2) by blast
  have "normalizeHost sample_go ''web.test'' = ''web.test''" "url_escape_host ''web.test:8088'' = ''web.test:8088''" by code_simp+
  moreover have "Itoa 8088 = ''8088''" by (simp add: Itoa_def nat_digits.simps digit_char_def) code_simp
  ultimately have u: "FrontendURL sample_go (NewRouter ''http'' 8088) ''web.test'' = ''http://web.test:8088''"
    by (simp add: FrontendURL_def NewRouter_def JoinHostPort_def url_String_def Let_def)
  have none: "mget (services (dm_Registry sample_daemon)) ''web'' = None" by (simp add: sample_daemon_def NewRegistry_def)
  let ?pl = "reg_plan (sample_reg 5 1) web_params sample_daemon"
  have "reg_hostname sample_go KindHTTP ''web.test'' = Some ''web.test''" by code_simp
  then have plan: "pl_kind ?pl = KindHTTP" "pl_hostname ?pl = ''web.test''" "pl_source ?pl = SourceProcess"
    by (simp_all add: reg_plan_def web_params_def Let_def)
  have "\<exists>res. r = Inr res \<and> fe_URL (rr_Frontend res) = ''http://web.test:8088'' \<and> wd_listeners (dm_world d) = []"
    using reg
  proof (cases rule: Register_cases)
    case (leased fe d1 token l e)
    then have "fe_URL fe = ''http://web.test:8088''" "d1 = retired (sample_reg 5 1) web_params sample_daemon"
      using plan u by (auto simp: reg_frontend_def sample_daemon_def)
    then show ?thesis using leased(6,7) by (simp add: sample_daemon_def)
  qed (use rec none plan in \<open>auto simp: NewToken_def\<close>)
  then show ?thesis using reg rec web(3) [OF rec] by (auto simp: Registry_Resolve_mget)
qed

end
