(* ===== verification/Directory.thy ===== *)
theory Directory
  imports Daemon_Events
begin

text \<open>
  What the daemon is for, without leases, runtimes, routes and sockets: a directory that gives each
  name a kind, a host name and a frontend for good, and at most one current publication. The daemon's
  events implement the directory's actions, so what the proxies and the queries answer is a function
  of the directory.
\<close>

section \<open>Definitions\<close>

record publication =
  pb_Owner :: string
  pb_Producer :: string
  pb_Source :: Source
  pb_Backend :: Backend

record entry =
  en_Kind :: Kind
  en_Hostname :: string
  en_Frontend :: Frontend
  en_Live :: "publication option"

type_synonym directory = "string \<rightharpoonup> entry"

datatype action =
    Publish string Kind string Frontend publication
  | Withdraw string string    \<comment> \<open>the name and the producer whose publication ends\<close>
  | Skip

fun dir_do :: "action \<Rightarrow> directory \<Rightarrow> directory" where
  "dir_do (Publish n k h f p) D = D(n \<mapsto> \<lparr>en_Kind = k, en_Hostname = h, en_Frontend = f, en_Live = Some p\<rparr>)"
| "dir_do (Withdraw n pid) D =
     (case D n of
        None \<Rightarrow> D
      | Some e \<Rightarrow>
          (case en_Live e of
             None \<Rightarrow> D
           | Some p \<Rightarrow> if pb_Producer p = pid then D(n \<mapsto> e\<lparr>en_Live := None\<rparr>) else D))"
| "dir_do Skip D = D"

text \<open>
  A publication keeps what the name has, replaces a current publication only of the same owner, and
  takes neither the TCP frontend nor the HTTP host of another name.
\<close>

fun dir_allowed :: "action \<Rightarrow> directory \<Rightarrow> bool" where
  "dir_allowed (Publish n k h f p) D \<longleftrightarrow>
     ValidateName n = None \<and> (k = KindTCP \<or> k = KindHTTP) \<and> backend_ok (pb_Backend p) \<and>
     (\<forall>e. D n = Some e \<longrightarrow>
        en_Kind e = k \<and> en_Hostname e = h \<and> en_Frontend e = f \<and>
        (\<forall>q. en_Live e = Some q \<longrightarrow> pb_Owner q = pb_Owner p)) \<and>
     (\<forall>n' e. D n' = Some e \<longrightarrow> n' \<noteq> n \<longrightarrow> en_Kind e = k \<longrightarrow>
        (if k = KindTCP then en_Frontend e \<noteq> f else en_Hostname e \<noteq> h))"
| "dir_allowed (Withdraw n pid) D \<longleftrightarrow> True"
| "dir_allowed Skip D \<longleftrightarrow> True"

text \<open>A sequence of actions, each allowed where it is performed, and where it leads.\<close>

fun dir_run :: "action list \<Rightarrow> directory \<Rightarrow> directory \<Rightarrow> bool" where
  "dir_run [] D D' \<longleftrightarrow> D' = D"
| "dir_run (a # as) D D' \<longleftrightarrow> dir_allowed a D \<and> dir_run as (dir_do a D) D'"

text \<open>The directory that a state of the daemon stands for.\<close>

definition entry_of :: "ServiceRecord \<Rightarrow> entry" where
  "entry_of rec =
     \<lparr>en_Kind = sr_Kind rec, en_Hostname = sr_Hostname rec, en_Frontend = sr_Frontend rec,
      en_Live = map_option (\<lambda>b. \<lparr>pb_Owner = sr_OwnerKey rec, pb_Producer = sr_ProducerID rec,
        pb_Source = sr_Source rec, pb_Backend = b\<rparr>) (sr_Backend rec)\<rparr>"

definition directory_of :: "Daemon \<Rightarrow> directory" where
  "directory_of d = (\<lambda>n. map_option entry_of (Registry_Resolve (dm_Registry d) n))"

definition plan_publication :: "plan \<Rightarrow> RegisterParams \<Rightarrow> publication" where
  "plan_publication pl p =
     \<lparr>pb_Owner = pl_ownerKey pl, pb_Producer = pl_producerID pl, pb_Source = pl_source pl, pb_Backend = rp_Backend p\<rparr>"

definition plan_publish :: "plan \<Rightarrow> RegisterParams \<Rightarrow> Frontend \<Rightarrow> action" where
  "plan_publish pl p fe =
     Publish (rp_Name p) (pl_kind pl) (if pl_kind pl = KindHTTP then pl_hostname pl else []) fe (plan_publication pl p)"

text \<open>
  The action an event performs. An acknowledged registration publishes the frontend it returns; a
  refused one does nothing; only one that fails because no token can be made publishes all the same.
\<close>

inductive performs :: "sys \<Rightarrow> event \<Rightarrow> action \<Rightarrow> bool" where
  acknowledged: "Register R p d = (d', Inr res) \<Longrightarrow>
    performs (d, P) (EvRegister R p) (plan_publish (reg_plan R p d) p (rr_Frontend res))"
| refused: "Register R p d = (d', Inl c) \<Longrightarrow> performs (d, P) (EvRegister R p) Skip"
| no_token: "Register R p d = (d', Inl CodeInternal) \<Longrightarrow> re_token_bytes R = None \<Longrightarrow>
    performs (d, P) (EvRegister R p) (plan_publish (reg_plan R p d) p fe)"
| heartbeat: "performs s (EvHeartbeat now rid token) Skip"
| delete: "performs s (EvDelete rid token) Skip"
| sweep: "performs s (EvSweep now) Skip"
| ended: "(n, pid) \<in> set P \<Longrightarrow> performs (d, P) (EvEnd now n pid) (Withdraw n pid)"
| not_pending: "(n, pid) \<notin> set P \<Longrightarrow> performs (d, P) (EvEnd now n pid) Skip"
| forgotten: "performs s (EvForget now n ownerKey cid) (Withdraw n cid)"

text \<open>What every directory that was built by allowed actions satisfies.\<close>

definition dir_ok :: "directory \<Rightarrow> bool" where
  "dir_ok D \<longleftrightarrow>
     (\<forall>n e. D n = Some e \<longrightarrow> ValidateName n = None \<and> (\<forall>p. en_Live e = Some p \<longrightarrow> backend_ok (pb_Backend p))) \<and>
     (\<forall>n e n' e'. D n = Some e \<longrightarrow> D n' = Some e' \<longrightarrow> n \<noteq> n' \<longrightarrow> en_Kind e = en_Kind e' \<longrightarrow>
        (if en_Kind e = KindTCP then en_Frontend e \<noteq> en_Frontend e' else en_Hostname e \<noteq> en_Hostname e'))"

section \<open>Lemmas\<close>

subsection \<open>Refinement of events by actions\<close>

text \<open>
  What it takes to implement the directory by events: an invariant, and an action for each event
  that is allowed in the directory and has the event's effect on it.
\<close>

locale directory_impl =
  fixes exec :: "'e \<Rightarrow> 's \<Rightarrow> 's"
    and ok :: "'e \<Rightarrow> bool"
    and inv :: "'s \<Rightarrow> bool"
    and dir :: "'s \<Rightarrow> directory"
    and perf :: "'s \<Rightarrow> 'e \<Rightarrow> action \<Rightarrow> bool"
  assumes keeps: "inv s \<Longrightarrow> ok e \<Longrightarrow> inv (exec e s)"
    and simulates: "inv s \<Longrightarrow> ok e \<Longrightarrow> \<exists>a. perf s e a \<and> dir_allowed a (dir s) \<and> dir (exec e s) = dir_do a (dir s)"
begin

lemma implements:
  assumes "inv s" "list_all ok es"
  shows "\<exists>as. length as = length es \<and> dir_run as (dir s) (dir (fold exec es s)) \<and>
    (\<forall>i < length es. perf (fold exec (take i es) s) (es ! i) (as ! i))"
  using assms
proof (induction es arbitrary: s)
  case (Cons e es)
  obtain a where a: "perf s e a" "dir_allowed a (dir s)" "dir (exec e s) = dir_do a (dir s)"
    using simulates [of s e] Cons.prems by auto
  obtain as where as: "length as = length es" "dir_run as (dir (exec e s)) (dir (fold exec es (exec e s)))"
      "\<forall>i < length es. perf (fold exec (take i es) (exec e s)) (es ! i) (as ! i)"
    using Cons.IH [of "exec e s"] Cons.prems keeps by auto
  have "perf (fold exec (take i (e # es)) s) ((e # es) ! i) ((a # as) ! i)" if "i < length (e # es)" for i
    using that a(1) as(3) by (cases i) auto
  then show ?case using a as by (intro exI [of _ "a # as"]) simp
qed simp

end

subsection \<open>The directory alone\<close>

lemma dir_ok_step:
  assumes "dir_ok D" "dir_allowed a D"
  shows "dir_ok (dir_do a D)"
proof (cases a)
  case (Publish n k h f p)
  have "ValidateName n = None" "backend_ok (pb_Backend p)"
    and other: "\<And>n' e. D n' = Some e \<Longrightarrow> n' \<noteq> n \<Longrightarrow> en_Kind e = k \<Longrightarrow> if k = KindTCP then en_Frontend e \<noteq> f else en_Hostname e \<noteq> h"
    using assms(2) Publish by simp_all
  moreover have "if k = KindTCP then f \<noteq> en_Frontend e else h \<noteq> en_Hostname e" if "D n' = Some e" "n' \<noteq> n" "en_Kind e = k" for n' e
    using other [OF that] by (auto split: if_splits)
  ultimately show ?thesis
    using assms(1) unfolding Publish dir_do.simps dir_ok_def by (simp split: if_splits)
next
  case (Withdraw n pid)
  then show ?thesis
    using assms(1) unfolding dir_ok_def by (auto split: option.splits if_splits) metis+
next
  case Skip
  then show ?thesis using assms(1) by simp
qed

lemma dir_ok_run: "dir_run as D D' \<Longrightarrow> dir_ok D \<Longrightarrow> dir_ok D'"
  by (induction as arbitrary: D) (auto intro: dir_ok_step)

subsection \<open>The daemon implements it\<close>

lemma exclusive:
  assumes "dm_inv G d" "mget (services (dm_Registry d)) n = Some rec" "mget (services (dm_Registry d)) n' = Some rec'"
    and "n' \<noteq> n" "sr_Kind rec' = sr_Kind rec"
  shows "if sr_Kind rec = KindTCP then sr_Frontend rec' \<noteq> sr_Frontend rec else sr_Hostname rec' \<noteq> sr_Hostname rec"
proof -
  have inv: "rec_inv G d n rec" "rec_inv G d n' rec'" "rm_inv (dm_Runtime d) (dm_world d)" "hosts_unique (dm_Registry d)"
    using assms(1-3) by (auto simp: dm_inv_def)
  show ?thesis
  proof (cases "sr_Kind rec = KindTCP")
    case True
    then obtain rt rt' where rt: "Runtime_Get (dm_Runtime d) n = Some rt" "rt_Frontend rt = sr_Frontend rec"
        "Runtime_Get (dm_Runtime d) n' = Some rt'" "rt_Frontend rt' = sr_Frontend rec'"
      using inv(1,2) assms(5) by (auto simp: rec_inv_def)
    show ?thesis
      using True rt rm_inv_get [OF inv(3)] rm_inv_distinct [OF inv(3) rt(3,1) assms(4)]
      by (auto simp: rt_ok_def Runtime_Endpoint_def)
  next
    case False
    then have "sr_Hostname rec \<noteq> []" using inv(1) by (auto simp: rec_inv_def)
    then show ?thesis using False inv(4) assms(2-4) unfolding hosts_unique_def by metis
  qed
qed

lemma directory_publish:
  assumes "dm_Registry d1 = dm_Registry d"
  shows "directory_of (reg_publish R p pl fe d1) = dir_do (plan_publish pl p fe) (directory_of d)"
  using assms
  by (auto simp: fun_eq_iff directory_of_def Registry_Resolve_mget plan_publish_def plan_publication_def entry_of_def)

lemma publish_allowed:
  assumes "dm_inv G d" "reg_reject R p d = None" "env_ToLower (re_go R) = env_ToLower G"
    and F: "reg_frontend R p (pl_kind (reg_plan R p d)) (pl_hostname (reg_plan R p d)) (retired R p d) = (d1, Inr fe)"
  shows "dir_allowed (plan_publish (reg_plan R p d) p fe) (directory_of d)"
proof -
  let ?pl = "reg_plan R p d"
  let ?rec = "plan_record R p ?pl fe"
  note rej = reg_reject_None [OF assms(2)]
  have keep: "dm_Registry d1 = dm_Registry d" using reg_frontend_keeps(1) [OF F] by simp
  have 1: "same_service rec ?rec \<and> (sr_Backend rec \<noteq> None \<longrightarrow> sr_OwnerKey rec = pl_ownerKey ?pl)"
    if "mget (services (dm_Registry d)) (rp_Name p) = Some rec" for rec
  proof -
    have "rec_ok (rp_Name p) rec" using that assms(1) reg_wf_mget by (auto simp: dm_inv_def)
    then show ?thesis
      using publish_same_service [OF assms that] rej(7) that by (auto simp: CheckOwnership_None_iff rec_ok_def)
  qed
  have 2: "if sr_Kind ?rec = KindTCP then sr_Frontend rec \<noteq> sr_Frontend ?rec else sr_Hostname rec \<noteq> sr_Hostname ?rec"
    if "mget (services (dm_Registry d)) n = Some rec" "n \<noteq> rp_Name p" "sr_Kind rec = sr_Kind ?rec" for n rec
    by (rule exclusive [OF dm_inv_publish [OF assms(1-3) F]]) (use that keep in simp_all)
  have rec_of: "\<exists>rec. mget (services (dm_Registry d)) n = Some rec \<and> e = entry_of rec" if "directory_of d n = Some e" for n e
    using that by (auto simp: directory_of_def Registry_Resolve_mget)
  have 3: "en_Kind e = pl_kind ?pl \<and> en_Hostname e = (if pl_kind ?pl = KindHTTP then pl_hostname ?pl else []) \<and>
      en_Frontend e = fe \<and> (\<forall>q. en_Live e = Some q \<longrightarrow> pb_Owner q = pl_ownerKey ?pl)"
    if e: "directory_of d (rp_Name p) = Some e" for e
  proof -
    obtain rec where "mget (services (dm_Registry d)) (rp_Name p) = Some rec" "e = entry_of rec" using rec_of [OF e] by blast
    with 1 [of rec] show ?thesis by (auto simp: entry_of_def same_service_def)
  qed
  have 4: "if pl_kind ?pl = KindTCP then en_Frontend e \<noteq> fe
      else en_Hostname e \<noteq> (if pl_kind ?pl = KindHTTP then pl_hostname ?pl else [])"
    if e: "directory_of d n = Some e" "n \<noteq> rp_Name p" "en_Kind e = pl_kind ?pl" for n e
  proof -
    obtain rec where "mget (services (dm_Registry d)) n = Some rec" "e = entry_of rec" using rec_of [OF e(1)] by blast
    with 2 [of n rec] e(2,3) show ?thesis by (simp add: entry_of_def split: if_splits)
  qed
  have 5: "backend_ok (pb_Backend (plan_publication ?pl p))" "pb_Owner (plan_publication ?pl p) = pl_ownerKey ?pl"
    using backend_ok_validated [OF rej(3)] by (simp_all add: plan_publication_def)
  show ?thesis
    unfolding plan_publish_def dir_allowed.simps 5(2) using rej(1,2) 3 4 5(1) by blast
qed

lemma directory_end:
  "directory_of (fst (endPublication now n pid d)) = dir_do (Withdraw n pid) (directory_of d)"
proof
  fix m
  show "directory_of (fst (endPublication now n pid d)) m = dir_do (Withdraw n pid) (directory_of d) m"
    by (auto simp: directory_of_def Registry_Resolve_mget ClearBackendIf_mget entry_of_def split: option.splits)
qed

lemma Register_simulates:
  assumes "dm_inv G d" "env_ToLower (re_go R) = env_ToLower G"
  shows "\<exists>a. performs (d, P) (EvRegister R p) a \<and> dir_allowed a (directory_of d) \<and>
    directory_of (fst (Register R p d)) = dir_do a (directory_of d)"
proof -
  let ?pl = "reg_plan R p d"
  obtain d' r where reg: "Register R p d = (d', r)" by fastforce
  have skip: "dir_allowed Skip D \<and> dir_do Skip D = D" for D by simp
  have pub: "dir_allowed (plan_publish ?pl p fe) (directory_of d) \<and>
      directory_of (reg_publish R p ?pl fe d1) = dir_do (plan_publish ?pl p fe) (directory_of d)"
    if "reg_reject R p d = None" "reg_frontend R p (pl_kind ?pl) (pl_hostname ?pl) (retired R p d) = (d1, Inr fe)" for fe d1
    using publish_allowed [OF assms(1) that(1) assms(2) that(2)] directory_publish reg_frontend_keeps(1) [OF that(2)] by simp
  have lease: "directory_of (d\<lparr>dm_Lease := l\<rparr>) = directory_of d" for d l by (simp add: directory_of_def)
  from reg show ?thesis
  proof (cases rule: Register_cases)
    case (rejected c)
    then show ?thesis using reg refused [OF reg [unfolded rejected(3)]] by (intro exI [of _ Skip]) simp
  next
    case (unallocated c d1)
    then have "directory_of d' = directory_of d" using reg_frontend_keeps(1) [OF unallocated(3)] by (simp add: directory_of_def)
    then show ?thesis using reg refused [OF reg [unfolded unallocated(5)]] by (intro exI [of _ Skip]) simp
  next
    case (no_token fe d1)
    then show ?thesis using pub [OF no_token(1,2)] reg performs.no_token [OF reg [unfolded no_token(6)]]
      by (intro exI [of _ "plan_publish ?pl p fe"]) simp
  next
    case (docker fe d1)
    then show ?thesis using pub [OF docker(1,2)] reg acknowledged [OF reg [unfolded docker(5)]]
      by (intro exI [of _ "plan_publish ?pl p fe"]) simp
  next
    case (leased fe d1 token l e)
    then show ?thesis using pub [OF leased(1,2)] reg acknowledged [OF reg [unfolded leased(7)]] lease
      by (intro exI [of _ "plan_publish ?pl p fe"]) simp
  qed
qed

lemma event_simulates:
  assumes "dm_inv G (fst s)" "same_table G ev"
  shows "\<exists>a. performs s ev a \<and> dir_allowed a (directory_of (fst s)) \<and>
    directory_of (fst (apply_ev ev s)) = dir_do a (directory_of (fst s))"
proof -
  obtain d P where s: "s = (d, P)" by fastforce
  have same: "directory_of d' = directory_of d" if "dm_Registry d' = dm_Registry d" for d' using that by (simp add: directory_of_def)
  have skip: ?thesis if "performs s ev Skip" "dm_Registry (fst (apply_ev ev s)) = dm_Registry d"
    using that(1) same [OF that(2)] by (intro exI [of _ Skip]) (simp add: s)
  show ?thesis
  proof (cases ev)
    case (EvRegister R p)
    then show ?thesis using Register_simulates [of G d R P p] assms s by simp
  next
    case (EvHeartbeat now rid token)
    then show ?thesis by (intro skip) (simp_all add: s heartbeat)
  next
    case (EvDelete rid token)
    then show ?thesis by (intro skip) (simp_all add: s delete split: option.split prod.split)
  next
    case (EvSweep now)
    then show ?thesis by (intro skip) (simp_all add: s sweep split: prod.split)
  next
    case (EvEnd now n pid)
    show ?thesis
    proof (cases "(n, pid) \<in> set P")
      case True
      then show ?thesis using EvEnd directory_end [of now n pid d] s ended [OF True]
        by (intro exI [of _ "Withdraw n pid"]) (simp del: dir_do.simps)
    next
      case False
      then show ?thesis using EvEnd s not_pending [OF False] by (intro skip) simp_all
    qed
  next
    case (EvForget now n ownerKey cid)
    then show ?thesis using directory_end [of now n cid d] s forgotten
      by (intro exI [of _ "Withdraw n cid"]) (simp add: ForgetDockerPublication_def del: dir_do.simps)
  qed
qed

interpretation daemon_dir: directory_impl apply_ev "same_table G" "\<lambda>s. dm_inv G (fst s)" "\<lambda>s. directory_of (fst s)" performs for G
proof unfold_locales
  fix s :: sys and ev assume "dm_inv G (fst s)" "same_table G ev"
  then show "dm_inv G (fst (apply_ev ev s))" using daemon.inv_step [of G s "apply_ev ev s"] by (auto simp: sys_step_def)
qed (rule event_simulates)

text \<open>C3: The daemon implements a directory of services. For every history of registrations,
  heartbeats, removals, sweeps and Docker events there is a sequence of directory actions, one for
  each event and of that event's kind, that starts from the empty directory, in which each
  publication is allowed (it keeps the name's kind, host and frontend, takes over only an
  unavailable name or one of its own owner, and takes no other name's frontend or host) and which
  leads to the directory the daemon holds. An acknowledged registration publishes exactly its own
  backend under the frontend it returns. The directory decides what the TCP and HTTP proxies forward
  to.\<close>

theorem daemon_refines_directory:
  assumes "Daemon_New N cfg files lns = (files', lns', Inr d0)" and "distinct lns"
    and "\<forall>ev \<in> set evs. same_table G ev"
  shows "\<exists>as. length as = length evs \<and>
    (\<forall>i < length evs. performs (run (take i evs) (d0, [])) (evs ! i) (as ! i)) \<and>
    dir_run as Map.empty (directory_of (fst (run evs (d0, [])))) \<and> dir_ok (directory_of (fst (run evs (d0, [])))) \<and>
    (\<forall>n. let live = Option.bind (directory_of (fst (run evs (d0, []))) n) en_Live in
       tcp_provider (dm_Registry (fst (run evs (d0, [])))) n = map_option pb_Backend live \<and>
       http_provider (dm_Registry (fst (run evs (d0, [])))) n = map_option pb_Backend live)"
proof -
  let ?d = "fst (run evs (d0, []))"
  have inv0: "dm_inv G (fst (d0, []))" using dm_inv_New [OF assms(1,2)] by simp
  have "services (dm_Registry d0) = []"
    using assms(1)
  proof (cases rule: Daemon_New_cases)
    case (1 st scheme port cfg d1)
    then show ?thesis using bind_cases [OF 1(3)] assms(2) by (simp add: NewRegistry_def)
  qed
  then have empty: "directory_of d0 = Map.empty" by (simp add: directory_of_def Registry_Resolve_mget)
  have "list_all (same_table G) evs" using assms(3) by (simp add: list_all_iff)
  from daemon_dir.implements [OF inv0 this] obtain as
    where as: "length as = length evs" "\<forall>i < length evs. performs (run (take i evs) (d0, [])) (evs ! i) (as ! i)"
      "dir_run as Map.empty (directory_of ?d)"
    by (auto simp: run_def empty)
  have ok: "dir_ok (directory_of ?d)" using dir_ok_run [OF as(3)] by (simp add: dir_ok_def)
  have inv: "dm_inv G ?d" using daemon.steps_inv [OF run_steps [OF assms(3)] inv0] .
  have "rec_ok n rec" if "mget (services (dm_Registry ?d)) n = Some rec" for n rec
    using inv that reg_wf_mget by (auto simp: dm_inv_def)
  then have "let live = Option.bind (directory_of ?d n) en_Live in
       tcp_provider (dm_Registry ?d) n = map_option pb_Backend live \<and>
       http_provider (dm_Registry ?d) n = map_option pb_Backend live" for n
    by (auto simp: directory_of_def tcp_provider_def http_provider_def entry_of_def Registry_Resolve_mget rec_ok_def Let_def
        option.map_comp comp_def option.map_ident split: option.splits)
  with as ok show ?thesis by blast
qed

theorem daemon_refines_directory_witness:
  "\<exists>as d. length as = 3 \<and> dir_run as Map.empty (directory_of d) \<and> as ! 1 = Skip \<and> dir_ok (directory_of d) \<and>
     d = fst (run [EvRegister (sample_reg 5 1) (tcp_params ''db'' 16000 3), EvSweep (10 * Second), EvEnd 11 ''db'' (newID 1 [])]
       (sample_daemon, []))"
proof -
  let ?evs = "[EvRegister (sample_reg 5 1) (tcp_params ''db'' 16000 3), EvSweep (10 * Second), EvEnd 11 ''db'' (newID 1 [])]"
  have t: "\<forall>ev \<in> set ?evs. same_table sample_go ev" by (simp add: sample_reg_def)
  have d: "distinct ([] :: string list)" by simp
  obtain as where as: "length as = length ?evs"
      "\<forall>i < length ?evs. performs (run (take i ?evs) (sample_daemon, [])) (?evs ! i) (as ! i)"
      "dir_run as Map.empty (directory_of (fst (run ?evs (sample_daemon, []))))" "dir_ok (directory_of (fst (run ?evs (sample_daemon, []))))"
    using daemon_refines_directory [OF sample_New d t] by blast
  have "performs (run (take 1 ?evs) (sample_daemon, [])) (EvSweep (10 * Second)) (as ! 1)"
    using as(2) [rule_format, of 1] by simp
  then have "as ! 1 = Skip" by (cases rule: performs.cases) simp_all
  with as show ?thesis by (intro exI [of _ as]) simp
qed

end
