(* ===== verification/Go_Time.thy ===== *)
theory Go_Time
  imports Go_Std
begin

text \<open>
  The timestamps of the API: \<open>t.UTC().Format(time.RFC3339)\<close> and \<open>time.Parse(time.RFC3339, s)\<close>.
  A \<open>gotime\<close> counts nanoseconds from the zero \<open>time.Time\<close>, midnight of January 1 of year 1 in
  UTC; clock readings are later than that. The main lemma is that a formatted time parses
  back to itself, truncated to the second.
\<close>

section \<open>Definitions\<close>

definition days_before_year :: "int \<Rightarrow> int" where
  "days_before_year y = 365 * (y - 1) + (y - 1) div 4 - (y - 1) div 100 + (y - 1) div 400"

definition leap :: "int \<Rightarrow> bool" where
  "leap y \<longleftrightarrow> y mod 4 = 0 \<and> (y mod 100 \<noteq> 0 \<or> y mod 400 = 0)"

text \<open>The year of a day number and the day within it, by cycles of 400, 100, 4 and 1 years.\<close>

definition year_of :: "int \<Rightarrow> int \<times> int" where
  "year_of d =
     (let a = d div 146097; d1 = d - 146097 * a;
          b = min 3 (d1 div 36524); d2 = d1 - 36524 * b;
          c = d2 div 1461; d3 = d2 - 1461 * c;
          e = min 3 (d3 div 365) in
      (400 * a + 100 * b + 4 * c + e + 1, d3 - 365 * e))"

definition month_lengths :: "bool \<Rightarrow> int list" where
  "month_lengths lp = [31, if lp then 29 else 28, 31, 30, 31, 30, 31, 31, 30, 31, 30, 31]"

fun month_day :: "int list \<Rightarrow> int \<Rightarrow> int \<Rightarrow> int \<times> int" where
  "month_day [] m yd = (m, yd + 1)"
| "month_day (l # ls) m yd = (if yd < l then (m, yd + 1) else month_day ls (m + 1) (yd - l))"

definition pad :: "nat \<Rightarrow> int \<Rightarrow> string" where
  "pad w n = (let s = Itoa n in replicate (w - length s) CHR ''0'' @ s)"

definition time_Format :: "gotime \<Rightarrow> string" where
  "time_Format t =
     (let secs = t div Second; days = secs div 86400; s = secs mod 86400;
          (y, yd) = year_of days; (m, d) = month_day (month_lengths (leap y)) 1 yd in
      pad 4 y @ ''-'' @ pad 2 m @ ''-'' @ pad 2 d @ ''T'' @
      pad 2 (s div 3600) @ '':'' @ pad 2 (s div 60 mod 60) @ '':'' @ pad 2 (s mod 60) @ ''Z'')"

text \<open>
  The form that \<open>Format\<close> produces for a time in UTC is parsed here; \<open>other\<close> is what
  \<open>time.Parse\<close> makes of a string with a fraction, an offset or another irregularity.
\<close>

definition digits_at :: "string \<Rightarrow> nat \<Rightarrow> nat \<Rightarrow> int" where
  "digits_at s i n = (case digits_val 0 (take n (drop i s)) of Some v \<Rightarrow> int v | None \<Rightarrow> 0)"

definition utc_shape :: "string \<Rightarrow> bool" where
  "utc_shape s \<longleftrightarrow>
     length s = 20 \<and>
     list_all (\<lambda>i. is_digit (s ! i)) [0, 1, 2, 3, 5, 6, 8, 9, 11, 12, 14, 15, 17, 18] \<and>
     s ! 4 = CHR ''-'' \<and> s ! 7 = CHR ''-'' \<and> s ! 10 = CHR ''T'' \<and>
     s ! 13 = CHR '':'' \<and> s ! 16 = CHR '':'' \<and> s ! 19 = CHR ''Z''"

definition days_before_month :: "bool \<Rightarrow> int \<Rightarrow> int" where
  "days_before_month lp m = sum_list (take (nat (m - 1)) (month_lengths lp))"

definition time_Parse :: "(string \<Rightarrow> gotime option) \<Rightarrow> string \<Rightarrow> gotime option" where
  "time_Parse other s =
     (if utc_shape s then
        (let y = digits_at s 0 4; m = digits_at s 5 2; d = digits_at s 8 2;
             h = digits_at s 11 2; mi = digits_at s 14 2; sec = digits_at s 17 2 in
         if m < 1 \<or> 12 < m \<or> d < 1 \<or> month_lengths (leap y) ! nat (m - 1) < d \<or> 23 < h \<or> 59 < mi \<or> 59 < sec
         then None
         else Some (((days_before_year y + days_before_month (leap y) m + d - 1) * 86400 +
                     h * 3600 + mi * 60 + sec) * Second))
      else other s)"

section \<open>Lemmas\<close>

lemma cycle_parts:
  fixes d k n :: int
  assumes "0 \<le> d" "0 < k" "0 \<le> n"
  defines "q \<equiv> min n (d div k)"
  shows "0 \<le> q" "q \<le> n" "0 \<le> d - k * q" "d < k * (n + 1) + x \<Longrightarrow> 0 \<le> x \<Longrightarrow> d - k * q < k + x" "q < n \<Longrightarrow> d - k * q < k"
proof -
  have dk: "d = k * (d div k) + d mod k" "0 \<le> d mod k" "d mod k < k" "0 \<le> d div k"
    using assms by (simp_all add: pos_imp_zdiv_nonneg_iff)
  show "0 \<le> q" "q \<le> n" using dk assms by simp_all
  have "k * q \<le> k * (d div k)" using assms by simp
  then show "0 \<le> d - k * q" using dk by linarith
  show l: "d - k * q < k" if "q < n"
  proof -
    have "q = d div k" using that by (simp add: q_def min_def split: if_splits)
    then show ?thesis using dk by (simp add: minus_mult_div_eq_mod)
  qed
  show "d - k * q < k + x" if "d < k * (n + 1) + x" "0 \<le> x"
  proof (cases "q < n")
    case True
    then show ?thesis using l that by simp
  next
    case False
    then have "q = n" by (simp add: q_def)
    then show ?thesis using that by (simp add: algebra_simps)
  qed
qed

lemma year_of_parts:
  assumes "0 \<le> d" and "year_of d = (y, yd)"
  shows "days_before_year y + yd = d" and "0 \<le> yd" and "yd < (if leap y then 366 else 365)" and "1 \<le> y"
proof -
  define a where "a = d div 146097"
  define d1 where "d1 = d - 146097 * a"
  define b where "b = min 3 (d1 div 36524)"
  define d2 where "d2 = d1 - 36524 * b"
  define c where "c = d2 div 1461"
  define d3 where "d3 = d2 - 1461 * c"
  define e where "e = min 3 (d3 div 365)"
  have eq: "y = 400 * a + 100 * b + 4 * c + e + 1" "yd = d3 - 365 * e"
    using assms(2) unfolding year_of_def Let_def a_def [symmetric] d1_def [symmetric] b_def [symmetric]
      d2_def [symmetric] c_def [symmetric] d3_def [symmetric] e_def [symmetric] by (simp_all only: prod.inject)
  have a: "0 \<le> a" "0 \<le> d1" "d1 < 146097" using assms(1) by (auto simp: a_def d1_def minus_mult_div_eq_mod pos_imp_zdiv_nonneg_iff)
  have b: "0 \<le> b" "b \<le> 3" "0 \<le> d2" "d2 \<le> 36524" "b < 3 \<Longrightarrow> d2 < 36524"
    using cycle_parts(1,2,3,5) [of d1 36524 3] cycle_parts(4) [of d1 36524 3 1] a unfolding b_def d2_def by simp_all
  have d2: "d2 = 1461 * c + d2 mod 1461" "d3 = d2 mod 1461" by (simp_all add: c_def d3_def minus_mult_div_eq_mod)
  have c: "0 \<le> c" "0 \<le> d3" "d3 < 1461" using b by (simp_all add: c_def d2(2) pos_imp_zdiv_nonneg_iff)
  then have c24: "c \<le> 24" "c = 24 \<Longrightarrow> b < 3 \<Longrightarrow> d3 < 1460" using b d2 by linarith+
  have e: "0 \<le> e" "e \<le> 3" "0 \<le> yd" "yd \<le> 365" "e < 3 \<Longrightarrow> yd < 365"
    using cycle_parts(1,2,3,5) [of d3 365 3] cycle_parts(4) [of d3 365 3 1] c unfolding e_def eq by simp_all
  have dv: "(y - 1) div 4 = 100 * a + 25 * b + c" "(y - 1) div 100 = 4 * a + b" "(y - 1) div 400 = a"
    using b c c24 e unfolding eq by simp_all
  show "days_before_year y + yd = d"
    unfolding days_before_year_def dv by (simp add: eq d3_def d2_def d1_def)
  show "0 \<le> yd" "1 \<le> y" using a b c e eq by simp_all
  have "leap y" if "yd = 365"
  proof -
    have "e = 3" using e that by linarith
    moreover have "c < 24 \<or> b = 3"
    proof (rule ccontr)
      assume "\<not> (c < 24 \<or> b = 3)"
      then have "d3 < 1460" using c24 b by linarith
      then show False using that eq(2) \<open>e = 3\<close> by linarith
    qed
    moreover have "y = 400 * (a + 1)" if "c = 24" "b = 3" using that \<open>e = 3\<close> eq(1) by simp
    moreover have "y mod 100 = 4 * c + 4" if "c < 24"
    proof -
      have "y = 100 * (4 * a + b) + (4 * c + 4)" using \<open>e = 3\<close> eq(1) by simp
      then have "y mod 100 = (4 * c + 4) mod 100" by (simp only: mod_mult_self4)
      then show ?thesis using that c by simp
    qed
    moreover have "y = 4 * (100 * a + 25 * b + c + 1)" using \<open>e = 3\<close> eq(1) by simp
    then have "y mod 4 = 0" by simp
    ultimately show ?thesis using c c24 unfolding leap_def by (cases "c < 24") auto
  qed
  then show "yd < (if leap y then 366 else 365)" using e by (cases "yd = 365") auto
qed

lemma month_day_parts:
  assumes "0 \<le> yd" "yd < sum_list ls" "month_day ls m yd = (m', d)" "list_all (\<lambda>l. 0 < l) ls"
  shows "m \<le> m' \<and> m' < m + int (length ls) \<and> 1 \<le> d \<and> d \<le> ls ! nat (m' - m) \<and>
         sum_list (take (nat (m' - m)) ls) + d - 1 = yd"
  using assms
proof (induction ls arbitrary: m yd)
  case (Cons l ls)
  show ?case
  proof (cases "yd < l")
    case True
    then show ?thesis using Cons.prems by auto
  next
    case False
    then have "m + 1 \<le> m' \<and> m' < m + 1 + int (length ls) \<and> 1 \<le> d \<and> d \<le> ls ! nat (m' - (m + 1)) \<and>
         sum_list (take (nat (m' - (m + 1))) ls) + d - 1 = yd - l"
      using Cons by (intro Cons.IH) auto
    moreover from this have "nat (m' - m) = Suc (nat (m' - (m + 1)))" by linarith
    ultimately show ?thesis by auto
  qed
qed simp

lemma pad_digits:
  assumes "0 \<le> n" "n < 10 ^ w" "0 < w"
  shows "length (pad w n) = w" and "list_all is_digit (pad w n)" and "digits_val 0 (pad w n) = Some (nat n)"
proof -
  have it: "Itoa n = nat_digits (nat n)" using assms(1) by (simp add: Itoa_def)
  have len: "length (nat_digits k) \<le> w" if "k < 10 ^ w" "0 < w" for k w
    using that
  proof (induction k arbitrary: w rule: nat_digits.induct)
    case (1 n)
    show ?case
    proof (cases "n < 10")
      case True
      then show ?thesis using 1 by (subst nat_digits.simps) simp
    next
      case False
      have "w \<noteq> 1" using False 1(2) by auto
      then obtain v where v: "w = Suc v" "0 < v" using 1(3) by (cases w) auto
      have "n div 10 < 10 ^ v" using 1(2) v by (simp add: less_mult_imp_div_less mult.commute)
      then show ?thesis using 1(1) [OF False _ v(2)] False v by (subst nat_digits.simps) simp
    qed
  qed
  have n: "nat n < 10 ^ w" using assms by (simp add: nat_less_iff)
  show "length (pad w n) = w" using len [OF n assms(3)] by (simp add: pad_def it Let_def)
  show "list_all is_digit (pad w n)"
    using nat_digits_all_digits [of "nat n"] by (auto simp: pad_def it list_all_iff is_digit_def Let_def)
  have z: "digits_val 0 (replicate k CHR ''0'' @ s) = digits_val 0 s" for k s
    by (induction k) (simp_all add: is_digit_def digit_val_def)
  show "digits_val 0 (pad w n) = Some (nat n)" by (simp add: pad_def it z digits_val_nat_digits Let_def)
qed

lemma digits_at_chunk:
  "length a = i \<Longrightarrow> length b = n \<Longrightarrow> digits_val 0 b = Some v \<Longrightarrow> digits_at (a @ b @ c) i n = int v"
  by (simp add: digits_at_def)

lemma shape_of_fields:
  assumes "length y = 4" "length mo = 2" "length d = 2" "length h = 2" "length mi = 2" "length s = 2"
    and "list_all is_digit (y @ mo @ d @ h @ mi @ s)"
  shows "utc_shape (y @ ''-'' @ mo @ ''-'' @ d @ ''T'' @ h @ '':'' @ mi @ '':'' @ s @ ''Z'')"
  using assms by (auto simp: utc_shape_def length_Suc_conv eval_nat_numeral)

text \<open>Formatting a time before year 10000 and parsing it back truncates it to the second.\<close>

lemma time_Parse_Format:
  assumes "0 \<le> t" and "fst (year_of (t div Second div 86400)) \<le> 9999"
  shows "time_Parse other (time_Format t) = Some (t div Second * Second)"
proof -
  define secs where "secs = t div Second"
  define s where "s = secs mod 86400"
  obtain y yd where yd: "year_of (secs div 86400) = (y, yd)" by fastforce
  obtain m d where md: "month_day (month_lengths (leap y)) 1 yd = (m, d)" by fastforce
  have secs: "0 \<le> secs" using assms(1) by (simp add: secs_def pos_imp_zdiv_nonneg_iff)
  have nn: "0 \<le> secs div 86400" using secs by simp
  note yp = year_of_parts [OF nn yd]
  have y9: "y < 10 ^ 4" using assms(2) yd by (simp add: secs_def)
  have "yd < sum_list (month_lengths (leap y))" using yp(3) by (simp add: month_lengths_def split: if_splits)
  moreover have "list_all (\<lambda>l. 0 < l) (month_lengths (leap y))" "length (month_lengths (leap y)) = 12"
    by (simp_all add: month_lengths_def)
  ultimately have mp: "1 \<le> m \<and> m < 1 + int 12 \<and> 1 \<le> d \<and> d \<le> month_lengths (leap y) ! nat (m - 1) \<and>
         sum_list (take (nat (m - 1)) (month_lengths (leap y))) + d - 1 = yd"
    using month_day_parts [OF yp(2) _ md] by metis
  have mp': "1 \<le> m" "m \<le> 12" "1 \<le> d" "d \<le> month_lengths (leap y) ! nat (m - 1)"
    "sum_list (take (nat (m - 1)) (month_lengths (leap y))) + d - 1 = yd"
    using mp by simp_all
  have d31: "d < 10 ^ 2"
  proof -
    have "nat (m - 1) < length (month_lengths (leap y))" using mp' by (simp add: month_lengths_def)
    then have "month_lengths (leap y) ! nat (m - 1) \<in> set (month_lengths (leap y))" by (rule nth_mem)
    then have "month_lengths (leap y) ! nat (m - 1) \<le> 31" by (auto simp: month_lengths_def split: if_splits)
    then show ?thesis using mp' by simp
  qed
  have s: "0 \<le> s" "s < 86400" by (simp_all add: s_def)
  have hms: "0 \<le> s div 3600" "s div 3600 < 24" "0 \<le> s div 60 mod 60" "s div 60 mod 60 < 60" "0 \<le> s mod 60" "s mod 60 < 60"
    using s by auto
  have m2: "m < 10 ^ 2" using mp' by simp
  note py = pad_digits [of y 4, OF _ y9] and pm = pad_digits [of m 2, OF _ m2] and pd = pad_digits [of d 2, OF _ d31]
  have h2: "s div 3600 < 10 ^ 2" "s div 60 mod 60 < 10 ^ 2" "s mod 60 < 10 ^ 2" using hms by simp_all
  note ph = pad_digits [OF hms(1) h2(1)] and pmi = pad_digits [OF hms(3) h2(2)] and ps = pad_digits [OF hms(5) h2(3)]
  define Y M D H N S where fs: "Y = pad 4 y" "M = pad 2 m" "D = pad 2 d" "H = pad 2 (s div 3600)"
    "N = pad 2 (s div 60 mod 60)" "S = pad 2 (s mod 60)"
  have len: "length Y = 4" "length M = 2" "length D = 2" "length H = 2" "length N = 2" "length S = 2"
    using py(1) pm(1) pd(1) ph(1) pmi(1) ps(1) yp mp' by (simp_all add: fs)
  have dig: "list_all is_digit (Y @ M @ D @ H @ N @ S)"
    using py(2) pm(2) pd(2) ph(2) pmi(2) ps(2) yp mp' by (simp add: fs)
  define str where "str = Y @ ''-'' @ M @ ''-'' @ D @ ''T'' @ H @ '':'' @ N @ '':'' @ S @ ''Z''"
  have F: "time_Format t = str"
    using yd md by (simp add: time_Format_def Let_def str_def fs s_def secs_def)
  have shape: "utc_shape str" unfolding str_def by (rule shape_of_fields [OF len dig])
  have at: "digits_at str 0 4 = y" "digits_at str 5 2 = m" "digits_at str 8 2 = d"
    "digits_at str 11 2 = s div 3600" "digits_at str 14 2 = s div 60 mod 60" "digits_at str 17 2 = s mod 60"
  proof -
    have at: "digits_at str i n = v" if "str = a @ b @ c" "length a = i" "length b = n" "digits_val 0 b = Some (nat v)" "0 \<le> v" for a b c i n v
      using digits_at_chunk [OF that(2,3,4)] that(1,5) by simp
    have nn: "0 \<le> y" "0 \<le> m" "0 \<le> d" using yp mp' by simp_all
    show "digits_at str 0 4 = y"
      by (rule at [of "[]" Y]) (use len py(3) nn in \<open>simp_all add: str_def fs\<close>)
    show "digits_at str 5 2 = m"
      by (rule at [of "Y @ ''-''" M]) (use len pm(3) nn in \<open>simp_all add: str_def fs\<close>)
    show "digits_at str 8 2 = d"
      by (rule at [of "Y @ ''-'' @ M @ ''-''" D]) (use len pd(3) nn in \<open>simp_all add: str_def fs\<close>)
    show "digits_at str 11 2 = s div 3600"
      by (rule at [OF _ _ _ ph(3) [folded fs] hms(1), of "Y @ ''-'' @ M @ ''-'' @ D @ ''T''"]) (use len in \<open>simp_all add: str_def\<close>)
    show "digits_at str 14 2 = s div 60 mod 60"
      by (rule at [OF _ _ _ pmi(3) [folded fs] hms(3), of "Y @ ''-'' @ M @ ''-'' @ D @ ''T'' @ H @ '':''"]) (use len in \<open>simp_all add: str_def\<close>)
    show "digits_at str 17 2 = s mod 60"
      by (rule at [OF _ _ _ ps(3) [folded fs] hms(5), of "Y @ ''-'' @ M @ ''-'' @ D @ ''T'' @ H @ '':'' @ N @ '':''"]) (use len in \<open>simp_all add: str_def\<close>)
  qed
  have sum: "s div 3600 * 3600 + s div 60 mod 60 * 60 + s mod 60 = s"
  proof -
    have "s div 3600 = s div 60 div 60" using zdiv_zmult2_eq [of 60 s 60] by simp
    then show ?thesis using div_mult_mod_eq [of "s div 60" 60] div_mult_mod_eq [of s 60] by linarith
  qed
  have day: "days_before_year y + days_before_month (leap y) m + d - 1 = secs div 86400"
    using yp(1) mp'(5) by (simp add: days_before_month_def)
  have "(secs div 86400) * 86400 + s div 3600 * 3600 + s div 60 mod 60 * 60 + s mod 60 = secs"
    using sum div_mult_mod_eq [of secs 86400] unfolding s_def by linarith
  moreover have "\<not> (m < 1 \<or> 12 < m \<or> d < 1 \<or> month_lengths (leap y) ! nat (m - 1) < d \<or> 23 < s div 3600 \<or>
      59 < s div 60 mod 60 \<or> 59 < s mod 60)"
    using mp'(1-4) hms(2,4,6) by linarith
  ultimately show ?thesis
    using shape unfolding F time_Parse_def at Let_def day by (simp add: secs_def)
qed

end
