(* ===== verification/Go_Http.thy ===== *)
theory Go_Http
  imports Go_Json Go_Time
begin

text \<open>
  What the administrative API uses of \<open>net/http\<close>, \<open>net/url\<close> and \<open>encoding/json\<close>: requests
  and responses, the routing of \<open>http.ServeMux\<close>, and the encoding of Go structs as JSON
  objects and back, member by member. JSON text is valid UTF-8: the encoder replaces every
  invalid byte of a Go string by U+FFFD. The lemmas say when a value survives the trip.
\<close>

section \<open>Definitions\<close>

subsection \<open>Requests and responses\<close>

text \<open>
  \<open>hq_Path\<close> is \<open>r.URL.EscapedPath()\<close>, \<open>hq_Authorization\<close> the header of that name (empty when
  absent). \<open>hq_Body\<close> is what a JSON decoder finds first in the body.
\<close>

record http_request =
  hq_Method :: string
  hq_Path :: string
  hq_Authorization :: string
  hq_Body :: content

record http_response =
  hr_Status :: int
  hr_Body :: content

subsection \<open>ServeMux\<close>

datatype seg = Lit string | Wild

type_synonym 'h route = "string \<times> seg list \<times> 'h"

datatype 'h routed =
    Matched 'h "string list"
  | Moved string
  | MethodNotAllowed
  | NotFound

fun url_unescape :: "string \<Rightarrow> string option" where
  "url_unescape [] = Some []"
| "url_unescape (c # cs) =
     (if c \<noteq> CHR ''%'' then map_option ((#) c) (url_unescape cs)
      else (case cs of
              a # b # rest \<Rightarrow>
                if is_hex a \<and> is_hex b
                then map_option ((#) (char_of (16 * hex_val a + hex_val b))) (url_unescape rest)
                else None
            | _ \<Rightarrow> None))"

definition pathUnescape :: "string \<Rightarrow> string" where
  "pathUnescape s = (case url_unescape s of None \<Rightarrow> s | Some t \<Rightarrow> t)"

definition cleanPath :: "string \<Rightarrow> string" where
  "cleanPath p =
     (if p = [] then ''/''
      else
        (let p1 = (if hd p \<noteq> CHR ''/'' then CHR ''/'' # p else p); np = filepath_Clean p1 in
         if last p1 = CHR ''/'' \<and> np \<noteq> ''/'' then np @ ''/'' else np))"

text \<open>A trailing slash is a segment of its own, which no wildcard matches.\<close>

fun seg_values :: "string list \<Rightarrow> string list" where
  "seg_values [] = []"
| "seg_values [s] = [if s = [] then ''/'' else pathUnescape s]"
| "seg_values (s # t # ss) = pathUnescape s # seg_values (t # ss)"

definition path_segments :: "string \<Rightarrow> string list" where
  "path_segments p = seg_values (tl (split_on CHR ''/'' p))"

fun match_segs :: "seg list \<Rightarrow> string list \<Rightarrow> string list option" where
  "match_segs [] [] = Some []"
| "match_segs (Lit l # ps) (s # ss) = (if s = l then match_segs ps ss else None)"
| "match_segs (Wild # ps) (s # ss) = (if s \<noteq> ''/'' then map_option ((#) s) (match_segs ps ss) else None)"
| "match_segs _ _ = None"

definition method_ok :: "string \<Rightarrow> string \<Rightarrow> bool" where
  "method_ok pat m \<longleftrightarrow> m = pat \<or> (pat = ''GET'' \<and> m = ''HEAD'')"

fun first_route :: "'h route list \<Rightarrow> string \<Rightarrow> string list \<Rightarrow> 'h routed" where
  "first_route [] m ss = NotFound"
| "first_route ((pm, ps, h) # rs) m ss =
     (case match_segs ps ss of
        None \<Rightarrow> first_route rs m ss
      | Some vs \<Rightarrow>
          if method_ok pm m then Matched h vs
          else (case first_route rs m ss of NotFound \<Rightarrow> MethodNotAllowed | x \<Rightarrow> x))"

definition mux_find :: "'h route list \<Rightarrow> http_request \<Rightarrow> 'h routed" where
  "mux_find rs q =
     (let path = (if hq_Method q = ''CONNECT'' then hq_Path q else cleanPath (hq_Path q)) in
      if path \<noteq> hq_Path q then Moved path
      else first_route rs (hq_Method q) (path_segments path))"

subsection \<open>UTF-8\<close>

definition utf8_cont :: "char \<Rightarrow> bool" where
  "utf8_cont c \<longleftrightarrow> 128 \<le> byte c \<and> byte c < 192"

text \<open>The length of the well-formed code point at the head of a string; 0 when there is none.\<close>

definition rune_len :: "string \<Rightarrow> nat" where
  "rune_len s =
     (case s of
        [] \<Rightarrow> 0
      | a # r \<Rightarrow>
          (let n = byte a in
           if n < 128 then 1
           else if 194 \<le> n \<and> n < 224 then (case r of b # _ \<Rightarrow> if utf8_cont b then 2 else 0 | _ \<Rightarrow> 0)
           else if 224 \<le> n \<and> n < 240 then
             (case r of
                b # c # _ \<Rightarrow>
                  if utf8_cont b \<and> utf8_cont c \<and> (n = 224 \<longrightarrow> 160 \<le> byte b) \<and> (n = 237 \<longrightarrow> byte b < 160)
                  then 3 else 0
              | _ \<Rightarrow> 0)
           else if 240 \<le> n \<and> n < 245 then
             (case r of
                b # c # d # _ \<Rightarrow>
                  if utf8_cont b \<and> utf8_cont c \<and> utf8_cont d \<and> (n = 240 \<longrightarrow> 144 \<le> byte b) \<and>
                     (n = 244 \<longrightarrow> byte b < 144)
                  then 4 else 0
              | _ \<Rightarrow> 0)
           else 0))"

function coerce_utf8 :: "string \<Rightarrow> string" where
  "coerce_utf8 s =
     (case s of
        [] \<Rightarrow> []
      | _ # r \<Rightarrow>
          if rune_len s = 0 then [CHR 0xEF, CHR 0xBF, CHR 0xBD] @ coerce_utf8 r
          else take (rune_len s) s @ coerce_utf8 (drop (rune_len s) s))"
  by pat_completeness auto
termination
  by (relation "measure length") auto

declare coerce_utf8.simps [simp del]

definition valid_utf8 :: "string \<Rightarrow> bool" where
  "valid_utf8 s \<longleftrightarrow> coerce_utf8 s = s"

subsection \<open>Structs as JSON objects\<close>

definition js :: "string \<Rightarrow> json" where
  "js s = JStr (coerce_utf8 s)"

text \<open>Members of fields tagged \<open>omitempty\<close>.\<close>

definition omit_str :: "string \<Rightarrow> string \<Rightarrow> (string \<times> json) list" where
  "omit_str k s = (if s = [] then [] else [(k, js s)])"

definition omit_int :: "string \<Rightarrow> int \<Rightarrow> (string \<times> json) list" where
  "omit_int k i = (if i = 0 then [] else [(k, JInt i)])"

text \<open>
  Decoding an object into a struct: members in the order of the text, the later one wins; a
  name that no field has is an error only under \<open>DisallowUnknownFields\<close>. The decoder goes on
  after an error but the caller gets the error, not the struct.
\<close>

fun dec_members ::
  "string list \<Rightarrow> bool \<Rightarrow> (string \<Rightarrow> json \<Rightarrow> 'a \<Rightarrow> 'a option) \<Rightarrow> (string \<times> json) list \<Rightarrow> 'a \<Rightarrow> 'a option" where
  "dec_members names strict upd [] acc = Some acc"
| "dec_members names strict upd ((k, j) # ms) acc =
     (case field_match names k of
        None \<Rightarrow> if strict then None else dec_members names strict upd ms acc
      | Some f \<Rightarrow>
          (case upd f j acc of
             None \<Rightarrow> None
           | Some acc' \<Rightarrow> dec_members names strict upd ms acc'))"

definition dec_struct ::
  "string list \<Rightarrow> bool \<Rightarrow> (string \<Rightarrow> json \<Rightarrow> 'a \<Rightarrow> 'a option) \<Rightarrow> 'a \<Rightarrow> json \<Rightarrow> 'a option" where
  "dec_struct names strict upd old j =
     (case j of JNull \<Rightarrow> Some old | JObj ms \<Rightarrow> dec_members names strict upd ms old | _ \<Rightarrow> None)"

section \<open>Lemmas\<close>

lemma rune_len_ascii: "byte c < 128 \<Longrightarrow> rune_len (c # s) = 1"
  by (simp add: rune_len_def Let_def)

lemma valid_utf8_Nil [simp]: "valid_utf8 []"
  by (simp add: valid_utf8_def coerce_utf8.simps)

lemma valid_utf8_ascii: "\<forall>c \<in> set s. byte c < 128 \<Longrightarrow> valid_utf8 s"
proof (induction s)
  case (Cons c s)
  then show ?case
    by (simp add: valid_utf8_def coerce_utf8.simps [of "c # s"] rune_len_ascii)
qed simp

lemma js_valid [simp]: "valid_utf8 s \<Longrightarrow> js s = JStr s"
  by (simp add: js_def valid_utf8_def)

lemma dec_members_append:
  "dec_members names strict upd (xs @ ys) acc =
     (case dec_members names strict upd xs acc of None \<Rightarrow> None | Some acc' \<Rightarrow> dec_members names strict upd ys acc')"
  by (induction xs arbitrary: acc) (auto split: option.splits)

text \<open>An omitted member leaves the zero value, which is the value that was omitted.\<close>

lemma dec_omit_str:
  assumes "k \<in> set names" "valid_utf8 s" "s = [] \<Longrightarrow> acc' = acc" "s \<noteq> [] \<Longrightarrow> upd k (JStr s) acc = Some acc'"
  shows "dec_members names strict upd (omit_str k s @ ms) acc = dec_members names strict upd ms acc'"
  using assms by (auto simp: omit_str_def)

lemma dec_omit_int:
  assumes "k \<in> set names" "i = 0 \<Longrightarrow> acc' = acc" "i \<noteq> 0 \<Longrightarrow> upd k (JInt i) acc = Some acc'"
  shows "dec_members names strict upd (omit_int k i @ ms) acc = dec_members names strict upd ms acc'"
  using assms by (auto simp: omit_int_def)

lemma dec_string_JStr [simp]: "dec_string old (JStr s) = Some s"
  by (simp add: dec_string_def)

lemma match_segs_length: "match_segs ps ss = Some vs \<Longrightarrow> length ps = length ss"
  by (induction ps ss arbitrary: vs rule: match_segs.induct) (auto split: if_splits)

lemma first_route_in: "first_route rs m ss = Matched h vs \<Longrightarrow> \<exists>pm ps. (pm, ps, h) \<in> set rs \<and> method_ok pm m \<and> match_segs ps ss = Some vs"
  by (induction rs m ss rule: first_route.induct) (auto split: option.splits if_splits routed.splits)

lemma mux_find_Matched:
  "mux_find rs q = Matched h vs \<Longrightarrow>
     \<exists>pm ps. (pm, ps, h) \<in> set rs \<and> method_ok pm (hq_Method q) \<and> match_segs ps (path_segments (hq_Path q)) = Some vs"
  unfolding mux_find_def Let_def by (auto split: if_splits dest: first_route_in)

lemma pathUnescape_plain: "CHR ''%'' \<notin> set s \<Longrightarrow> pathUnescape s = s"
proof -
  assume "CHR ''%'' \<notin> set s"
  then have "url_unescape s = Some s" by (induction s) auto
  then show ?thesis by (simp add: pathUnescape_def)
qed

end
