(* ===== verification/Api.thy ===== *)
theory Api
  imports Go_Http Daemon_Events
begin

text \<open>
  \<open>internal/api\<close>: the administrative HTTP API over the daemon. The wire types with their
  JSON encodings, the mapping of error codes to HTTP statuses, the handlers, and the routes.
  A request is one function from the daemon's state to the state and the response it leaves.
  Error messages are not part of the daemon model: \<open>ae_message\<close> is the text an error carries.
\<close>

section \<open>Definitions\<close>

subsection \<open>Wire types (dto.go)\<close>

record BackendDTO =
  bd_Host :: string
  bd_Port :: int

record FrontendDTO =
  fd_Host :: string
  fd_Port :: int
  fd_URL :: string

record ServiceDTO =
  sd_Name :: string
  sd_Kind :: string
  sd_AppProtocol :: string
  sd_Status :: string
  sd_Frontend :: FrontendDTO

record InspectDTO =
  it_Name :: string
  it_Kind :: string
  it_AppProtocol :: string
  it_Status :: string
  it_Frontend :: FrontendDTO
  it_Backend :: "BackendDTO option"
  it_Source :: string
  it_OwnerKey :: string
  it_ProducerID :: string
  it_DockerContainerID :: string
  it_Hostname :: string

record HealthResponse =
  he_Status :: string
  he_Version :: string
  he_Docker :: string

record RegisterRequest =
  rg_Name :: string
  rg_Kind :: string
  rg_AppProtocol :: string
  rg_Source :: string
  rg_Backend :: BackendDTO
  rg_PreferredPort :: int
  rg_TTLSeconds :: int
  rg_HTTPHost :: string

record RegisterResponse =
  rx_RegistrationID :: string
  rx_LeaseToken :: string
  rx_Name :: string
  rx_Frontend :: FrontendDTO
  rx_ExpiresAt :: string
  rx_TTLSeconds :: int

subsection \<open>JSON encodings\<close>

definition enc_BackendDTO :: "BackendDTO \<Rightarrow> json" where
  "enc_BackendDTO b = JObj [(''host'', js (bd_Host b)), (''port'', JInt (bd_Port b))]"

definition enc_FrontendDTO :: "FrontendDTO \<Rightarrow> json" where
  "enc_FrontendDTO f =
     JObj ([(''host'', js (fd_Host f)), (''port'', JInt (fd_Port f))] @ omit_str ''url'' (fd_URL f))"

definition enc_ServiceDTO :: "ServiceDTO \<Rightarrow> json" where
  "enc_ServiceDTO s =
     JObj ([(''name'', js (sd_Name s)), (''kind'', js (sd_Kind s))] @ omit_str ''app_protocol'' (sd_AppProtocol s) @
           [(''status'', js (sd_Status s)), (''frontend'', enc_FrontendDTO (sd_Frontend s))])"

definition enc_InspectDTO :: "InspectDTO \<Rightarrow> json" where
  "enc_InspectDTO s =
     JObj ([(''name'', js (it_Name s)), (''kind'', js (it_Kind s))] @ omit_str ''app_protocol'' (it_AppProtocol s) @
           [(''status'', js (it_Status s)), (''frontend'', enc_FrontendDTO (it_Frontend s))] @
           (case it_Backend s of None \<Rightarrow> [] | Some b \<Rightarrow> [(''backend'', enc_BackendDTO b)]) @
           omit_str ''source'' (it_Source s) @ omit_str ''owner_key'' (it_OwnerKey s) @
           omit_str ''producer_id'' (it_ProducerID s) @ omit_str ''docker_container_id'' (it_DockerContainerID s) @
           omit_str ''hostname'' (it_Hostname s))"

definition enc_ListResponse :: "ServiceDTO list \<Rightarrow> json" where
  "enc_ListResponse ss = JObj [(''services'', JArr (map enc_ServiceDTO ss))]"

definition enc_HealthResponse :: "HealthResponse \<Rightarrow> json" where
  "enc_HealthResponse h =
     JObj [(''status'', js (he_Status h)), (''version'', js (he_Version h)), (''docker'', js (he_Docker h))]"

definition enc_RegisterRequest :: "RegisterRequest \<Rightarrow> json" where
  "enc_RegisterRequest r =
     JObj ([(''name'', js (rg_Name r))] @ omit_str ''kind'' (rg_Kind r) @ omit_str ''app_protocol'' (rg_AppProtocol r) @
           omit_str ''source'' (rg_Source r) @ [(''backend'', enc_BackendDTO (rg_Backend r))] @
           omit_int ''preferred_port'' (rg_PreferredPort r) @ omit_int ''ttl_seconds'' (rg_TTLSeconds r) @
           omit_str ''http_host'' (rg_HTTPHost r))"

definition enc_RegisterResponse :: "RegisterResponse \<Rightarrow> json" where
  "enc_RegisterResponse r =
     JObj ([(''registration_id'', js (rx_RegistrationID r))] @ omit_str ''lease_token'' (rx_LeaseToken r) @
           [(''name'', js (rx_Name r)), (''frontend'', enc_FrontendDTO (rx_Frontend r))] @
           omit_str ''expires_at'' (rx_ExpiresAt r) @ omit_int ''ttl_seconds'' (rx_TTLSeconds r))"

definition enc_HeartbeatResponse :: "string \<Rightarrow> json" where
  "enc_HeartbeatResponse expires = JObj [(''expires_at'', js expires)]"

definition set_BackendDTO :: "string \<Rightarrow> json \<Rightarrow> BackendDTO \<Rightarrow> BackendDTO option" where
  "set_BackendDTO f j b =
     (if f = ''host'' then map_option (\<lambda>v. b\<lparr>bd_Host := v\<rparr>) (dec_string (bd_Host b) j)
      else map_option (\<lambda>v. b\<lparr>bd_Port := v\<rparr>) (dec_int (bd_Port b) j))"

definition dec_BackendDTO :: "bool \<Rightarrow> BackendDTO \<Rightarrow> json \<Rightarrow> BackendDTO option" where
  "dec_BackendDTO strict = dec_struct [''host'', ''port''] strict set_BackendDTO"

definition RegisterRequest0 :: RegisterRequest where
  "RegisterRequest0 =
     \<lparr>rg_Name = [], rg_Kind = [], rg_AppProtocol = [], rg_Source = [], rg_Backend = \<lparr>bd_Host = [], bd_Port = 0\<rparr>,
      rg_PreferredPort = 0, rg_TTLSeconds = 0, rg_HTTPHost = []\<rparr>"

definition set_RegisterRequest :: "bool \<Rightarrow> string \<Rightarrow> json \<Rightarrow> RegisterRequest \<Rightarrow> RegisterRequest option" where
  "set_RegisterRequest strict f j r =
     (if f = ''name'' then map_option (\<lambda>v. r\<lparr>rg_Name := v\<rparr>) (dec_string (rg_Name r) j)
      else if f = ''kind'' then map_option (\<lambda>v. r\<lparr>rg_Kind := v\<rparr>) (dec_string (rg_Kind r) j)
      else if f = ''app_protocol'' then map_option (\<lambda>v. r\<lparr>rg_AppProtocol := v\<rparr>) (dec_string (rg_AppProtocol r) j)
      else if f = ''source'' then map_option (\<lambda>v. r\<lparr>rg_Source := v\<rparr>) (dec_string (rg_Source r) j)
      else if f = ''backend'' then map_option (\<lambda>v. r\<lparr>rg_Backend := v\<rparr>) (dec_BackendDTO strict (rg_Backend r) j)
      else if f = ''preferred_port'' then map_option (\<lambda>v. r\<lparr>rg_PreferredPort := v\<rparr>) (dec_int (rg_PreferredPort r) j)
      else if f = ''ttl_seconds'' then map_option (\<lambda>v. r\<lparr>rg_TTLSeconds := v\<rparr>) (dec_int (rg_TTLSeconds r) j)
      else map_option (\<lambda>v. r\<lparr>rg_HTTPHost := v\<rparr>) (dec_string (rg_HTTPHost r) j))"

definition RegisterRequest_fields :: "string list" where
  "RegisterRequest_fields =
     [''name'', ''kind'', ''app_protocol'', ''source'', ''backend'', ''preferred_port'', ''ttl_seconds'', ''http_host'']"

text \<open>\<open>decodeJSON\<close>: an empty or malformed body and an unknown field are errors.\<close>

definition decodeJSON :: "content \<Rightarrow> RegisterRequest option" where
  "decodeJSON body =
     (case body of
        Doc j \<Rightarrow> dec_struct RegisterRequest_fields True (set_RegisterRequest True) RegisterRequest0 j
      | _ \<Rightarrow> None)"

subsection \<open>Conversions\<close>

definition frontendDTO :: "Frontend \<Rightarrow> FrontendDTO" where
  "frontendDTO f = \<lparr>fd_Host = fe_Host f, fd_Port = fe_Port f, fd_URL = fe_URL f\<rparr>"

definition serviceDTO :: "ServiceInfo \<Rightarrow> ServiceDTO" where
  "serviceDTO i =
     \<lparr>sd_Name = si_Name i, sd_Kind = si_Kind i, sd_AppProtocol = si_AppProtocol i,
      sd_Status = Status_string (si_Status i), sd_Frontend = frontendDTO (si_Frontend i)\<rparr>"

definition inspectDTO :: "ServiceInfo \<Rightarrow> InspectDTO" where
  "inspectDTO i =
     \<lparr>it_Name = si_Name i, it_Kind = si_Kind i, it_AppProtocol = si_AppProtocol i,
      it_Status = Status_string (si_Status i), it_Frontend = frontendDTO (si_Frontend i),
      it_Backend = map_option (\<lambda>b. \<lparr>bd_Host = be_Host b, bd_Port = be_Port b\<rparr>) (si_Backend i),
      it_Source = si_Source i, it_OwnerKey = si_OwnerKey i, it_ProducerID = si_ProducerID i,
      it_DockerContainerID = si_DockerContainerID i, it_Hostname = si_Hostname i\<rparr>"

subsection \<open>Errors (errors.go)\<close>

definition statusForCode :: "(code, int) gomap" where
  "statusForCode =
     [(CodeInvalidRequest, 400), (CodeInvalidName, 400), (CodeInvalidBackend, 400), (CodeUnsupportedKind, 400),
      (CodeUnauthorized, 401), (CodeRegistrationNotFound, 404), (CodeServiceNotFound, 404), (CodeNameConflict, 409),
      (CodePortExhausted, 503), (CodeDockerUnavailable, 503), (CodeInternal, 500)]"

definition errorEnvelope :: "code \<Rightarrow> string \<Rightarrow> json" where
  "errorEnvelope c msg = JObj [(''error'', JObj [(''code'', js c), (''message'', js msg)])]"

definition writeJSON :: "int \<Rightarrow> json \<Rightarrow> http_response" where
  "writeJSON status j = \<lparr>hr_Status = status, hr_Body = Doc j\<rparr>"

definition writeError :: "(code \<Rightarrow> string) \<Rightarrow> code \<Rightarrow> http_response" where
  "writeError msg c =
     (let s = mget0 0 statusForCode c; status = (if s = 0 then 500 else s) in
      writeJSON status (errorEnvelope c (msg c)))"

subsection \<open>Handlers (handlers.go)\<close>

definition Version :: string where
  "Version = ''0.1.0''"

record api_env =
  ae_reg :: reg_env
  ae_now :: gotime        \<comment> \<open>\<open>time.Now()\<close> in a renewal and in the clearing of a backend\<close>
  ae_message :: "code \<Rightarrow> string"
  ae_moved :: int         \<comment> \<open>the status of a redirect of the mux, which depends on the Go release\<close>

definition bearerToken :: "http_request \<Rightarrow> string" where
  "bearerToken q =
     (if HasPrefix (hq_Authorization q) ''Bearer '' then TrimSpace (drop 7 (hq_Authorization q)) else [])"

definition handleHealth :: "Daemon \<Rightarrow> http_response" where
  "handleHealth d =
     writeJSON 200 (enc_HealthResponse \<lparr>he_Status = ''ok'', he_Version = Version, he_Docker = DockerStatus d\<rparr>)"

definition handleList :: "Daemon \<Rightarrow> http_response" where
  "handleList d = writeJSON 200 (enc_ListResponse (map serviceDTO (Daemon_List d)))"

definition handleResolve :: "api_env \<Rightarrow> string \<Rightarrow> Daemon \<Rightarrow> http_response" where
  "handleResolve A name d =
     (case Daemon_Resolve d name of
        Inl c \<Rightarrow> writeError (ae_message A) c
      | Inr info \<Rightarrow> writeJSON 200 (enc_ServiceDTO (serviceDTO info)))"

definition handleInspect :: "api_env \<Rightarrow> string \<Rightarrow> Daemon \<Rightarrow> http_response" where
  "handleInspect A name d =
     (case Daemon_Inspect d name of
        Inl c \<Rightarrow> writeError (ae_message A) c
      | Inr info \<Rightarrow> writeJSON 200 (enc_InspectDTO (inspectDTO info)))"

definition register_params :: "RegisterRequest \<Rightarrow> Source \<Rightarrow> RegisterParams" where
  "register_params req source =
     \<lparr>rp_Name = rg_Name req, rp_Kind = rg_Kind req, rp_AppProtocol = rg_AppProtocol req,
      rp_Backend = \<lparr>be_Host = bd_Host (rg_Backend req), be_Port = bd_Port (rg_Backend req)\<rparr>,
      rp_PreferredPort = rg_PreferredPort req, rp_TTLSeconds = rg_TTLSeconds req, rp_Source = source,
      rp_OwnerKey = [], rp_RegistrationID = [], rp_DockerContainerID = [], rp_HTTPHost = rg_HTTPHost req\<rparr>"

definition register_response :: "RegisterResult \<Rightarrow> RegisterResponse" where
  "register_response res =
     \<lparr>rx_RegistrationID = rr_RegistrationID res, rx_LeaseToken = rr_LeaseToken res, rx_Name = rr_Name res,
      rx_Frontend = frontendDTO (rr_Frontend res),
      rx_ExpiresAt = (case rr_ExpiresAt res of None \<Rightarrow> [] | Some t \<Rightarrow> time_Format t),
      rx_TTLSeconds = rr_TTLSeconds res\<rparr>"

definition handleRegister :: "api_env \<Rightarrow> http_request \<Rightarrow> Daemon \<Rightarrow> Daemon \<times> http_response" where
  "handleRegister A q d =
     (case decodeJSON (hq_Body q) of
        None \<Rightarrow> (d, writeError (ae_message A) CodeInvalidRequest)
      | Some req \<Rightarrow>
          (let source = (if rg_Source req = [] then SourceProcess else rg_Source req) in
           if source \<noteq> SourceProcess \<and> source \<noteq> SourceManual
           then (d, writeError (ae_message A) CodeInvalidRequest)
           else
             (case Register (ae_reg A) (register_params req source) d of
                (d', Inl c) \<Rightarrow> (d', writeError (ae_message A) c)
              | (d', Inr res) \<Rightarrow> (d', writeJSON 201 (enc_RegisterResponse (register_response res))))))"

definition handleHeartbeat :: "api_env \<Rightarrow> string \<Rightarrow> http_request \<Rightarrow> Daemon \<Rightarrow> Daemon \<times> http_response" where
  "handleHeartbeat A rid q d =
     (case Heartbeat (ae_now A) rid (bearerToken q) d of
        (d', Inl c) \<Rightarrow> (d', writeError (ae_message A) c)
      | (d', Inr exp) \<Rightarrow> (d', writeJSON 200 (enc_HeartbeatResponse (time_Format exp))))"

definition handleDelete :: "api_env \<Rightarrow> string \<Rightarrow> http_request \<Rightarrow> Daemon \<Rightarrow> Daemon \<times> http_response" where
  "handleDelete A rid q d =
     (case DeleteRegistration (ae_now A) rid (bearerToken q) d of
        (d', Some c) \<Rightarrow> (d', writeError (ae_message A) c)
      | (d', None) \<Rightarrow> (d', \<lparr>hr_Status = 204, hr_Body = Empty\<rparr>))"

subsection \<open>Routes (server.go)\<close>

datatype handler = HHealth | HList | HResolve | HInspect | HRegister | HHeartbeat | HDelete

definition routes :: "handler route list" where
  "routes =
     [(''GET'', [Lit ''v1'', Lit ''health''], HHealth),
      (''GET'', [Lit ''v1'', Lit ''services''], HList),
      (''GET'', [Lit ''v1'', Lit ''services'', Wild], HResolve),
      (''GET'', [Lit ''v1'', Lit ''services'', Wild, Lit ''inspect''], HInspect),
      (''POST'', [Lit ''v1'', Lit ''registrations''], HRegister),
      (''POST'', [Lit ''v1'', Lit ''registrations'', Wild, Lit ''heartbeat''], HHeartbeat),
      (''DELETE'', [Lit ''v1'', Lit ''registrations'', Wild], HDelete)]"

fun call_handler :: "api_env \<Rightarrow> handler \<Rightarrow> string list \<Rightarrow> http_request \<Rightarrow> Daemon \<Rightarrow> Daemon \<times> http_response" where
  "call_handler A HHealth vs q d = (d, handleHealth d)"
| "call_handler A HList vs q d = (d, handleList d)"
| "call_handler A HResolve vs q d = (d, handleResolve A (hd vs) d)"
| "call_handler A HInspect vs q d = (d, handleInspect A (hd vs) d)"
| "call_handler A HRegister vs q d = handleRegister A q d"
| "call_handler A HHeartbeat vs q d = handleHeartbeat A (hd vs) q d"
| "call_handler A HDelete vs q d = handleDelete A (hd vs) q d"

text \<open>The server: the mux's own answers are plain text; a HEAD response has no body.\<close>

definition plain :: "int \<Rightarrow> http_response" where
  "plain status = \<lparr>hr_Status = status, hr_Body = Garbage []\<rparr>"

definition Api_serve :: "api_env \<Rightarrow> http_request \<Rightarrow> Daemon \<Rightarrow> Daemon \<times> http_response" where
  "Api_serve A q d =
     (let (d', resp) =
            (case mux_find routes q of
               Matched h vs \<Rightarrow> call_handler A h vs q d
             | Moved path \<Rightarrow> (d, plain (ae_moved A))
             | MethodNotAllowed \<Rightarrow> (d, plain 405)
             | NotFound \<Rightarrow> (d, plain 404)) in
      (d', if hq_Method q = ''HEAD'' then resp\<lparr>hr_Body := Empty\<rparr> else resp))"

subsection \<open>Reference definitions\<close>

text \<open>A record as the list and the resolve endpoints may show it.\<close>

definition public_view :: "ServiceRecord \<Rightarrow> ServiceRecord" where
  "public_view rec =
     rec\<lparr>sr_Backend := None, sr_Source := [], sr_OwnerKey := [], sr_ProducerID := [], sr_DockerContainerID := [],
         sr_Hostname := [], sr_UpdatedAt := 0\<rparr>"

definition same_public :: "Daemon \<Rightarrow> Daemon \<Rightarrow> bool" where
  "same_public d1 d2 \<longleftrightarrow>
     map (\<lambda>(n, rec). (n, public_view rec)) (services (dm_Registry d1)) =
     map (\<lambda>(n, rec). (n, public_view rec)) (services (dm_Registry d2)) \<and>
     DockerStatus d1 = DockerStatus d2"

definition sample_api :: api_env where
  "sample_api = \<lparr>ae_reg = sample_reg 6 2, ae_now = 6, ae_message = (\<lambda>_. []), ae_moved = 301\<rparr>"

definition wire_ok :: "RegisterRequest \<Rightarrow> bool" where
  "wire_ok r \<longleftrightarrow>
     list_all valid_utf8 [rg_Name r, rg_Kind r, rg_AppProtocol r, rg_Source r, bd_Host (rg_Backend r), rg_HTTPHost r] \<and>
     int64 (bd_Port (rg_Backend r)) \<and> int64 (rg_PreferredPort r) \<and> int64 (rg_TTLSeconds r)"

section \<open>Lemmas\<close>

subsection \<open>Round trip of the registration request\<close>

lemma dec_enc_BackendDTO:
  assumes "valid_utf8 (bd_Host b)" "int64 (bd_Port b)"
  shows "dec_BackendDTO strict old (enc_BackendDTO b) = Some b"
  using assms by (simp add: dec_BackendDTO_def enc_BackendDTO_def dec_struct_def set_BackendDTO_def)

lemma dec_single:
  "k \<in> set names \<Longrightarrow> upd k j acc = Some acc' \<Longrightarrow>
     dec_members names strict upd ([(k, j)] @ ms) acc = dec_members names strict upd ms acc'"
  by simp

text \<open>The server decodes, with unknown fields disallowed, exactly the request that was encoded.\<close>

lemma decode_enc_RegisterRequest:
  assumes "wire_ok r"
  shows "decodeJSON (Doc (enc_RegisterRequest r)) = Some r"
proof -
  let ?u = "set_RegisterRequest True" and ?f = RegisterRequest_fields
  obtain n k a s b p t h where r: "r = \<lparr>rg_Name = n, rg_Kind = k, rg_AppProtocol = a, rg_Source = s, rg_Backend = b,
      rg_PreferredPort = p, rg_TTLSeconds = t, rg_HTTPHost = h\<rparr>" by (cases r)
  have v: "valid_utf8 n" "valid_utf8 k" "valid_utf8 a" "valid_utf8 s" "valid_utf8 (bd_Host b)" "valid_utf8 h"
      "int64 (bd_Port b)" "int64 p" "int64 t" using assms by (simp_all add: wire_ok_def r)
  note u = set_RegisterRequest_def RegisterRequest_fields_def
  let ?r1 = "RegisterRequest0\<lparr>rg_Name := n\<rparr>"
  let ?r2 = "?r1\<lparr>rg_Kind := k\<rparr>" let ?r3 = "?r2\<lparr>rg_AppProtocol := a\<rparr>" let ?r4 = "?r3\<lparr>rg_Source := s\<rparr>"
  let ?r5 = "?r4\<lparr>rg_Backend := b\<rparr>" let ?r6 = "?r5\<lparr>rg_PreferredPort := p\<rparr>" let ?r7 = "?r6\<lparr>rg_TTLSeconds := t\<rparr>"
  let ?r8 = "?r7\<lparr>rg_HTTPHost := h\<rparr>"
  have 1: "dec_members ?f True ?u ([(''name'', js n)] @ ms) RegisterRequest0 = dec_members ?f True ?u ms ?r1" for ms
    by (rule dec_single) (simp_all add: u v)
  have 2: "dec_members ?f True ?u (omit_str ''kind'' k @ ms) ?r1 = dec_members ?f True ?u ms ?r2" for ms
    by (rule dec_omit_str) (simp_all add: u v RegisterRequest0_def)
  have 3: "dec_members ?f True ?u (omit_str ''app_protocol'' a @ ms) ?r2 = dec_members ?f True ?u ms ?r3" for ms
    by (rule dec_omit_str) (simp_all add: u v RegisterRequest0_def)
  have 4: "dec_members ?f True ?u (omit_str ''source'' s @ ms) ?r3 = dec_members ?f True ?u ms ?r4" for ms
    by (rule dec_omit_str) (simp_all add: u v RegisterRequest0_def)
  have 5: "dec_members ?f True ?u ([(''backend'', enc_BackendDTO b)] @ ms) ?r4 = dec_members ?f True ?u ms ?r5" for ms
    by (rule dec_single) (simp_all add: u dec_enc_BackendDTO [OF v(5,7)])
  have 6: "dec_members ?f True ?u (omit_int ''preferred_port'' p @ ms) ?r5 = dec_members ?f True ?u ms ?r6" for ms
    by (rule dec_omit_int) (simp_all add: u dec_int_JInt [OF v(8)] RegisterRequest0_def)
  have 7: "dec_members ?f True ?u (omit_int ''ttl_seconds'' t @ ms) ?r6 = dec_members ?f True ?u ms ?r7" for ms
    by (rule dec_omit_int) (simp_all add: u dec_int_JInt [OF v(9)] RegisterRequest0_def)
  have 8: "dec_members ?f True ?u (omit_str ''http_host'' h @ []) ?r7 = dec_members ?f True ?u [] ?r8"
    by (rule dec_omit_str) (simp_all add: u v RegisterRequest0_def)
  have "dec_members ?f True ?u ([(''name'', js n)] @ omit_str ''kind'' k @ omit_str ''app_protocol'' a @
      omit_str ''source'' s @ [(''backend'', enc_BackendDTO b)] @ omit_int ''preferred_port'' p @
      omit_int ''ttl_seconds'' t @ omit_str ''http_host'' h @ []) RegisterRequest0 = Some ?r8"
    by (simp only: 1 2 3 4 5 6 7 8 dec_members.simps)
  then show ?thesis
    by (simp add: decodeJSON_def dec_struct_def enc_RegisterRequest_def r RegisterRequest0_def)
qed

subsection \<open>Which requests change what\<close>

lemma call_handler_reads:
  "h \<in> {HHealth, HList, HResolve, HInspect} \<Longrightarrow> fst (call_handler A h vs q d) = d"
  by auto

lemma routes_read: "(pm, ps, h) \<in> set routes \<Longrightarrow> pm = ''GET'' \<Longrightarrow> h \<in> {HHealth, HList, HResolve, HInspect}"
  by (auto simp: routes_def)

lemma routes_method: "(pm, ps, h) \<in> set routes \<Longrightarrow> pm = ''GET'' \<or> pm = ''POST'' \<or> pm = ''DELETE''"
  by (auto simp: routes_def)

lemma Api_serve_GET: "hq_Method q = ''GET'' \<or> hq_Method q = ''HEAD'' \<Longrightarrow> fst (Api_serve A q d) = d"
proof (cases "mux_find routes q")
  case (Matched h vs)
  assume m: "hq_Method q = ''GET'' \<or> hq_Method q = ''HEAD''"
  obtain pm ps where r: "(pm, ps, h) \<in> set routes" "method_ok pm (hq_Method q)"
    using mux_find_Matched [OF Matched] by blast
  have "pm = ''GET''" using routes_method [OF r(1)] r(2) m by (auto simp: method_ok_def)
  then have "fst (call_handler A h vs q d) = d" using call_handler_reads routes_read [OF r(1)] by blast
  then show ?thesis by (cases "call_handler A h vs q d") (simp add: Api_serve_def Matched)
qed (simp_all add: Api_serve_def)

lemma same_public_resolve:
  assumes "same_public d1 d2"
  shows "map_option public_view (Registry_Resolve (dm_Registry d1) name) =
         map_option public_view (Registry_Resolve (dm_Registry d2) name)"
proof -
  have mo: "mget (map (\<lambda>(n, rec). (n, public_view rec)) xs) name = map_option public_view (mget xs name)" for xs
    by (induction xs) auto
  show ?thesis using assms mo by (metis same_public_def Registry_Resolve_mget)
qed

lemma dto_public: "serviceDTO (infoFromRecord (public_view rec) False) = serviceDTO (infoFromRecord rec False)"
  by (simp add: serviceDTO_def infoFromRecord_def public_view_def)

lemma map_insort_key_public:
  "map public_view (insort_key sr_Name x xs) = insort_key sr_Name (public_view x) (map public_view xs)"
  by (induction xs) (auto simp: public_view_def)

lemma same_public_list:
  assumes "same_public d1 d2"
  shows "map serviceDTO (Daemon_List d1) = map serviceDTO (Daemon_List d2)"
proof -
  have sk: "map public_view (sort_key sr_Name xs) = sort_key sr_Name (map public_view xs)" for xs
    by (induction xs) (simp_all add: map_insort_key_public)
  have eq: "map serviceDTO (Daemon_List d) = map (\<lambda>rec. serviceDTO (infoFromRecord rec False))
      (sort_key sr_Name (map public_view (map snd (services (dm_Registry d)))))" for d
    unfolding sk [symmetric] by (simp add: Daemon_List_def Registry_List_snd dto_public comp_def)
  have "map public_view (map snd (services (dm_Registry d1))) = map public_view (map snd (services (dm_Registry d2)))"
    using assms by (auto simp: same_public_def dest!: arg_cong [where f = "map snd"] simp: comp_def case_prod_beta)
  then show ?thesis by (simp only: eq)
qed

text \<open>C17: Reading is harmless. A GET or HEAD request changes nothing, and unless it asks for
  \<open>inspect\<close> its answer does not depend on backends, sources, owner keys, producer or
  container identities or host names: two daemons that differ only there answer alike.\<close>

theorem api_reads_hide_internals:
  assumes "hq_Method q = ''GET'' \<or> hq_Method q = ''HEAD''"
  shows "fst (Api_serve A q d) = d \<and>
    (same_public d d' \<longrightarrow> (\<forall>vs. mux_find routes q \<noteq> Matched HInspect vs) \<longrightarrow>
       snd (Api_serve A q d) = snd (Api_serve A q d'))"
proof -
  have "snd (Api_serve A q d) = snd (Api_serve A q d')"
    if "same_public d d'" "\<forall>vs. mux_find routes q \<noteq> Matched HInspect vs"
  proof (cases "mux_find routes q")
    case (Matched h vs)
    obtain pm ps where r: "(pm, ps, h) \<in> set routes" "method_ok pm (hq_Method q)"
      using mux_find_Matched [OF Matched] by blast
    have "pm = ''GET''" using routes_method [OF r(1)] r(2) assms by (auto simp: method_ok_def)
    then have "h = HHealth \<or> h = HList \<or> h = HResolve" using routes_read [OF r(1)] that(2) Matched by blast
    then have "snd (call_handler A h vs q d) = snd (call_handler A h vs q d')"
    proof (elim disjE)
      assume "h = HHealth"
      then show ?thesis using that(1) by (simp add: handleHealth_def same_public_def)
    next
      assume "h = HList"
      then show ?thesis using same_public_list [OF that(1)] by (simp add: handleList_def)
    next
      assume "h = HResolve"
      then show ?thesis
        using same_public_resolve [OF that(1), of "hd vs"]
        by (auto simp: handleResolve_def Daemon_Resolve_def split: option.splits) (metis dto_public)+
    qed
    then show ?thesis
      by (cases "call_handler A h vs q d"; cases "call_handler A h vs q d'") (simp add: Api_serve_def Matched)
  qed (simp_all add: Api_serve_def)
  then show ?thesis using Api_serve_GET [OF assms] by blast
qed

theorem api_reads_hide_internals_witness:
  "\<exists>q d. hq_Method q = ''GET'' \<and> hq_Path q = ''/v1/services'' \<and> same_public (sample_registered 5 3) d \<and>
     Registry_Resolve (dm_Registry d) ''db'' \<noteq> Registry_Resolve (dm_Registry (sample_registered 5 3)) ''db'' \<and>
     snd (Api_serve sample_api q (sample_registered 5 3)) = snd (Api_serve sample_api q d)"
proof -
  define d0 where "d0 = sample_registered 5 3"
  obtain rec where s: "services (dm_Registry d0) = [(''db'', rec)]" and r: "sr_ProducerID rec = newID 1 []"
    using sample_registered(1) [of 3 5] by (auto simp: d0_def)
  define d where "d = d0\<lparr>dm_Registry := (dm_Registry d0)\<lparr>services := [(''db'', rec\<lparr>sr_ProducerID := []\<rparr>)]\<rparr>\<rparr>"
  define q where "q = \<lparr>hq_Method = ''GET'', hq_Path = ''/v1/services'', hq_Authorization = [], hq_Body = Empty\<rparr>"
  have m: "hq_Method q = ''GET'' \<or> hq_Method q = ''HEAD''" by (simp add: q_def)
  have sp: "same_public d0 d" using s by (simp add: same_public_def d_def public_view_def DockerStatus_def)
  have "mux_find routes q = Matched HList []"
    unfolding q_def by code_simp
  then have "snd (Api_serve sample_api q d0) = snd (Api_serve sample_api q d)"
    using api_reads_hide_internals [OF m, of sample_api d0 d] sp by simp
  moreover have "newID 1 [] \<noteq> []" by code_simp
  then have "Registry_Resolve (dm_Registry d) ''db'' \<noteq> Registry_Resolve (dm_Registry d0) ''db''"
    using s r by (auto simp: d_def Registry_Resolve_mget dest: arg_cong [where f = sr_ProducerID])
  ultimately show ?thesis using sp by (intro exI [of _ q] exI [of _ d]) (simp add: q_def d0_def)
qed

subsection \<open>Authority\<close>

lemma Register_registry:
  assumes "Register R p d = (d', r)" "Registry_Resolve (dm_Registry d') name = Some rec"
  shows "Registry_Resolve (dm_Registry d) name = Some rec \<or>
    (reg_reject R p d = None \<and> name = rp_Name p \<and> (\<exists>fe. rec = plan_record R p (reg_plan R p d) fe))"
  using assms(1)
proof (cases rule: Register_cases)
  case (unallocated c d1)
  then show ?thesis using assms(2) reg_frontend_keeps(1) [OF unallocated(3)] by simp
next
  case (no_token fe d1)
  then show ?thesis
    using assms(2) reg_frontend_keeps(1) [OF no_token(2)] by (auto simp: Registry_Resolve_mget split: if_splits)
next
  case (docker fe d1)
  then show ?thesis
    using assms(2) reg_frontend_keeps(1) [OF docker(2)] by (auto simp: Registry_Resolve_mget split: if_splits)
next
  case (leased fe d1 token l e)
  then show ?thesis
    using assms(2) reg_frontend_keeps(1) [OF leased(2)] by (auto simp: Registry_Resolve_mget split: if_splits)
qed (use assms(2) in simp)

lemma Delete_registry:
  assumes "DeleteRegistration now rid token d = (d', r)" "Registry_Resolve (dm_Registry d') name = Some rec"
    "lease_wf (dm_Lease d)" "Registry_Resolve (dm_Registry d) name \<noteq> Some rec"
  shows "\<exists>old e. Registry_Resolve (dm_Registry d) name = Some old \<and> sr_ProducerID old = rid \<and>
    rec = old\<lparr>sr_Backend := None, sr_Status := StatusUnavailable, sr_UpdatedAt := now\<rparr> \<and>
    Lease_Get (dm_Lease d) rid = Some e \<and> le_Name e = name \<and> le_Token e = token"
proof (cases "Lease_Get (dm_Lease d) rid")
  case None
  then show ?thesis using assms by (simp add: DeleteRegistration_def)
next
  case (Some e)
  have k: "le_RegistrationID e = rid" using lease_wf_mget [OF assms(3)] Some by (simp add: Lease_Get_def entry_ok_def)
  show ?thesis
  proof (cases "token = le_Token e")
    case True
    then have "d' = fst (endPublication now (le_Name e) rid (d\<lparr>dm_Lease := Lease_Remove (dm_Lease d) rid\<rparr>))"
      using assms(1) Some k by (simp add: DeleteRegistration_def Lease_Delete_cases)
    then show ?thesis using assms(2,4) Some True
      by (auto simp: Registry_Resolve_mget ClearBackendIf_mget split: option.splits if_splits)
  next
    case False
    then show ?thesis using assms(1,2,4) Some by (auto simp: DeleteRegistration_def Lease_Delete_cases)
  qed
qed

lemma api_plan:
  assumes "source = SourceProcess \<or> source = SourceManual"
  shows "pl_source (reg_plan R (register_params req source) d) = source"
    and "pl_regID (reg_plan R (register_params req source) d) = newID (re_ms R) (re_id_bytes R)"
    and "pl_producerID (reg_plan R (register_params req source) d) = newID (re_ms R) (re_id_bytes R)"
    and "pl_ownerKey (reg_plan R (register_params req source) d) = source @ '':'' @ newID (re_ms R) (re_id_bytes R)"
  using assms by (auto simp: reg_plan_def register_params_def Let_def)

lemma handleRegister_registry:
  assumes "handleRegister A q d = (d', resp)" "Registry_Resolve (dm_Registry d') name = Some rec"
    "Registry_Resolve (dm_Registry d) name \<noteq> Some rec"
  shows "sr_Source rec \<in> {SourceProcess, SourceManual} \<and> sr_DockerContainerID rec = [] \<and>
    sr_ProducerID rec = newID (re_ms (ae_reg A)) (re_id_bytes (ae_reg A)) \<and>
    sr_OwnerKey rec = sr_Source rec @ '':'' @ sr_ProducerID rec \<and>
    (\<forall>old. Registry_Resolve (dm_Registry d) name = Some old \<longrightarrow>
       sr_OwnerKey old = sr_OwnerKey rec \<or> sr_Status old = StatusUnavailable)"
proof -
  obtain req where req: "decodeJSON (hq_Body q) = Some req"
    using assms by (cases "decodeJSON (hq_Body q)") (auto simp: handleRegister_def)
  define source where "source = (if rg_Source req = [] then SourceProcess else rg_Source req)"
  have src: "source = SourceProcess \<or> source = SourceManual"
    using assms req by (auto simp: handleRegister_def source_def Let_def split: if_splits)
  let ?p = "register_params req source"
  obtain r where reg: "Register (ae_reg A) ?p d = (d', r)"
    using assms(1) req src
    by (cases "Register (ae_reg A) ?p d") (auto simp: handleRegister_def source_def [symmetric] Let_def split: sum.splits)
  from Register_registry [OF reg assms(2)] assms(3)
  have n: "reg_reject (ae_reg A) ?p d = None" "name = rp_Name ?p"
    and rec: "\<exists>fe. rec = plan_record (ae_reg A) ?p (reg_plan (ae_reg A) ?p d) fe" by auto
  have own: "sr_OwnerKey old = pl_ownerKey (reg_plan (ae_reg A) ?p d) \<or> sr_Status old = StatusUnavailable"
    if "Registry_Resolve (dm_Registry d) name = Some old" for old
    using reg_reject_None(7) [OF n(1)] that n(2) by (simp add: CheckOwnership_None_iff Registry_Resolve_mget)
  obtain fe where fe: "rec = plan_record (ae_reg A) ?p (reg_plan (ae_reg A) ?p d) fe" using rec by blast
  have dc: "rp_DockerContainerID ?p = []" by (simp add: register_params_def)
  have mem: "source \<in> {SourceProcess, SourceManual}" using src by blast
  note pl = api_plan [OF src, of "ae_reg A" req d]
  have "sr_Source rec = source" "sr_DockerContainerID rec = []" "sr_ProducerID rec = newID (re_ms (ae_reg A)) (re_id_bytes (ae_reg A))"
    "sr_OwnerKey rec = source @ '':'' @ newID (re_ms (ae_reg A)) (re_id_bytes (ae_reg A))"
    by (simp_all only: fe plan_record_simps pl dc)
  then show ?thesis using own mem by (simp only: pl(4)) blast
qed

text \<open>C18: What a request can do to the services. Whatever request arrives, a record that is
  not as it was before is either a new publication with an identity issued by the daemon,
  of source process or manual and without a container (the API cannot claim a Docker
  publication), put where no other owner's service was ready; or it is the old record with
  its backend cleared, and the request carried the token of that publication's lease.\<close>

theorem api_authority:
  assumes "reach sys_init (sys_step G) (d, P)" and "Api_serve A q d = (d', resp)"
    and "Registry_Resolve (dm_Registry d') name = Some rec" and "Registry_Resolve (dm_Registry d) name \<noteq> Some rec"
  shows "(sr_Source rec \<in> {SourceProcess, SourceManual} \<and> sr_DockerContainerID rec = [] \<and>
      sr_ProducerID rec = newID (re_ms (ae_reg A)) (re_id_bytes (ae_reg A)) \<and>
      sr_OwnerKey rec = sr_Source rec @ '':'' @ sr_ProducerID rec \<and>
      (\<forall>old. Registry_Resolve (dm_Registry d) name = Some old \<longrightarrow>
         sr_OwnerKey old = sr_OwnerKey rec \<or> sr_Status old = StatusUnavailable)) \<or>
    (\<exists>old e. Registry_Resolve (dm_Registry d) name = Some old \<and>
      rec = old\<lparr>sr_Backend := None, sr_Status := StatusUnavailable, sr_UpdatedAt := ae_now A\<rparr> \<and>
      Lease_Get (dm_Lease d) (sr_ProducerID old) = Some e \<and> le_Name e = name \<and> le_Token e = bearerToken q)"
proof -
  have wf: "lease_wf (dm_Lease d)" using daemon.reach_inv [OF assms(1)] by (simp add: dm_inv_def)
  obtain h vs r where m: "mux_find routes q = Matched h vs" and c: "call_handler A h vs q d = (d', r)"
    using assms(2-4) by (auto simp: Api_serve_def split: routed.splits prod.splits)
  show ?thesis
  proof (cases h)
    case HRegister
    then show ?thesis using handleRegister_registry [OF _ assms(3,4)] c by auto
  next
    case HHeartbeat
    then have "d' = fst (Heartbeat (ae_now A) (hd vs) (bearerToken q) d)"
      using c by (simp add: handleHeartbeat_def split: prod.splits sum.splits)
    then show ?thesis using assms(3,4) by simp
  next
    case HDelete
    obtain x where "DeleteRegistration (ae_now A) (hd vs) (bearerToken q) d = (d', x)"
      using c HDelete by (auto simp: handleDelete_def split: prod.splits option.splits)
    from Delete_registry [OF this assms(3) wf assms(4)] show ?thesis by auto
  qed (use c assms(3,4) in auto)
qed

theorem api_authority_witness:
  "\<exists>d d' rec old e. reach sys_init (sys_step sample_go) (d, []) \<and>
     Api_serve sample_api \<lparr>hq_Method = ''DELETE'', hq_Path = ''/v1/registrations/1'',
       hq_Authorization = ''Bearer 6b'', hq_Body = Empty\<rparr> d = (d', \<lparr>hr_Status = 204, hr_Body = Empty\<rparr>) \<and>
     Registry_Resolve (dm_Registry d) ''db'' = Some old \<and> sr_Status old = StatusReady \<and>
     Registry_Resolve (dm_Registry d') ''db'' = Some rec \<and> sr_Status rec = StatusUnavailable \<and>
     Lease_Get (dm_Lease d) (sr_ProducerID old) = Some e \<and> le_Token e = ''6b''"
proof -
  let ?q = "\<lparr>hq_Method = ''DELETE'', hq_Path = ''/v1/registrations/1'', hq_Authorization = ''Bearer 6b'', hq_Body = Empty\<rparr>"
  define d where "d = sample_registered 5 3"
  obtain old where s: "services (dm_Registry d) = [(''db'', old)]"
      and old: "sr_ProducerID old = newID 1 []" "sr_Status old = StatusReady" "sr_Source old = ''process''"
    using sample_registered(1) [of 3 5] by (auto simp: d_def)
  have r: "Registry_Resolve (dm_Registry d) ''db'' = Some old" using s by (simp add: Registry_Resolve_mget)
  have i: "newID 1 [] = ''1''" "hex_EncodeToString ''k'' = ''6b''" by code_simp+
  have l: "dm_Lease d = fst (AddWithTTL 5 (dm_Lease sample_daemon) (newID 1 []) ''db''
      (''process:'' @ newID 1 []) (hex_EncodeToString ''k'') (3 * Second))"
    using sample_registered(2) [of 3 5] by (simp add: d_def)
  obtain e where e: "Lease_Get (dm_Lease d) ''1'' = Some e" "le_Name e = ''db''" "le_RegistrationID e = ''1''" "le_Token e = ''6b''"
    by (simp add: l [unfolded i] Lease_Get_def AddWithTTL_def Let_def)
  have m: "mux_find routes ?q = Matched HDelete [''1'']" by code_simp
  have b: "bearerToken ?q = ''6b''" by code_simp
  obtain d' where d': "d' = fst (endPublication 6 ''db'' ''1'' (d\<lparr>dm_Lease := Lease_Remove (dm_Lease d) ''1''\<rparr>))" by simp
  have "DeleteRegistration 6 ''1'' ''6b'' d = (d', None)"
    using e by (simp add: DeleteRegistration_def Lease_Delete_cases d')
  then have sv: "Api_serve sample_api ?q d = (d', \<lparr>hr_Status = 204, hr_Body = Empty\<rparr>)"
    by (simp add: Api_serve_def m handleDelete_def b sample_api_def)
  let ?rec = "old\<lparr>sr_Backend := None, sr_Status := StatusUnavailable, sr_UpdatedAt := 6\<rparr>"
  have rec: "Registry_Resolve (dm_Registry d') ''db'' = Some ?rec"
    using s old i by (simp add: d' Registry_Resolve_mget ClearBackendIf_mget)
  have ne: "Registry_Resolve (dm_Registry d) ''db'' \<noteq> Some ?rec" using r old(2) by (auto dest: arg_cong [where f = sr_Status])
  have rch: "reach sys_init (sys_step sample_go) (d, [])" unfolding d_def by (rule sample_registered_reach)
  have nid: "sr_ProducerID ?rec \<noteq> newID (re_ms (ae_reg sample_api)) (re_id_bytes (ae_reg sample_api))"
    using old i by (simp add: sample_api_def sample_reg_def) code_simp
  from api_authority [OF rch sv rec ne] nid r b obtain e' where
    "Lease_Get (dm_Lease d) (sr_ProducerID old) = Some e'" "le_Token e' = ''6b''" by auto
  then show ?thesis using rch sv r old rec by (intro exI [of _ d] exI [of _ d'] exI [of _ ?rec] exI [of _ old] exI [of _ e']) simp
qed

subsection \<open>Statuses\<close>

lemma Register_error_codes:
  assumes "Register R p d = (d', Inl c)"
  shows "(c \<in> {CodeInvalidName, CodeUnsupportedKind, CodeInvalidBackend, CodeInvalidRequest, CodeNameConflict} \<and> d' = d) \<or>
    c \<in> {CodePortExhausted, CodeInternal}"
  using assms
proof (cases rule: Register_cases)
  case (rejected c)
  then show ?thesis by (auto simp: reg_reject_def Let_def split: if_splits)
next
  case (unallocated c' d1)
  then show ?thesis by (auto simp: reg_frontend_def split: if_splits prod.splits sum.splits alloc_error.splits)
qed auto

lemma statusForCode_values:
  "mget statusForCode CodeInvalidName = Some 400" "mget statusForCode CodeUnsupportedKind = Some 400"
  "mget statusForCode CodeInvalidBackend = Some 400" "mget statusForCode CodeInvalidRequest = Some 400"
  "mget statusForCode CodeNameConflict = Some 409" "mget statusForCode CodePortExhausted = Some 503"
  "mget statusForCode CodeInternal = Some 500" "mget statusForCode CodeUnauthorized = Some 401"
  "mget statusForCode CodeRegistrationNotFound = Some 404" "mget statusForCode CodeServiceNotFound = Some 404"
  by (simp_all add: statusForCode_def)



end
