(* ===== verification/Api_Types.thy ===== *)
theory Api_Types
  imports Api
begin

text \<open>
  The types of the documents the administrative API answers with, and that every answer has the
  type of its route. A type says more than the Go struct does: which members are always there, which
  strings are enumerations or service names, that a port is a port, and that every string is UTF-8.
\<close>

section \<open>Definitions\<close>

datatype jtype =
    TString
  | TName
  | TEnum "string list"
  | TInt
  | TPort
  | TList jtype
  | TObject "jfield list"
and jfield = Field (fl_name: string) (fl_required: bool) (fl_type: jtype)

text \<open>An object has only declared members, none of them twice, and all the required ones.\<close>

fun has_type :: "jtype \<Rightarrow> json \<Rightarrow> bool"
and has_fields :: "jfield list \<Rightarrow> (string \<times> json) list \<Rightarrow> bool" where
  "has_type TString j = (case j of JStr s \<Rightarrow> valid_utf8 s | _ \<Rightarrow> False)"
| "has_type TName j = (case j of JStr s \<Rightarrow> ValidateName s = None | _ \<Rightarrow> False)"
| "has_type (TEnum vs) j = (case j of JStr s \<Rightarrow> s \<in> set vs | _ \<Rightarrow> False)"
| "has_type TInt j = (case j of JInt i \<Rightarrow> True | _ \<Rightarrow> False)"
| "has_type TPort j = (case j of JInt i \<Rightarrow> 1 \<le> i \<and> i \<le> 65535 | _ \<Rightarrow> False)"
| "has_type (TList t) j = (case j of JArr xs \<Rightarrow> list_all (has_type t) xs | _ \<Rightarrow> False)"
| "has_type (TObject fs) j =
     (case j of
        JObj ms \<Rightarrow> distinct (map fst ms) \<and> set (map fst ms) \<subseteq> set (map fl_name fs) \<and> has_fields fs ms
      | _ \<Rightarrow> False)"
| "has_fields [] ms = True"
| "has_fields (Field k required t # fs) ms =
     ((case mget ms k of None \<Rightarrow> \<not> required | Some v \<Rightarrow> has_type t v) \<and> has_fields fs ms)"

subsection \<open>The documents\<close>

definition T_Backend :: jtype where
  "T_Backend = TObject [Field ''host'' True TString, Field ''port'' True TPort]"

definition T_Frontend :: jtype where
  "T_Frontend = TObject [Field ''host'' True TString, Field ''port'' True TInt, Field ''url'' False TString]"

definition service_fields :: "jfield list" where
  "service_fields =
     [Field ''name'' True TName, Field ''kind'' True (TEnum [''tcp'', ''http'']), Field ''app_protocol'' False TString,
      Field ''status'' True (TEnum [''ready'', ''unavailable'']), Field ''frontend'' True T_Frontend]"

definition T_Service :: jtype where
  "T_Service = TObject service_fields"

definition T_Inspect :: jtype where
  "T_Inspect = TObject (service_fields @
     [Field ''backend'' False T_Backend, Field ''source'' False TString, Field ''owner_key'' False TString,
      Field ''producer_id'' False TString, Field ''docker_container_id'' False TString, Field ''hostname'' False TString])"

definition T_Health :: jtype where
  "T_Health = TObject [Field ''status'' True (TEnum [''ok'']), Field ''version'' True TString, Field ''docker'' True TString]"

definition T_Register :: jtype where
  "T_Register = TObject
     [Field ''registration_id'' True TString, Field ''lease_token'' False TString, Field ''name'' True TName,
      Field ''frontend'' True T_Frontend, Field ''expires_at'' False TString, Field ''ttl_seconds'' False TInt]"

definition T_Heartbeat :: jtype where
  "T_Heartbeat = TObject [Field ''expires_at'' True TString]"

definition T_Error :: jtype where
  "T_Error = TObject [Field ''error'' True (TObject
     [Field ''code'' True (TEnum (map fst statusForCode)), Field ''message'' True TString])]"

text \<open>The status and the document of a request that succeeds; \<open>DELETE\<close> has no document.\<close>

fun answer_type :: "handler \<Rightarrow> int \<times> jtype option" where
  "answer_type HHealth = (200, Some T_Health)"
| "answer_type HList = (200, Some (TObject [Field ''services'' True (TList T_Service)]))"
| "answer_type HResolve = (200, Some T_Service)"
| "answer_type HInspect = (200, Some T_Inspect)"
| "answer_type HRegister = (201, Some T_Register)"
| "answer_type HHeartbeat = (200, Some T_Heartbeat)"
| "answer_type HDelete = (204, None)"

fun body_typed :: "jtype option \<Rightarrow> content \<Rightarrow> bool" where
  "body_typed None b \<longleftrightarrow> b = Empty"
| "body_typed (Some t) (Doc j) \<longleftrightarrow> has_type t j"
| "body_typed (Some t) _ \<longleftrightarrow> False"

definition answers :: "int \<times> jtype option \<Rightarrow> http_response \<Rightarrow> bool" where
  "answers ty resp \<longleftrightarrow> hr_Status resp = fst ty \<and> body_typed (snd ty) (hr_Body resp)"

text \<open>An error: an envelope whose code belongs to the status.\<close>

definition answers_error :: "http_response \<Rightarrow> bool" where
  "answers_error resp \<longleftrightarrow> body_typed (Some T_Error) (hr_Body resp) \<and>
     (\<exists>c msg. hr_Body resp = Doc (errorEnvelope c msg) \<and> mget statusForCode c = Some (hr_Status resp))"

text \<open>What the documents of a service rely on.\<close>

definition info_ok :: "ServiceInfo \<Rightarrow> bool" where
  "info_ok i \<longleftrightarrow> ValidateName (si_Name i) = None \<and> si_Kind i \<in> {KindTCP, KindHTTP} \<and>
     (\<forall>b. si_Backend i = Some b \<longrightarrow> 1 \<le> be_Port b \<and> be_Port b \<le> 65535)"

section \<open>Lemmas\<close>

subsection \<open>Strings are UTF-8\<close>

lemma rune_len_range:
  "194 \<le> byte a \<and> byte a < 224 \<Longrightarrow>
     rune_len (a # r) = (case r of b # _ \<Rightarrow> if utf8_cont b then 2 else 0 | _ \<Rightarrow> 0)"
  "224 \<le> byte a \<and> byte a < 240 \<Longrightarrow>
     rune_len (a # r) = (case r of b # c # _ \<Rightarrow>
       if utf8_cont b \<and> utf8_cont c \<and> (byte a = 224 \<longrightarrow> 160 \<le> byte b) \<and> (byte a = 237 \<longrightarrow> byte b < 160) then 3 else 0 | _ \<Rightarrow> 0)"
  "240 \<le> byte a \<and> byte a < 245 \<Longrightarrow>
     rune_len (a # r) = (case r of b # c # d # _ \<Rightarrow>
       if utf8_cont b \<and> utf8_cont c \<and> utf8_cont d \<and> (byte a = 240 \<longrightarrow> 144 \<le> byte b) \<and> (byte a = 244 \<longrightarrow> byte b < 144)
       then 4 else 0 | _ \<Rightarrow> 0)"
  by (simp_all add: rune_len_def Let_def)

lemma rune_len_append:
  assumes "rune_len s \<noteq> 0"
  shows "rune_len (take (rune_len s) s @ t) = rune_len s"
proof (cases s)
  case Nil
  then show ?thesis using assms by (simp add: rune_len_def)
next
  case (Cons a r)
  consider "byte a < 128" | "194 \<le> byte a \<and> byte a < 224" | "224 \<le> byte a \<and> byte a < 240" | "240 \<le> byte a \<and> byte a < 245"
    using assms unfolding Cons rune_len_def by (auto simp: Let_def split: if_splits)
  then show ?thesis
  proof cases
    case 1
    then show ?thesis by (simp add: Cons rune_len_ascii)
  next
    case 2
    then show ?thesis using assms by (cases r) (auto simp: Cons rune_len_range(1) split: if_splits)
  next
    case 3
    then show ?thesis using assms
      by (cases r rule: list.exhaust, simp add: Cons rune_len_range(2), cases "tl r")
         (auto simp: Cons rune_len_range(2) split: if_splits)
  next
    case 4
    obtain b c d u where r: "r = b # c # d # u"
      using assms by (auto simp: Cons rune_len_range(3) [OF 4] split: list.splits)
    then show ?thesis using assms by (auto simp: Cons rune_len_range(3) [OF 4] split: if_splits)
  qed
qed

lemma rune_len_le: "rune_len s \<le> length s"
  by (auto simp: rune_len_def Let_def split: list.splits)

lemma coerce_Cons:
  "coerce_utf8 (a # r) =
     (if rune_len (a # r) = 0 then [CHR 0xEF, CHR 0xBF, CHR 0xBD] @ coerce_utf8 r
      else take (rune_len (a # r)) (a # r) @ coerce_utf8 (drop (rune_len (a # r)) (a # r)))"
  by (subst coerce_utf8.simps) simp

lemma coerce_rune:
  assumes "rune_len r = length r" "r \<noteq> []"
  shows "coerce_utf8 (r @ t) = r @ coerce_utf8 t"
proof -
  have n: "rune_len (r @ t) = length r" using rune_len_append [of r t] assms by simp
  obtain a r' where "r = a # r'" using assms(2) by (cases r) auto
  then show ?thesis using n by (simp add: coerce_Cons)
qed

lemma coerce_valid: "valid_utf8 (coerce_utf8 s)"
proof (induction s rule: coerce_utf8.induct)
  case (1 s)
  show ?case
  proof (cases s)
    case Nil
    then show ?thesis by (simp add: coerce_utf8.simps)
  next
    case (Cons a r)
    let ?n = "rune_len s"
    show ?thesis
    proof (cases "?n = 0")
      case True
      have "coerce_utf8 ([CHR 0xEF, CHR 0xBF, CHR 0xBD] @ t) = [CHR 0xEF, CHR 0xBF, CHR 0xBD] @ coerce_utf8 t" for t
        by (rule coerce_rune) (simp_all add: rune_len_def Let_def utf8_cont_def)
      then show ?thesis using True Cons "1.IH"(1) [OF Cons] by (simp add: valid_utf8_def coerce_Cons)
    next
      case False
      have "rune_len (take ?n s) = length (take ?n s)" using rune_len_append [OF False, of "[]"] rune_len_le [of s] by simp
      moreover have "take ?n s \<noteq> []" using False Cons by simp
      ultimately show ?thesis using False Cons "1.IH"(2) [OF Cons False] coerce_rune [of "take ?n s"]
        by (simp add: valid_utf8_def coerce_Cons)
    qed
  qed
qed

lemma js_string [simp]: "has_type TString (js s)"
  by (simp add: js_def coerce_valid)

declare has_type.simps(1-3) [simp del]

lemma nameRe_ascii:
  "nameRe_label s \<Longrightarrow> \<forall>c \<in> set s. byte c < 128"
  "nameRe_rest s \<Longrightarrow> \<forall>c \<in> set s. byte c < 128"
  by (induction s rule: nameRe_label_nameRe_rest.induct) (auto simp: name_char_def name_alnum_def split: if_splits)

lemma js_name: "ValidateName n = None \<Longrightarrow> has_type TName (js n)"
  using valid_utf8_ascii [of n] nameRe_ascii(1) [of n]
  by (auto simp: ValidateName_def has_type.simps(2) split: if_splits)

lemma js_enum: "s \<in> set vs \<Longrightarrow> \<forall>c \<in> set s. byte c < 128 \<Longrightarrow> has_type (TEnum vs) (js s)"
  by (simp add: has_type.simps(3) valid_utf8_ascii)

subsection \<open>Documents have their types\<close>

lemma type_Frontend [simp]: "has_type T_Frontend (enc_FrontendDTO f)"
  by (simp add: T_Frontend_def enc_FrontendDTO_def omit_str_def)

lemma type_Backend: "1 \<le> bd_Port b \<Longrightarrow> bd_Port b \<le> 65535 \<Longrightarrow> has_type T_Backend (enc_BackendDTO b)"
  by (simp add: T_Backend_def enc_BackendDTO_def)

lemma kind_typed: "k \<in> {KindTCP, KindHTTP} \<Longrightarrow> has_type (TEnum [''tcp'', ''http'']) (js k)"
  by (rule js_enum) auto

lemma status_typed: "has_type (TEnum [''ready'', ''unavailable'']) (js (Status_string s))"
  by (rule js_enum) (cases s; simp)+

lemma type_Service:
  assumes "info_ok i"
  shows "has_type T_Service (enc_ServiceDTO (serviceDTO i))"
  using assms js_name kind_typed status_typed
  by (simp add: T_Service_def service_fields_def enc_ServiceDTO_def serviceDTO_def info_ok_def omit_str_def)

lemma type_Inspect:
  assumes "info_ok i"
  shows "has_type T_Inspect (enc_InspectDTO (inspectDTO i))"
proof -
  have "has_type T_Backend (enc_BackendDTO \<lparr>bd_Host = be_Host b, bd_Port = be_Port b\<rparr>)" if "si_Backend i = Some b" for b
    using assms that by (intro type_Backend) (simp_all add: info_ok_def)
  with assms js_name kind_typed status_typed show ?thesis
    by (auto simp: T_Inspect_def service_fields_def enc_InspectDTO_def inspectDTO_def info_ok_def omit_str_def split: option.splits)
qed

lemma type_Health: "has_type T_Health (enc_HealthResponse \<lparr>he_Status = ''ok'', he_Version = v, he_Docker = x\<rparr>)"
  using js_enum [of "''ok''" "[''ok'']"] by (simp add: T_Health_def enc_HealthResponse_def)

lemma type_Register: "ValidateName (rx_Name r) = None \<Longrightarrow> has_type T_Register (enc_RegisterResponse r)"
  using js_name by (simp add: T_Register_def enc_RegisterResponse_def omit_str_def omit_int_def)

lemma type_Heartbeat: "has_type T_Heartbeat (enc_HeartbeatResponse t)"
  by (simp add: T_Heartbeat_def enc_HeartbeatResponse_def)

lemma code_ascii: "list_all (\<lambda>(c, s). (\<forall>x \<in> set c. byte x < 128) \<and> s \<noteq> 0) statusForCode"
  by (simp add: statusForCode_def)

lemma error_typed:
  assumes "c \<in> set (map fst statusForCode)"
  shows "answers_error (writeError msg c)"
proof -
  obtain st where st: "(c, st) \<in> set statusForCode" using assms by auto
  then have c: "\<forall>x \<in> set c. byte x < 128" "st \<noteq> 0" using code_ascii by (auto simp: list_all_iff)
  have "mwf statusForCode" by (simp add: statusForCode_def mwf_def mkeys_def)
  then have get: "mget statusForCode c = Some st" using st mget_iff by metis
  have "has_type T_Error (errorEnvelope c (msg c))"
    using js_enum [OF assms c(1)] by (simp add: T_Error_def errorEnvelope_def)
  then show ?thesis
    using get c(2) by (auto simp: answers_error_def writeError_def writeJSON_def mget0_def Let_def)
qed

subsection \<open>Every handler answers with its type\<close>

lemma record_info_ok:
  assumes "dm_inv G d" "mget (services (dm_Registry d)) n = Some rec"
  shows "info_ok (infoFromRecord rec b)"
proof -
  have "rec_inv G d n rec" "rec_ok n rec" using assms reg_wf_mget by (auto simp: dm_inv_def)
  then show ?thesis by (auto simp: info_ok_def infoFromRecord_def rec_inv_def rec_ok_def backend_ok_def)
qed

lemma list_info_ok:
  assumes "dm_inv G d" "i \<in> set (Daemon_List d)"
  shows "info_ok i"
proof -
  obtain n rec where rec: "(n, rec) \<in> set (services (dm_Registry d))" "i = infoFromRecord rec False"
    using assms(2) by (auto simp: Daemon_List_def Registry_List_snd)
  have "mwf (services (dm_Registry d))" using assms(1) by (simp add: dm_inv_def reg_wf_def)
  then have "mget (services (dm_Registry d)) n = Some rec" using rec(1) mget_iff by metis
  then show ?thesis using record_info_ok [OF assms(1)] rec(2) by simp
qed

lemmas answer_defs = answers_def writeJSON_def

lemma Register_typed:
  assumes "Register R p d = (d', r)"
  shows "case r of Inr res \<Rightarrow> ValidateName (rr_Name res) = None | Inl c \<Rightarrow> c \<in> set (map fst statusForCode)"
proof (cases r)
  case (Inl c)
  then show ?thesis using Register_error_codes [of R p d d' c] assms by (auto simp: statusForCode_def)
next
  case (Inr res)
  from assms show ?thesis
    by (cases rule: Register_cases) (auto simp: Inr dest: reg_reject_None(1))
qed

lemma handleRegister_typed:
  assumes "handleRegister A q d = (d', resp)"
  shows "answers (answer_type HRegister) resp \<or> answers_error resp"
proof -
  have inv: "CodeInvalidRequest \<in> set (map fst statusForCode)" by (simp add: statusForCode_def)
  have reg: "answers (answer_type HRegister) resp \<or> answers_error resp"
    if "(case Register R p d of (d', Inl c) \<Rightarrow> (d', writeError (ae_message A) c)
        | (d', Inr res) \<Rightarrow> (d', writeJSON 201 (enc_RegisterResponse (register_response res)))) = (d', resp)" for R p
  proof (cases "Register R p d")
    case (Pair d1 r)
    have ok: "has_type T_Register (enc_RegisterResponse (register_response res))" if "ValidateName (rr_Name res) = None" for res
      by (rule type_Register) (simp add: register_response_def that)
    from that Register_typed [OF Pair] Pair show ?thesis
      by (cases r) (auto simp: answer_defs intro: error_typed ok simp del: set_map)
  qed
  show ?thesis
    using assms reg error_typed [OF inv] unfolding handleRegister_def Let_def
    by (auto split: option.splits if_splits simp del: answer_type.simps)
qed

lemma Heartbeat_codes: "Heartbeat now rid token d = (d', Inl c) \<Longrightarrow> c \<in> set (map fst statusForCode)"
  by (auto simp: Heartbeat_def statusForCode_def split: prod.splits sum.splits lease_error.splits)

lemma Delete_codes: "DeleteRegistration now rid token d = (d', Some c) \<Longrightarrow> c \<in> set (map fst statusForCode)"
  by (auto simp: DeleteRegistration_def statusForCode_def split: option.splits prod.splits lease_error.splits)

lemma call_typed:
  assumes "dm_inv G d" "call_handler A h vs q d = (d', resp)"
  shows "answers (answer_type h) resp \<or> answers_error resp"
proof (cases h)
  case HHealth
  then show ?thesis using assms(2) type_Health by (auto simp: handleHealth_def answer_defs)
next
  case HList
  then show ?thesis using assms(2) list_info_ok [OF assms(1)] type_Service
    by (auto simp: handleList_def answer_defs enc_ListResponse_def list_all_iff)
next
  case HResolve
  have "CodeServiceNotFound \<in> set (map fst statusForCode)" by (simp add: statusForCode_def)
  then show ?thesis using HResolve assms(2) record_info_ok [OF assms(1)] type_Service error_typed
    by (auto simp: handleResolve_def answer_defs Daemon_Resolve_def Registry_Resolve_mget simp del: set_map split: option.splits)
next
  case HInspect
  have "CodeServiceNotFound \<in> set (map fst statusForCode)" by (simp add: statusForCode_def)
  then show ?thesis using HInspect assms(2) record_info_ok [OF assms(1)] type_Inspect error_typed
    by (auto simp: handleInspect_def answer_defs Daemon_Inspect_def Registry_Resolve_mget simp del: set_map split: option.splits)
next
  case HRegister
  then show ?thesis using assms(2) handleRegister_typed by simp
next
  case HHeartbeat
  then show ?thesis using assms(2) error_typed [OF Heartbeat_codes] type_Heartbeat
    by (auto simp: handleHeartbeat_def answer_defs split: prod.splits sum.splits)
next
  case HDelete
  then show ?thesis using assms(2) error_typed [OF Delete_codes]
    by (auto simp: handleDelete_def answer_defs split: prod.splits option.splits)
qed



end
