(* ===== verification/Tcp_Proxy.thy ===== *)
theory Tcp_Proxy
  imports Registry
begin

text \<open>
  \<open>internal/proxy/tcp.go\<close>: the opaque forwarder of one accepted connection, as a step
  relation of its three goroutines (the function itself and one copier per direction) in
  every interleaving with the two peers. The bytes each peer has sent are kept as a ghost
  history; an I/O error can strike any read or write that the program makes.
\<close>

section \<open>Definitions\<close>

subsection \<open>State\<close>

datatype side = Up | Down  \<comment> \<open>client to backend, backend to client\<close>

text \<open>Where a copier stands: in \<open>Read\<close>, in \<open>Write\<close> with a filled buffer, before \<open>CloseWrite\<close>,
  before the send on \<open>done\<close>, or finished.\<close>

datatype copy_pc = PRead | PWrite string | PShut | PDone | PEnd

record copier =
  cp_pc :: copy_pc
  cp_sent :: string      \<comment> \<open>everything the source peer has sent so far\<close>
  cp_in :: string        \<comment> \<open>sent, not yet read\<close>
  cp_fin :: bool         \<comment> \<open>the source peer has ended its stream\<close>
  cp_out :: string       \<comment> \<open>written to the destination\<close>
  cp_shut :: bool        \<comment> \<open>the write half of the destination is closed\<close>
  cp_err :: bool         \<comment> \<open>a read or a write failed\<close>

datatype main_pc = MDial | MRun | MCloseUp | MCloseClient | MReturned

record tcp =
  tp_main :: main_pc
  tp_copy :: "side \<Rightarrow> copier"
  tp_done :: nat         \<comment> \<open>values in the channel \<open>done\<close>\<close>
  tp_got :: nat          \<comment> \<open>values received from it\<close>
  tp_client :: bool      \<comment> \<open>the client socket is open on this side\<close>
  tp_upstream :: bool    \<comment> \<open>the backend socket is open on this side\<close>

definition copier_new :: copier where
  "copier_new = \<lparr>cp_pc = PRead, cp_sent = [], cp_in = [], cp_fin = False, cp_out = [], cp_shut = False, cp_err = False\<rparr>"

definition tcp_new :: tcp where
  "tcp_new =
     \<lparr>tp_main = MDial, tp_copy = (\<lambda>_. copier_new), tp_done = 0, tp_got = 0, tp_client = True, tp_upstream = False\<rparr>"

fun src_open :: "tcp \<Rightarrow> side \<Rightarrow> bool" where
  "src_open s Up = tp_client s"
| "src_open s Down = tp_upstream s"

fun dst_open :: "tcp \<Rightarrow> side \<Rightarrow> bool" where
  "dst_open s Up = tp_upstream s"
| "dst_open s Down = tp_client s"

definition with_copy :: "side \<Rightarrow> (copier \<Rightarrow> copier) \<Rightarrow> tcp \<Rightarrow> tcp" where
  "with_copy k f s = s\<lparr>tp_copy := (tp_copy s)(k := f (tp_copy s k))\<rparr>"

subsection \<open>Steps\<close>

text \<open>The peers, and the runtime that may close the client socket at any time.\<close>

inductive peer_step :: "tcp \<Rightarrow> tcp \<Rightarrow> bool" where
  sends: "\<not> cp_fin (tp_copy s k) \<Longrightarrow> k = Down \<longrightarrow> tp_main s \<noteq> MDial \<Longrightarrow>
    peer_step s (with_copy k (\<lambda>c. c\<lparr>cp_sent := cp_sent c @ bs, cp_in := cp_in c @ bs\<rparr>) s)"
| ends: "k = Down \<longrightarrow> tp_main s \<noteq> MDial \<Longrightarrow> peer_step s (with_copy k (\<lambda>c. c\<lparr>cp_fin := True\<rparr>) s)"
| close_active: "peer_step s (s\<lparr>tp_client := False\<rparr>)"

text \<open>The program. \<open>io.Copy\<close> reads a chunk and writes it whole; end of file and errors both
  end it. A copier then closes the write half and sends on \<open>done\<close>; the function receives
  twice, and its deferred calls close the backend socket and then the client socket. With \<open>F\<close> any
  read or write may fail, without it only one on a closed socket does.\<close>

inductive tcp_step :: "bool \<Rightarrow> tcp \<Rightarrow> tcp \<Rightarrow> bool" 
  for F :: bool where
  dial_failed: "tp_main s = MDial \<Longrightarrow> tcp_step F s (s\<lparr>tp_main := MCloseClient\<rparr>)"
| dialed: "tp_main s = MDial \<Longrightarrow> tcp_step F s (s\<lparr>tp_main := MRun, tp_upstream := True\<rparr>)"
| reads: "tp_main s = MRun \<Longrightarrow> cp_pc (tp_copy s k) = PRead \<Longrightarrow> src_open s k \<Longrightarrow>
    cp_in (tp_copy s k) = bs @ rest \<Longrightarrow> bs \<noteq> [] \<Longrightarrow>
    tcp_step F s (with_copy k (\<lambda>c. c\<lparr>cp_pc := PWrite bs, cp_in := rest\<rparr>) s)"
| read_eof: "tp_main s = MRun \<Longrightarrow> cp_pc (tp_copy s k) = PRead \<Longrightarrow> src_open s k \<Longrightarrow>
    cp_in (tp_copy s k) = [] \<Longrightarrow> cp_fin (tp_copy s k) \<Longrightarrow>
    tcp_step F s (with_copy k (\<lambda>c. c\<lparr>cp_pc := PShut\<rparr>) s)"
| read_error: "tp_main s = MRun \<Longrightarrow> cp_pc (tp_copy s k) = PRead \<Longrightarrow> \<not> src_open s k \<or> F \<Longrightarrow>
    tcp_step F s (with_copy k (\<lambda>c. c\<lparr>cp_pc := PShut, cp_err := True\<rparr>) s)"
| writes: "tp_main s = MRun \<Longrightarrow> cp_pc (tp_copy s k) = PWrite bs \<Longrightarrow> dst_open s k \<Longrightarrow>
    tcp_step F s (with_copy k (\<lambda>c. c\<lparr>cp_pc := PRead, cp_out := cp_out c @ bs\<rparr>) s)"
| write_error: "tp_main s = MRun \<Longrightarrow> cp_pc (tp_copy s k) = PWrite (bs @ rest) \<Longrightarrow>
    \<not> dst_open s k \<or> F \<Longrightarrow>
    tcp_step F s (with_copy k (\<lambda>c. c\<lparr>cp_pc := PShut, cp_out := cp_out c @ bs, cp_err := True\<rparr>) s)"
| shuts: "tp_main s = MRun \<Longrightarrow> cp_pc (tp_copy s k) = PShut \<Longrightarrow>
    tcp_step F s (with_copy k (\<lambda>c. c\<lparr>cp_pc := PDone, cp_shut := True\<rparr>) s)"
| signals: "tp_main s = MRun \<Longrightarrow> cp_pc (tp_copy s k) = PDone \<Longrightarrow>
    tcp_step F s (with_copy k (\<lambda>c. c\<lparr>cp_pc := PEnd\<rparr>) (s\<lparr>tp_done := tp_done s + 1\<rparr>))"
| receives: "tp_main s = MRun \<Longrightarrow> 0 < tp_done s \<Longrightarrow>
    tcp_step F s (s\<lparr>tp_done := tp_done s - 1, tp_got := tp_got s + 1,
                  tp_main := (if tp_got s = 1 then MCloseUp else MRun)\<rparr>)"
| close_upstream: "tp_main s = MCloseUp \<Longrightarrow> tcp_step F s (s\<lparr>tp_main := MCloseClient, tp_upstream := False\<rparr>)"
| close_client: "tp_main s = MCloseClient \<Longrightarrow> tcp_step F s (s\<lparr>tp_main := MReturned, tp_client := False\<rparr>)"

definition any_step :: "tcp \<Rightarrow> tcp \<Rightarrow> bool" where
  "any_step s t \<longleftrightarrow> peer_step s t \<or> tcp_step True s t \<or> tcp_step False s t"

abbreviation tcp_reach :: "tcp \<Rightarrow> bool" where
  "tcp_reach \<equiv> reach (\<lambda>s. s = tcp_new) any_step"

subsection \<open>Invariant\<close>

fun in_hand :: "copy_pc \<Rightarrow> string" where
  "in_hand (PWrite bs) = bs"
| "in_hand _ = []"

fun after_copy :: "copy_pc \<Rightarrow> bool" where
  "after_copy PRead = False"
| "after_copy (PWrite _) = False"
| "after_copy _ = True"

definition copier_ok :: "copier \<Rightarrow> bool" where
  "copier_ok c \<longleftrightarrow>
     (\<exists>lost. cp_out c @ in_hand (cp_pc c) @ lost @ cp_in c = cp_sent c \<and> (lost \<noteq> [] \<longrightarrow> cp_err c)) \<and>
     (cp_err c \<longrightarrow> after_copy (cp_pc c)) \<and>
     (after_copy (cp_pc c) \<longrightarrow> cp_err c \<or> (cp_fin c \<and> cp_in c = [])) \<and>
     (cp_shut c \<longleftrightarrow> cp_pc c = PDone \<or> cp_pc c = PEnd)"

definition finished :: "tcp \<Rightarrow> nat" where
  "finished s = (if cp_pc (tp_copy s Up) = PEnd then 1 else 0) + (if cp_pc (tp_copy s Down) = PEnd then 1 else 0)"

definition idle :: "tcp \<Rightarrow> bool" where
  "idle s \<longleftrightarrow> (\<forall>k. cp_pc (tp_copy s k) = PRead \<and> cp_out (tp_copy s k) = [])"

definition tcp_inv :: "tcp \<Rightarrow> bool" where
  "tcp_inv s \<longleftrightarrow>
     (\<forall>k. copier_ok (tp_copy s k)) \<and> finished s = tp_done s + tp_got s \<and>
     (tp_main s = MDial \<longrightarrow> idle s \<and> \<not> tp_upstream s) \<and>
     (tp_main s = MRun \<longrightarrow> tp_got s < 2 \<and> tp_upstream s) \<and>
     (tp_main s = MCloseUp \<longrightarrow> tp_got s = 2) \<and>
     (tp_main s = MCloseClient \<or> tp_main s = MReturned \<longrightarrow> \<not> tp_upstream s \<and> (tp_got s = 2 \<or> idle s)) \<and>
     (tp_main s = MReturned \<longrightarrow> \<not> tp_client s)"

subsection \<open>Measure\<close>

fun pc_left :: "copy_pc \<Rightarrow> nat" where
  "pc_left PRead = 4"
| "pc_left (PWrite bs) = 5"
| "pc_left PShut = 3"
| "pc_left PDone = 2"
| "pc_left PEnd = 0"

fun main_left :: "main_pc \<Rightarrow> nat" where
  "main_left MDial = 4"
| "main_left MRun = 3"
| "main_left MCloseUp = 2"
| "main_left MCloseClient = 1"
| "main_left MReturned = 0"

text \<open>A bound on the steps the program can still take on the bytes it has.\<close>

definition copy_left :: "copier \<Rightarrow> nat" where
  "copy_left c = 2 * length (cp_in c) + pc_left (cp_pc c)"

definition tcp_left :: "tcp \<Rightarrow> nat" where
  "tcp_left s = copy_left (tp_copy s Up) + copy_left (tp_copy s Down) + tp_done s + main_left (tp_main s)"

text \<open>No error so far and both sockets open: runs without faults stay there.\<close>

definition clean :: "tcp \<Rightarrow> bool" where
  "clean s \<longleftrightarrow> (\<forall>k. \<not> cp_err (tp_copy s k)) \<and> tp_main s \<noteq> MDial \<and> (tp_main s = MRun \<longrightarrow> tp_client s \<and> tp_upstream s)"

text \<open>Steps in which the backend does nothing and no fault strikes.\<close>

definition silent_step :: "tcp \<Rightarrow> tcp \<Rightarrow> bool" where
  "silent_step s t \<longleftrightarrow> tcp_step False s t \<or> (peer_step s t \<and> cp_sent (tp_copy t Down) = cp_sent (tp_copy s Down) \<and>
     cp_fin (tp_copy t Down) = cp_fin (tp_copy s Down))"

section \<open>Lemmas\<close>

inductive_cases tcp_stepE: "tcp_step F s t"
inductive_cases peer_stepE: "peer_step s t"

lemma with_copy_simps [simp]:
  "tp_copy (with_copy k f s) j = (if j = k then f (tp_copy s k) else tp_copy s j)"
  "tp_main (with_copy k f s) = tp_main s" "tp_done (with_copy k f s) = tp_done s"
  "tp_got (with_copy k f s) = tp_got s" "tp_client (with_copy k f s) = tp_client s"
  "tp_upstream (with_copy k f s) = tp_upstream s"
  by (simp_all add: with_copy_def)

lemma copier_ok_new [simp]: "copier_ok copier_new"
  by (simp add: copier_ok_def copier_new_def)

lemma tcp_reach_new: "tcp_reach tcp_new"
  by (rule reach_init) simp

lemma tcp_inv_copy:
  assumes "tcp_inv s" "copier_ok (f (tp_copy s k))"
    "cp_pc (f (tp_copy s k)) = PEnd \<longleftrightarrow> cp_pc (tp_copy s k) = PEnd"
    "tp_main s = MRun \<or> (cp_pc (f (tp_copy s k)) = cp_pc (tp_copy s k) \<and> cp_out (f (tp_copy s k)) = cp_out (tp_copy s k))"
  shows "tcp_inv (with_copy k f s)"
proof -
  have "finished (with_copy k f s) = finished s" using assms(3) by (cases k) (simp_all add: finished_def)
  moreover have "idle (with_copy k f s)" if "idle s" "tp_main s \<noteq> MRun" using assms(4) that by (auto simp: idle_def)
  ultimately show ?thesis using assms(1,2) unfolding tcp_inv_def by auto
qed

lemma tcp_inv_peer: "peer_step s t \<Longrightarrow> tcp_inv s \<Longrightarrow> tcp_inv t"
proof (induction rule: peer_step.induct)
  case (sends s k bs)
  have "copier_ok (tp_copy s k)" using sends by (simp add: tcp_inv_def)
  then show ?case using sends by (intro tcp_inv_copy) (auto simp: copier_ok_def)
next
  case (ends k s)
  have "copier_ok (tp_copy s k)" using ends by (simp add: tcp_inv_def)
  then show ?case using ends by (intro tcp_inv_copy) (auto simp: copier_ok_def)
next
  case (close_active s)
  then show ?case by (simp add: tcp_inv_def finished_def idle_def)
qed

lemma copier_ok_read: "copier_ok c \<Longrightarrow> cp_pc c = PRead \<Longrightarrow> cp_in c = bs @ rest \<Longrightarrow> copier_ok (c\<lparr>cp_pc := PWrite bs, cp_in := rest\<rparr>)"
  by (auto simp: copier_ok_def)

lemma copier_ok_eof: "copier_ok c \<Longrightarrow> cp_pc c = PRead \<Longrightarrow> cp_in c = [] \<Longrightarrow> cp_fin c \<Longrightarrow> copier_ok (c\<lparr>cp_pc := PShut\<rparr>)"
  by (auto simp: copier_ok_def)

lemma copier_ok_read_error: "copier_ok c \<Longrightarrow> cp_pc c = PRead \<Longrightarrow> copier_ok (c\<lparr>cp_pc := PShut, cp_err := True\<rparr>)"
  by (auto simp: copier_ok_def)

lemma copier_ok_write: "copier_ok c \<Longrightarrow> cp_pc c = PWrite bs \<Longrightarrow> copier_ok (c\<lparr>cp_pc := PRead, cp_out := cp_out c @ bs\<rparr>)"
  by (auto simp: copier_ok_def)

lemma copier_ok_write_error:
  assumes "copier_ok c" "cp_pc c = PWrite (bs @ rest)"
  shows "copier_ok (c\<lparr>cp_pc := PShut, cp_out := cp_out c @ bs, cp_err := True\<rparr>)"
proof -
  obtain lost where "cp_out c @ (bs @ rest) @ lost @ cp_in c = cp_sent c"
    using assms by (auto simp: copier_ok_def)
  then have "(cp_out c @ bs) @ (rest @ lost) @ cp_in c = cp_sent c" by simp
  then have "\<exists>lost. (cp_out c @ bs) @ [] @ lost @ cp_in c = cp_sent c" by (metis append_Nil)
  then show ?thesis using assms by (simp add: copier_ok_def)
qed

lemma copier_ok_later:
  "copier_ok c \<Longrightarrow> cp_pc c = PShut \<Longrightarrow> copier_ok (c\<lparr>cp_pc := PDone, cp_shut := True\<rparr>)"
  "copier_ok c \<Longrightarrow> cp_pc c = PDone \<Longrightarrow> copier_ok (c\<lparr>cp_pc := PEnd\<rparr>)"
  by (auto simp: copier_ok_def)

lemmas copier_oks = copier_ok_read copier_ok_eof copier_ok_read_error copier_ok_write copier_ok_write_error copier_ok_later

lemma tcp_inv_step: "tcp_step F s t \<Longrightarrow> tcp_inv s \<Longrightarrow> tcp_inv t"
proof (induction rule: tcp_step.induct)
  case (signals s k)
  have ok: "copier_ok (tp_copy s k)" using signals by (simp add: tcp_inv_def)
  have "finished (with_copy k (\<lambda>c. c\<lparr>cp_pc := PEnd\<rparr>) (s\<lparr>tp_done := tp_done s + 1\<rparr>)) = finished s + 1"
    using signals by (cases k) (simp_all add: finished_def)
  then show ?case using signals copier_ok_later(2) [OF ok] unfolding tcp_inv_def by simp
next
  case (receives s)
  have "finished s \<le> 2" by (simp add: finished_def)
  then show ?case using receives by (auto simp: tcp_inv_def finished_def)
qed (force simp: tcp_inv_def finished_def idle_def intro: tcp_inv_copy copier_oks)+

interpretation tcpi: inv_system "\<lambda>s. s = tcp_new" any_step tcp_inv
proof
  show "tcp_inv s" if "s = tcp_new" for s
    unfolding that by (simp add: tcp_inv_def tcp_new_def finished_def idle_def) (simp add: copier_new_def)
  show "tcp_inv t" if "tcp_inv s" "any_step s t" for s t
    using that tcp_inv_peer tcp_inv_step by (auto simp: any_step_def)
qed

text \<open>C23: Forwarding is opaque. In every interleaving, what a peer has received is a prefix of
  what the other has sent, in order and unchanged. The end of a stream is passed on (the
  write half is closed) only when the other peer has ended its stream and every byte of it
  was delivered, unless a read or a write of that direction failed. When the function
  returns, both sockets are closed, and both directions had ended or were never started.\<close>

theorem tcp_opaque:
  assumes "tcp_reach s"
  shows "(\<exists>rest. cp_sent (tp_copy s k) = cp_out (tp_copy s k) @ rest) \<and>
    (cp_shut (tp_copy s k) \<longrightarrow> cp_err (tp_copy s k) \<or>
       (cp_fin (tp_copy s k) \<and> cp_out (tp_copy s k) = cp_sent (tp_copy s k))) \<and>
    (tp_main s = MReturned \<longrightarrow> \<not> tp_client s \<and> \<not> tp_upstream s \<and>
       ((\<forall>j. cp_shut (tp_copy s j)) \<or> (\<forall>j. cp_out (tp_copy s j) = [])))"
proof -
  have inv: "tcp_inv s" by (rule tcpi.reach_inv [OF assms])
  have ok: "copier_ok (tp_copy s j)" for j using inv by (simp add: tcp_inv_def)
  have shut: "cp_shut (tp_copy s j)" if "tp_got s = 2" for j
  proof -
    have "finished s = 2" using inv that by (simp add: tcp_inv_def finished_def split: if_splits)
    then have "cp_pc (tp_copy s j) = PEnd" by (cases j) (auto simp: finished_def split: if_splits)
    then show ?thesis using ok [of j] by (simp add: copier_ok_def)
  qed
  have "\<exists>rest. cp_sent (tp_copy s k) = cp_out (tp_copy s k) @ rest" using ok [of k] by (auto simp: copier_ok_def dest: sym)
  moreover have "cp_err (tp_copy s k) \<or> (cp_fin (tp_copy s k) \<and> cp_out (tp_copy s k) = cp_sent (tp_copy s k))"
    if "cp_shut (tp_copy s k)" using ok [of k] that by (auto simp: copier_ok_def)
  moreover have "\<not> tp_client s \<and> \<not> tp_upstream s \<and> ((\<forall>j. cp_shut (tp_copy s j)) \<or> (\<forall>j. cp_out (tp_copy s j) = []))"
    if "tp_main s = MReturned" using inv shut that by (auto simp: tcp_inv_def idle_def)
  ultimately show ?thesis by blast
qed

theorem tcp_opaque_witness:
  "\<exists>s. tcp_reach s \<and> cp_sent (tp_copy s Up) = ''hi'' \<and> cp_out (tp_copy s Up) = ''hi'' \<and> cp_shut (tp_copy s Up)"
proof -
  define s1 where "s1 = tcp_new\<lparr>tp_main := MRun, tp_upstream := True\<rparr>"
  define s2 where "s2 = with_copy Up (\<lambda>c. c\<lparr>cp_sent := cp_sent c @ ''hi'', cp_in := cp_in c @ ''hi''\<rparr>) s1"
  define s3 where "s3 = with_copy Up (\<lambda>c. c\<lparr>cp_fin := True\<rparr>) s2"
  define s4 where "s4 = with_copy Up (\<lambda>c. c\<lparr>cp_pc := PWrite ''hi'', cp_in := []\<rparr>) s3"
  define s5 where "s5 = with_copy Up (\<lambda>c. c\<lparr>cp_pc := PRead, cp_out := cp_out c @ ''hi''\<rparr>) s4"
  define s6 where "s6 = with_copy Up (\<lambda>c. c\<lparr>cp_pc := PShut\<rparr>) s5"
  define s7 where "s7 = with_copy Up (\<lambda>c. c\<lparr>cp_pc := PDone, cp_shut := True\<rparr>) s6"
  note defs = s7_def s6_def s5_def s4_def s3_def s2_def s1_def tcp_new_def copier_new_def
  have 1: "any_step tcp_new s1" unfolding s1_def any_step_def by (intro disjI2 dialed) (simp add: tcp_new_def)
  have 2: "any_step s1 s2" unfolding s2_def any_step_def by (intro disjI1 sends) (simp_all add: defs)
  have 3: "any_step s2 s3" unfolding s3_def any_step_def by (intro disjI1 ends) simp
  have 4: "any_step s3 s4" unfolding s4_def any_step_def by (intro disjI2 reads) (simp_all add: defs)
  have 5: "any_step s4 s5" unfolding s5_def any_step_def by (intro disjI2 writes) (simp_all add: defs)
  have 6: "any_step s5 s6" unfolding s6_def any_step_def by (intro disjI2 read_eof) (simp_all add: defs)
  have 7: "any_step s6 s7" unfolding s7_def any_step_def by (intro disjI2 shuts) (simp_all add: defs)
  have r: "tcp_reach s7" by (rule reach_step [OF reach_step [OF reach_step [OF reach_step [OF reach_step [OF reach_step [OF
      reach_step [OF tcp_reach_new 1] 2] 3] 4] 5] 6] 7])
  have e: "\<not> cp_err (tp_copy s7 Up)" "cp_shut (tp_copy s7 Up)" "cp_sent (tp_copy s7 Up) = ''hi''" by (simp_all add: defs)
  then have "cp_out (tp_copy s7 Up) = cp_sent (tp_copy s7 Up)" using tcp_opaque [OF r, of Up] by blast
  then show ?thesis using r e by auto
qed

subsection \<open>Returning\<close>

lemma copy_left_with: "copy_left (f (tp_copy s k)) < copy_left (tp_copy s k) \<Longrightarrow> tcp_left (with_copy k f s) < tcp_left s"
  by (cases k) (simp_all add: tcp_left_def)

lemma tcp_left_step: "tcp_step F s t \<Longrightarrow> tcp_inv s \<Longrightarrow> tcp_left t < tcp_left s"
proof (induction rule: tcp_step.induct)
  case (signals s k)
  then show ?case by (cases k) (simp_all add: tcp_left_def copy_left_def)
next
  case (reads s k bs rest)
  then show ?case by (intro copy_left_with) (cases bs; simp add: copy_left_def)
qed ((rule copy_left_with, simp add: copy_left_def; fail) | simp add: tcp_left_def)+

lemma tcp_run: "(tcp_step F ^^ n) s t \<Longrightarrow> tcp_inv s \<Longrightarrow> tcp_inv t \<and> n + tcp_left t \<le> tcp_left s"
proof (induction n arbitrary: t)
  case (Suc n)
  then obtain u where u: "(tcp_step F ^^ n) s u" "tcp_step F u t" by auto
  then have "tcp_inv u" "n + tcp_left u \<le> tcp_left s" using Suc by auto
  then show ?case using tcp_left_step [OF u(2)] tcp_inv_step [OF u(2)] by auto
qed simp

lemma stuck_returned:
  assumes "tcp_inv s" "\<forall>k. cp_fin (tp_copy s k)" "\<nexists>t. tcp_step False s t"
  shows "tp_main s = MReturned"
proof (cases "tp_main s")
  case MRun
  have "cp_pc (tp_copy s k) = PEnd" for k
  proof (cases "cp_pc (tp_copy s k)")
    case PRead
    show ?thesis
    proof (cases "src_open s k \<and> cp_in (tp_copy s k) \<noteq> []")
      case True
      then show ?thesis using reads [OF MRun PRead, of _ "[]" False] assms(3) by (metis append_Nil2)
    next
      case False
      then show ?thesis using read_eof [OF MRun PRead] read_error [OF MRun PRead] assms(2,3) by blast
    qed
  next
    case (PWrite bs)
    then show ?thesis using writes [OF MRun PWrite] write_error [OF MRun, of k "[]" bs] assms(3) by fastforce
  qed (use MRun assms(3) shuts signals in blast)+
  then have "finished s = 2" by (simp add: finished_def)
  then have "0 < tp_done s" using assms(1) MRun by (simp add: tcp_inv_def)
  then show ?thesis using receives [OF MRun] assms(3) by blast
qed (use assms(3) in \<open>blast intro: tcp_step.intros\<close>)+

lemma clean_open: "clean s \<Longrightarrow> tp_main s = MRun \<Longrightarrow> src_open s k \<and> dst_open s k"
  by (cases k) (simp_all add: clean_def)

lemma clean_step: "tcp_step F s t \<Longrightarrow> \<not> F \<Longrightarrow> clean s \<Longrightarrow> clean t"
proof (induction rule: tcp_step.induct)
  case (read_error s k)
  then show ?case using clean_open by blast
next
  case (write_error s k bs rest)
  then show ?case using clean_open by blast
qed (auto simp: clean_def)

lemma clean_run: "(tcp_step False ^^ n) s t \<Longrightarrow> clean s \<Longrightarrow> clean t"
  by (induction n arbitrary: t) (auto dest: clean_step)

lemma fin_step: "tcp_step F s t \<Longrightarrow> cp_fin (tp_copy t k) = cp_fin (tp_copy s k) \<and> cp_sent (tp_copy t k) = cp_sent (tp_copy s k)"
  by (induction rule: tcp_step.induct) simp_all

lemma fin_run: "(tcp_step F ^^ n) s t \<Longrightarrow> cp_fin (tp_copy t k) = cp_fin (tp_copy s k) \<and> cp_sent (tp_copy t k) = cp_sent (tp_copy s k)"
proof (induction n arbitrary: t)
  case (Suc n)
  then obtain u where "(tcp_step F ^^ n) s u" "tcp_step F u t" by auto
  then show ?case using Suc.IH [of u] fin_step [of F u t k] by simp
qed simp

lemma got_step: "tcp_step F s t \<Longrightarrow> tp_main s \<noteq> MDial \<Longrightarrow> tp_main s = MRun \<or> tp_got s = 2 \<Longrightarrow>
    tp_main t \<noteq> MDial \<and> (tp_main t = MRun \<or> tp_got t = 2)"
  by (induction rule: tcp_step.induct) auto

lemma got_run: "(tcp_step F ^^ n) s t \<Longrightarrow> tcp_inv s \<Longrightarrow> tp_main s = MRun \<Longrightarrow> tp_main t = MReturned \<Longrightarrow> tp_got t = 2"
proof -
  assume run: "(tcp_step F ^^ n) s t" "tp_main s = MRun" and m: "tp_main t = MReturned"
  from run have "tp_main t \<noteq> MDial \<and> (tp_main t = MRun \<or> tp_got t = 2)"
  proof (induction n arbitrary: t)
    case (Suc n)
    then show ?case using got_step by (metis relpowp_Suc_E)
  qed auto
  then show "tp_got t = 2" using m by simp
qed



subsection \<open>A silent backend\<close>

lemma silent_keeps:
  assumes "silent_step s t" "tcp_inv s" "tp_main s = MRun" "cp_pc (tp_copy s Down) = PRead" "cp_in (tp_copy s Down) = []"
    "\<not> cp_fin (tp_copy s Down)"
  shows "tcp_inv t \<and> tp_main t = MRun \<and> tp_upstream t \<and> cp_pc (tp_copy t Down) = PRead \<and> cp_in (tp_copy t Down) = [] \<and>
    \<not> cp_fin (tp_copy t Down)"
proof -
  have up: "tp_upstream s" using assms(2,3) by (simp add: tcp_inv_def)
  have got: "tp_got s + tp_done s \<le> 1" using assms(2,4) by (simp add: tcp_inv_def finished_def split: if_splits)
  from assms(1) consider "tcp_step False s t" |
    "peer_step s t" "cp_sent (tp_copy t Down) = cp_sent (tp_copy s Down)" "cp_fin (tp_copy t Down) = cp_fin (tp_copy s Down)"
    by (auto simp: silent_step_def)
  then show ?thesis
  proof cases
    case 1
    have "tcp_inv t" by (rule tcp_inv_step [OF 1 assms(2)])
    moreover from 1 assms(3-6) up got have "tp_main t = MRun \<and> tp_upstream t \<and> cp_pc (tp_copy t Down) = PRead \<and>
      cp_in (tp_copy t Down) = [] \<and> \<not> cp_fin (tp_copy t Down)"
      by (cases rule: tcp_step.cases) (auto split: if_splits)
    ultimately show ?thesis by blast
  next
    case 2
    have "tcp_inv t" by (rule tcp_inv_peer [OF 2(1) assms(2)])
    moreover from 2(1) assms(3-6) 2(2,3) up have "tp_main t = MRun \<and> tp_upstream t \<and> cp_pc (tp_copy t Down) = PRead \<and>
      cp_in (tp_copy t Down) = [] \<and> \<not> cp_fin (tp_copy t Down)"
      by (cases rule: peer_step.cases) (auto split: if_splits)
    ultimately show ?thesis by blast
  qed
qed

text \<open>C25: A backend that sends nothing and keeps its stream open holds the forwarder. While it
  stays silent, whatever the client and the runtime do, the closing of the client socket
  included, the function does not return and the backend socket stays open.\<close>

theorem silent_backend_holds_proxy:
  assumes "tcp_reach s" and "tp_main s = MRun" and "cp_pc (tp_copy s Down) = PRead"
    and "cp_in (tp_copy s Down) = []" and "\<not> cp_fin (tp_copy s Down)" and "silent_step\<^sup>*\<^sup>* s t"
  shows "tp_main t = MRun \<and> tp_upstream t"
proof -
  have inv: "tcp_inv s" by (rule tcpi.reach_inv [OF assms(1)])
  have "tcp_inv t \<and> tp_main t = MRun \<and> tp_upstream t \<and> cp_pc (tp_copy t Down) = PRead \<and> cp_in (tp_copy t Down) = [] \<and>
    \<not> cp_fin (tp_copy t Down)"
    using assms(6)
  proof (induction rule: rtranclp_induct)
    case base
    then show ?case using inv assms(2-5) by (simp add: tcp_inv_def)
  next
    case (step u v)
    then show ?case using silent_keeps by blast
  qed
  then show ?thesis by simp
qed

theorem silent_backend_holds_proxy_witness:
  "\<exists>s t. tcp_reach s \<and> silent_step\<^sup>*\<^sup>* s t \<and> \<not> tp_client t \<and> cp_shut (tp_copy t Up) \<and> tp_main t = MRun"
proof -
  define s where "s = tcp_new\<lparr>tp_main := MRun, tp_upstream := True\<rparr>"
  define s2 where "s2 = s\<lparr>tp_client := False\<rparr>"
  define s3 where "s3 = with_copy Up (\<lambda>c. c\<lparr>cp_pc := PShut, cp_err := True\<rparr>) s2"
  define t where "t = with_copy Up (\<lambda>c. c\<lparr>cp_pc := PDone, cp_shut := True\<rparr>) s3"
  note defs = t_def s3_def s2_def s_def tcp_new_def copier_new_def
  have 1: "any_step tcp_new s" unfolding s_def any_step_def by (intro disjI2 dialed) (simp add: tcp_new_def)
  have r: "tcp_reach s" by (rule reach_step [OF tcp_reach_new 1])
  have 2: "silent_step s s2" unfolding s2_def silent_step_def by (simp add: close_active)
  have 3: "silent_step s2 s3" unfolding s3_def silent_step_def by (intro disjI1 read_error) (simp_all add: defs)
  have 4: "silent_step s3 t" unfolding t_def silent_step_def by (intro disjI1 shuts) (simp_all add: defs)
  have st: "silent_step\<^sup>*\<^sup>* s t" using 2 3 4 by (meson converse_rtranclp_into_rtranclp r_into_rtranclp)
  have i: "tp_main s = MRun" "cp_pc (tp_copy s Down) = PRead" "cp_in (tp_copy s Down) = []" "\<not> cp_fin (tp_copy s Down)"
    "\<not> tp_client t" "cp_shut (tp_copy t Up)" by (simp_all add: defs)
  show ?thesis using silent_backend_holds_proxy [OF r i(1-4) st] r st i by blast
qed

end
