(* ===== verification/Docker_Inspect.thy ===== *)
theory Docker_Inspect
  imports Registry
begin

text \<open>
  \<open>internal/dockerwatch\<close> without the watcher: the label contract (labels.go), the conversion
  of an inspected container into a registration (inspect.go), and the probe of the doctor
  command (probe.go). What the Docker Engine answers is an argument; the records hold the
  parts of its answers that the code reads.
\<close>

section \<open>Definitions\<close>

subsection \<open>Labels (labels.go)\<close>

abbreviation (input) LabelEnable :: string where "LabelEnable \<equiv> ''io.devmesh.enable''"
abbreviation (input) LabelName :: string where "LabelName \<equiv> ''io.devmesh.name''"
abbreviation (input) LabelContainerPort :: string where "LabelContainerPort \<equiv> ''io.devmesh.container-port''"
abbreviation (input) LabelKind :: string where "LabelKind \<equiv> ''io.devmesh.kind''"
abbreviation (input) LabelAppProtocol :: string where "LabelAppProtocol \<equiv> ''io.devmesh.app-protocol''"
abbreviation (input) LabelPreferredPort :: string where "LabelPreferredPort \<equiv> ''io.devmesh.preferred-port''"
abbreviation (input) LabelHTTPHost :: string where "LabelHTTPHost \<equiv> ''io.devmesh.http-host''"
abbreviation (input) ComposeProjectLabel :: string where "ComposeProjectLabel \<equiv> ''com.docker.compose.project''"
abbreviation (input) ComposeServiceLabel :: string where "ComposeServiceLabel \<equiv> ''com.docker.compose.service''"

type_synonym label_map = "(string, string) gomap"

record Labels =
  lb_Enabled :: bool
  lb_Name :: string
  lb_ContainerPort :: int
  lb_Kind :: string
  lb_AppProtocol :: string
  lb_PreferredPort :: int
  lb_HTTPHost :: string

definition Labels0 :: Labels where
  "Labels0 =
     \<lparr>lb_Enabled = False, lb_Name = [], lb_ContainerPort = 0, lb_Kind = [], lb_AppProtocol = [],
      lb_PreferredPort = 0, lb_HTTPHost = []\<rparr>"

datatype label_error = LabelRequired string | LabelInvalid string string

definition port_label :: "string \<Rightarrow> int option" where
  "port_label s = (case Atoi s of None \<Rightarrow> None | Some p \<Rightarrow> if p \<le> 0 \<or> p > 65535 then None else Some p)"

definition ParseLabels :: "label_map \<Rightarrow> (label_error, Labels) result" where
  "ParseLabels m =
     (case mget m LabelEnable of
        None \<Rightarrow> Inr Labels0
      | Some raw \<Rightarrow>
          if \<not> EqualFold raw ''true'' then Inr Labels0
          else if mget0 [] m LabelName = [] then Inl (LabelRequired LabelName)
          else
            (let portStr = mget0 [] m LabelContainerPort in
             if portStr = [] then Inl (LabelRequired LabelContainerPort)
             else
               (case port_label portStr of
                  None \<Rightarrow> Inl (LabelInvalid LabelContainerPort portStr)
                | Some port \<Rightarrow>
                    (let kind = mget0 [] m LabelKind in
                     if kind \<noteq> [] \<and> kind \<noteq> ''tcp'' \<and> kind \<noteq> ''http'' then Inl (LabelInvalid LabelKind kind)
                     else
                       (let l = \<lparr>lb_Enabled = True, lb_Name = mget0 [] m LabelName, lb_ContainerPort = port,
                                 lb_Kind = (if kind \<noteq> [] then kind else ''tcp''),
                                 lb_AppProtocol = mget0 [] m LabelAppProtocol, lb_PreferredPort = 0,
                                 lb_HTTPHost = mget0 [] m LabelHTTPHost\<rparr>;
                            pp = mget0 [] m LabelPreferredPort in
                        if pp = [] then Inr l
                        else (case port_label pp of
                                None \<Rightarrow> Inl (LabelInvalid LabelPreferredPort pp)
                              | Some p \<Rightarrow> Inr (l\<lparr>lb_PreferredPort := p\<rparr>)))))))"

definition OwnerKey :: "string \<Rightarrow> label_map \<Rightarrow> int \<Rightarrow> string" where
  "OwnerKey containerName labels containerPort =
     (let project = mget0 [] labels ComposeProjectLabel; service = mget0 [] labels ComposeServiceLabel in
      if project \<noteq> [] \<and> service \<noteq> [] then ''docker:'' @ project @ '':'' @ service @ '':'' @ Itoa containerPort
      else
        (let name = TrimPrefix containerName ''/'';
             name = (if name = [] then ''unknown'' else name) in
         ''docker:'' @ name @ '':'' @ Itoa containerPort))"

subsection \<open>Inspection (inspect.go)\<close>

record Registration =
  dr_Name :: string
  dr_Kind :: string
  dr_AppProtocol :: string
  dr_BackendHost :: string
  dr_BackendPort :: int
  dr_PreferredPort :: int
  dr_OwnerKey :: string
  dr_ContainerID :: string
  dr_HTTPHost :: string

record binding =
  bg_HostIP :: string
  bg_HostPort :: string

text \<open>\<open>None\<close> in \<open>ip_Running\<close>, \<open>ip_Labels\<close> and \<open>ip_Ports\<close>: the pointer that leads there is nil.\<close>

record InspectResponse =
  ip_ID :: string
  ip_Name :: string
  ip_Running :: "bool option"
  ip_Labels :: "label_map option"
  ip_Ports :: "(string, binding list) gomap option"

datatype inspect_error =
    LabelError label_error
  | NotEnabled
  | ErrNotPublished string int
  | ErrNonLoopback string string int
  | BadHostPort string

definition isLoopbackIP :: "string \<Rightarrow> bool" where
  "isLoopbackIP host =
     (if host = [] then False else case ParseIP host of None \<Rightarrow> False | Some ip \<Rightarrow> IsLoopback ip)"

definition port_key :: "int \<Rightarrow> string" where
  "port_key p = Itoa p @ ''/tcp''"

definition chosen_binding :: "binding list \<Rightarrow> binding" where
  "chosen_binding bs = (case find (\<lambda>b. isLoopbackIP (bg_HostIP b)) bs of Some b \<Rightarrow> b | None \<Rightarrow> hd bs)"

definition RegistrationFromInspect :: "InspectResponse \<Rightarrow> bool \<Rightarrow> (inspect_error, Registration) result" where
  "RegistrationFromInspect insp allow =
     (let labels = (case ip_Labels insp of None \<Rightarrow> [] | Some m \<Rightarrow> m) in
      case ParseLabels labels of
        Inl err \<Rightarrow> Inl (LabelError err)
      | Inr parsed \<Rightarrow>
          if \<not> lb_Enabled parsed then Inl NotEnabled
          else
            (case ip_Ports insp of
               None \<Rightarrow> Inl (ErrNotPublished (ip_Name insp) (lb_ContainerPort parsed))
             | Some ports \<Rightarrow>
                 (let bindings = mget0 [] ports (port_key (lb_ContainerPort parsed)) in
                  if bindings = [] then Inl (ErrNotPublished (ip_Name insp) (lb_ContainerPort parsed))
                  else
                    (case (if allow then None else find (\<lambda>b. \<not> isLoopbackIP (bg_HostIP b)) bindings) of
                       Some b \<Rightarrow> Inl (ErrNonLoopback (ip_Name insp) (bg_HostIP b) (lb_ContainerPort parsed))
                     | None \<Rightarrow>
                         (let chosen = chosen_binding bindings in
                          if \<not> isLoopbackIP (bg_HostIP chosen) \<and> \<not> allow
                          then Inl (ErrNonLoopback (ip_Name insp) (bg_HostIP chosen) (lb_ContainerPort parsed))
                          else if bg_HostPort chosen = []
                          then Inl (ErrNotPublished (ip_Name insp) (lb_ContainerPort parsed))
                          else
                            (case Sscanf_d (bg_HostPort chosen) of
                               None \<Rightarrow> Inl (BadHostPort (bg_HostPort chosen))
                             | Some port \<Rightarrow>
                                 Inr \<lparr>dr_Name = lb_Name parsed, dr_Kind = lb_Kind parsed,
                                      dr_AppProtocol = lb_AppProtocol parsed,
                                      dr_BackendHost = (if bg_HostIP chosen = [] \<or> \<not> isLoopbackIP (bg_HostIP chosen)
                                                        then ''127.0.0.1'' else bg_HostIP chosen),
                                      dr_BackendPort = port, dr_PreferredPort = lb_PreferredPort parsed,
                                      dr_OwnerKey = OwnerKey (ip_Name insp) labels (lb_ContainerPort parsed),
                                      dr_ContainerID = ip_ID insp, dr_HTTPHost = lb_HTTPHost parsed\<rparr>))))))"

subsection \<open>The probe (probe.go)\<close>

record ProbeResult =
  pr_Skipped :: bool
  pr_Supported :: bool
  pr_Image :: string
  pr_HostIP :: string
  pr_HostPort :: string

definition ProbeResult0 :: ProbeResult where
  "ProbeResult0 = \<lparr>pr_Skipped = False, pr_Supported = False, pr_Image = [], pr_HostIP = [], pr_HostPort = []\<rparr>"

datatype docker_call = ImageList | ContainerCreate string | ContainerStart string | ContainerInspect string | ContainerRemove string

datatype probe_error = ListFailed | CreateFailed | StartFailed | Canceled

text \<open>
  \<open>qe_tags\<close>: the tags of the local images, \<open>None\<close> on an error. \<open>qe_inspects\<close>: the ports that
  the successive inspections report (\<open>None\<close> on an error or without network settings).
  \<open>qe_canceled i\<close>: the context ends in the wait after inspection \<open>i\<close>.
\<close>

record probe_env =
  qe_tags :: "string list list option"
  qe_create :: "string \<Rightarrow> string option"
  qe_start :: bool
  qe_inspects :: "nat \<Rightarrow> (string, binding list) gomap option"
  qe_canceled :: "nat \<Rightarrow> bool"

definition probe_image :: "string list list \<Rightarrow> string" where
  "probe_image tags =
     (case find (\<lambda>c. c \<in> set (concat tags)) [''busybox:latest'', ''alpine:latest'', ''busybox'', ''alpine''] of
        None \<Rightarrow> [] | Some c \<Rightarrow> c)"

fun probe_wait :: "probe_env \<Rightarrow> string \<Rightarrow> nat list \<Rightarrow> docker_call list \<times> (string \<times> string) option" where
  "probe_wait Q cid [] = ([], Some ([], []))"
| "probe_wait Q cid (i # is) =
     (case (case qe_inspects Q i of None \<Rightarrow> [] | Some ports \<Rightarrow> mget0 [] ports ''80/tcp'') of
        b # _ \<Rightarrow> ([ContainerInspect cid], Some (bg_HostIP b, bg_HostPort b))
      | [] \<Rightarrow>
          if qe_canceled Q i then ([ContainerInspect cid], None)
          else (case probe_wait Q cid is of (calls, r) \<Rightarrow> (ContainerInspect cid # calls, r)))"

definition ProbeLoopbackPublication :: "probe_env \<Rightarrow> docker_call list \<times> (probe_error, ProbeResult) result" where
  "ProbeLoopbackPublication Q =
     (case qe_tags Q of
        None \<Rightarrow> ([ImageList], Inl ListFailed)
      | Some tags \<Rightarrow>
          (let imageName = probe_image tags in
           if imageName = [] then ([ImageList], Inr (ProbeResult0\<lparr>pr_Skipped := True\<rparr>))
           else
             (case qe_create Q imageName of
                None \<Rightarrow> ([ImageList, ContainerCreate imageName], Inl CreateFailed)
              | Some cid \<Rightarrow>
                  if \<not> qe_start Q
                  then ([ImageList, ContainerCreate imageName, ContainerStart cid, ContainerRemove cid], Inl StartFailed)
                  else
                    (case probe_wait Q cid [0..<20] of
                       (calls, r) \<Rightarrow>
                         ([ImageList, ContainerCreate imageName, ContainerStart cid] @ calls @ [ContainerRemove cid],
                          (case r of
                             None \<Rightarrow> Inl Canceled
                           | Some (hostIP, hostPort) \<Rightarrow>
                               if hostPort = [] then Inr (ProbeResult0\<lparr>pr_Image := imageName\<rparr>)
                               else Inr (ProbeResult0\<lparr>pr_Supported := isLoopbackIP hostIP, pr_Image := imageName,
                                                      pr_HostIP := hostIP, pr_HostPort := hostPort\<rparr>)))))))"

subsection \<open>Reference definitions\<close>

text \<open>The label contract as one predicate: which labels a managed container must carry.\<close>

definition labels_ok :: "label_map \<Rightarrow> bool" where
  "labels_ok m \<longleftrightarrow>
     mget0 [] m LabelName \<noteq> [] \<and> port_label (mget0 [] m LabelContainerPort) \<noteq> None \<and>
     mget0 [] m LabelKind \<in> {[], ''tcp'', ''http''} \<and>
     (mget0 [] m LabelPreferredPort = [] \<or> port_label (mget0 [] m LabelPreferredPort) \<noteq> None)"

definition managed :: "label_map \<Rightarrow> bool" where
  "managed m \<longleftrightarrow> (\<exists>raw. mget m LabelEnable = Some raw \<and> EqualFold raw ''true'')"

definition sample_labels :: label_map where
  "sample_labels = [(LabelEnable, ''True''), (LabelName, ''db''), (LabelContainerPort, ''80'')]"

definition sample_inspect :: "string \<Rightarrow> InspectResponse" where
  "sample_inspect hostIP =
     \<lparr>ip_ID = ''c1'', ip_Name = ''/pg'', ip_Running = Some True, ip_Labels = Some sample_labels,
      ip_Ports = Some [(''80/tcp'', [\<lparr>bg_HostIP = hostIP, bg_HostPort = ''90''\<rparr>])]\<rparr>"

section \<open>Lemmas\<close>

lemma port_label_range: "port_label s = Some p \<Longrightarrow> 1 \<le> p \<and> p \<le> 65535"
  by (auto simp: port_label_def split: option.splits if_splits)

lemma port_label_Nil [simp]: "port_label [] = None"
  by (simp add: port_label_def Atoi_def)

text \<open>The label contract. A container without the enable label (or with another value
  than true, in any case) is not managed and is no error. A managed one is accepted exactly
  when its labels meet the contract, and then the ports are TCP ports, the kind is tcp or
  http (tcp by default), and every other field is its label.\<close>

theorem ParseLabels_contract:
  "(\<not> managed m \<longrightarrow> ParseLabels m = Inr Labels0) \<and>
   (managed m \<longrightarrow> \<not> labels_ok m \<longrightarrow> (\<exists>err. ParseLabels m = Inl err)) \<and>
   (managed m \<longrightarrow> labels_ok m \<longrightarrow>
     (\<exists>l. ParseLabels m = Inr l \<and> lb_Enabled l \<and> lb_Name l = mget0 [] m LabelName \<and> lb_Name l \<noteq> [] \<and>
        port_label (mget0 [] m LabelContainerPort) = Some (lb_ContainerPort l) \<and>
        1 \<le> lb_ContainerPort l \<and> lb_ContainerPort l \<le> 65535 \<and>
        lb_Kind l = (if mget0 [] m LabelKind = [] then ''tcp'' else mget0 [] m LabelKind) \<and>
        lb_Kind l \<in> {''tcp'', ''http''} \<and>
        lb_AppProtocol l = mget0 [] m LabelAppProtocol \<and> lb_HTTPHost l = mget0 [] m LabelHTTPHost \<and>
        (if mget0 [] m LabelPreferredPort = [] then lb_PreferredPort l = 0
         else port_label (mget0 [] m LabelPreferredPort) = Some (lb_PreferredPort l) \<and>
              1 \<le> lb_PreferredPort l \<and> lb_PreferredPort l \<le> 65535)))"
proof (cases "managed m")
  case False
  then show ?thesis by (auto simp: managed_def ParseLabels_def split: option.splits)
next
  case True
  then obtain raw where raw: "mget m LabelEnable = Some raw" "EqualFold raw ''true''" by (auto simp: managed_def)
  show ?thesis
  proof (cases "labels_ok m")
    case False
    then show ?thesis using raw True
      by (auto simp: ParseLabels_def labels_ok_def Let_def split: option.splits)
  next
    case ok: True
    then obtain p where p: "port_label (mget0 [] m LabelContainerPort) = Some p" by (auto simp: labels_ok_def)
    then show ?thesis using raw True ok port_label_range
      by (auto simp: ParseLabels_def labels_ok_def Let_def split: option.splits)
  qed
qed

subsection \<open>Inspection\<close>

lemma ParseLabels_enabled:
  "ParseLabels m = Inr l \<Longrightarrow> lb_Enabled l \<Longrightarrow> managed m"
  by (auto simp: ParseLabels_def managed_def Labels0_def split: option.splits if_splits)

lemma chosen_in: "bs \<noteq> [] \<Longrightarrow> chosen_binding bs \<in> set bs"
  by (auto simp: chosen_binding_def find_Some_iff split: option.splits)

lemma loopback_home: "isLoopbackIP ''127.0.0.1''"
  by code_simp

lemma isLoopbackIP_host: "isLoopbackIP h \<Longrightarrow> ParseIP h \<noteq> None \<and> IsLoopback (the (ParseIP h))"
  by (auto simp: isLoopbackIP_def split: if_splits option.splits)

text \<open>C26: Only loopback backends. Whatever a container publishes, the registration made from
  it points to a loopback address and to the host port of one of the bindings of the
  managed container port; unless non-loopback ports are allowed, every binding of that port
  is loopback, so that the container is not reachable from elsewhere through any of them.\<close>

theorem inspect_loopback_only:
  assumes "RegistrationFromInspect insp allow = Inr reg"
  shows "isLoopbackIP (dr_BackendHost reg) \<and> dr_ContainerID reg = ip_ID insp \<and>
    (\<exists>labels l ports. ip_Labels insp = Some labels \<and> managed labels \<and> ParseLabels labels = Inr l \<and>
       dr_Name reg = lb_Name l \<and> dr_OwnerKey reg = OwnerKey (ip_Name insp) labels (lb_ContainerPort l) \<and>
       ip_Ports insp = Some ports \<and>
       (\<exists>b \<in> set (mget0 [] ports (port_key (lb_ContainerPort l))). Sscanf_d (bg_HostPort b) = Some (dr_BackendPort reg)) \<and>
       (allow \<or> (\<forall>b \<in> set (mget0 [] ports (port_key (lb_ContainerPort l))). isLoopbackIP (bg_HostIP b))))"
proof -
  define labels where "labels = (case ip_Labels insp of None \<Rightarrow> [] | Some m \<Rightarrow> m)"
  obtain l where l: "ParseLabels labels = Inr l" "lb_Enabled l"
    using assms unfolding RegistrationFromInspect_def labels_def [symmetric] Let_def by (auto split: sum.splits if_splits)
  have m: "managed labels" by (rule ParseLabels_enabled [OF l])
  then have some: "ip_Labels insp = Some labels" by (auto simp: labels_def managed_def split: option.splits)
  obtain ports where ports: "ip_Ports insp = Some ports"
    using assms l unfolding RegistrationFromInspect_def labels_def [symmetric] Let_def by (auto split: option.splits)
  define bs where "bs = mget0 [] ports (port_key (lb_ContainerPort l))"
  have 1: "bs \<noteq> []" "allow \<or> find (\<lambda>b. \<not> isLoopbackIP (bg_HostIP b)) bs = None"
    using assms l ports unfolding RegistrationFromInspect_def labels_def [symmetric] Let_def
    by (auto simp: bs_def split: option.splits if_splits)
  then obtain port where port: "Sscanf_d (bg_HostPort (chosen_binding bs)) = Some port"
    and reg: "reg = \<lparr>dr_Name = lb_Name l, dr_Kind = lb_Kind l, dr_AppProtocol = lb_AppProtocol l,
       dr_BackendHost = (if bg_HostIP (chosen_binding bs) = [] \<or> \<not> isLoopbackIP (bg_HostIP (chosen_binding bs))
                         then ''127.0.0.1'' else bg_HostIP (chosen_binding bs)),
       dr_BackendPort = port, dr_PreferredPort = lb_PreferredPort l,
       dr_OwnerKey = OwnerKey (ip_Name insp) labels (lb_ContainerPort l),
       dr_ContainerID = ip_ID insp, dr_HTTPHost = lb_HTTPHost l\<rparr>"
    using assms l ports unfolding RegistrationFromInspect_def labels_def [symmetric] Let_def
    by (auto simp: bs_def split: option.splits if_splits)
  have "isLoopbackIP (dr_BackendHost reg)" using loopback_home by (simp add: reg)
  moreover have "\<exists>b \<in> set bs. Sscanf_d (bg_HostPort b) = Some (dr_BackendPort reg)"
    using chosen_in [OF 1(1)] port by (auto simp: reg)
  moreover have "allow \<or> (\<forall>b \<in> set bs. isLoopbackIP (bg_HostIP b))" using 1(2) by (auto simp: find_None_iff)
  ultimately show ?thesis using some m l(1) ports by (auto simp: reg bs_def)
qed

theorem inspect_loopback_only_witness:
  "\<exists>reg. RegistrationFromInspect (sample_inspect ''0.0.0.0'') True = Inr reg \<and> isLoopbackIP (dr_BackendHost reg) \<and>
     dr_BackendPort reg = 90"
proof -
  have e: "EqualFold ''True'' ''true''" "port_label ''80'' = Some 80" "port_key 80 = ''80/tcp''"
    "\<not> isLoopbackIP ''0.0.0.0''" "Sscanf_d ''90'' = Some 90" by code_simp+
  have l: "ParseLabels sample_labels = Inr \<lparr>lb_Enabled = True, lb_Name = ''db'', lb_ContainerPort = 80, lb_Kind = ''tcp'',
      lb_AppProtocol = [], lb_PreferredPort = 0, lb_HTTPHost = []\<rparr>"
    by (simp add: ParseLabels_def sample_labels_def mget0_def e)
  obtain reg where r: "RegistrationFromInspect (sample_inspect ''0.0.0.0'') True = Inr reg" and p: "dr_BackendPort reg = 90"
    by (simp add: RegistrationFromInspect_def sample_inspect_def l e mget0_def chosen_binding_def)
  from inspect_loopback_only [OF r] r p show ?thesis by blast
qed

subsection \<open>Owner keys\<close>

lemma key_suffix_inj:
  assumes "x \<notin> set p" "x \<notin> set q" "a @ x # p = b @ x # q"
  shows "a = b \<and> p = q"
proof -
  have "takeWhile (\<lambda>c. c \<noteq> x) (rev p @ x # rev a) = takeWhile (\<lambda>c. c \<noteq> x) (rev q @ x # rev b)"
    using arg_cong [OF assms(3), of rev] by simp
  then have "rev p = rev q" using assms(1,2) by (simp add: takeWhile_stop)
  then show ?thesis using assms(3) by simp
qed

text \<open>Owner keys. The key does not depend on the container's identity, so a recreated
  container has the key of the one it replaces; and two containers of Compose services get
  the same key only if project, service and port agree (project names do not contain a
  colon, which Compose forbids).\<close>

theorem OwnerKey_compose_injective:
  assumes "mget0 [] m ComposeProjectLabel = p" "mget0 [] m ComposeServiceLabel = s" "p \<noteq> []" "s \<noteq> []"
    and "mget0 [] m' ComposeProjectLabel = p'" "mget0 [] m' ComposeServiceLabel = s'" "p' \<noteq> []" "s' \<noteq> []"
    and "CHR '':'' \<notin> set p" "CHR '':'' \<notin> set p'" and "int64 port" "int64 port'"
  shows "OwnerKey n m port = OwnerKey n' m' port' \<longleftrightarrow> p = p' \<and> s = s' \<and> port = port'"
proof -
  have k: "OwnerKey n m port = ''docker:'' @ (p @ CHR '':'' # s) @ CHR '':'' # Itoa port"
    "OwnerKey n' m' port' = ''docker:'' @ (p' @ CHR '':'' # s') @ CHR '':'' # Itoa port'"
    using assms(1-8) by (simp_all add: OwnerKey_def)
  have c: "CHR '':'' \<notin> set (Itoa port)" "CHR '':'' \<notin> set (Itoa port')" using Itoa_clean by auto
  have "p = p' \<and> s = s' \<and> port = port'" if "OwnerKey n m port = OwnerKey n' m' port'"
  proof -
    have e: "p @ CHR '':'' # s = p' @ CHR '':'' # s'" "Itoa port = Itoa port'"
      using that key_suffix_inj [OF c, of "p @ CHR '':'' # s" "p' @ CHR '':'' # s'"] unfolding k by simp_all
    have "p = p'" using takeWhile_stop [OF assms(9), of s] takeWhile_stop [OF assms(10), of s'] e(1) by simp
    then show ?thesis using e Itoa_inj [OF assms(11,12)] by simp
  qed
  then show ?thesis by (auto simp: k)
qed

subsection \<open>The probe\<close>

lemma probe_wait_calls: "set (fst (probe_wait Q cid is)) \<subseteq> {ContainerInspect cid}"
  by (induction Q cid "is" rule: probe_wait.induct) (auto split: list.splits prod.splits)

text \<open>C29: The probe cleans up after itself. In every outcome, the cancelled and the failed ones
  included, each container the probe created is removed, by exactly one call, which is the
  last one; and the probe reports support only for a binding on a loopback address.\<close>

theorem probe_cleans_up:
  assumes "ProbeLoopbackPublication Q = (calls, r)"
  shows "(\<forall>img cid. ContainerCreate img \<in> set calls \<longrightarrow> qe_create Q img = Some cid \<longrightarrow>
      last calls = ContainerRemove cid \<and> count_list calls (ContainerRemove cid) = 1) \<and>
    (\<forall>cid. ContainerRemove cid \<in> set calls \<longrightarrow> (\<exists>img. ContainerCreate img \<in> set calls \<and> qe_create Q img = Some cid)) \<and>
    (\<forall>res. r = Inr res \<longrightarrow> pr_Supported res \<longrightarrow> isLoopbackIP (pr_HostIP res))"
proof -
  have w: "ContainerCreate x \<notin> set (fst (probe_wait Q cid is))" "ContainerRemove x \<notin> set (fst (probe_wait Q cid is))"
    for x cid "is" using probe_wait_calls [of Q cid "is"] by auto
  show ?thesis
  proof (cases "\<exists>tags img cid. qe_tags Q = Some tags \<and> img = probe_image tags \<and> img \<noteq> [] \<and> qe_create Q img = Some cid \<and> qe_start Q")
    case True
    then obtain tags img cid where t: "qe_tags Q = Some tags" "img = probe_image tags" "img \<noteq> []" "qe_create Q img = Some cid" "qe_start Q"
      by blast
    obtain cs x where cs: "probe_wait Q cid [0..<20] = (cs, x)" by fastforce
    then have c: "ContainerCreate y \<notin> set cs" "ContainerRemove y \<notin> set cs" for y using w [of _ cid "[0..<20]"] by auto
    have calls: "calls = [ImageList, ContainerCreate img, ContainerStart cid] @ cs @ [ContainerRemove cid]"
      using assms t cs by (simp add: ProbeLoopbackPublication_def Let_def)
    have r: "pr_Supported res \<longrightarrow> isLoopbackIP (pr_HostIP res)" if "r = Inr res" for res
      using assms t cs that
      by (auto simp: ProbeLoopbackPublication_def Let_def ProbeResult0_def split: option.splits prod.splits if_splits)
    have "count_list calls (ContainerRemove cid) = 1" using c by (simp add: calls count_list_0_iff)
    then show ?thesis using c r t by (auto simp: calls)
  next
    case False
    then show ?thesis using assms
      by (auto simp: ProbeLoopbackPublication_def Let_def ProbeResult0_def split: option.splits if_splits)
  qed
qed

theorem probe_cleans_up_witness:
  "\<exists>calls r. ProbeLoopbackPublication
      \<lparr>qe_tags = Some [[''alpine:latest'']], qe_create = (\<lambda>_. Some ''p''), qe_start = False, qe_inspects = (\<lambda>_. None), qe_canceled = (\<lambda>_. True)\<rparr> =
      (calls, r) \<and> ContainerCreate ''alpine:latest'' \<in> set calls \<and> last calls = ContainerRemove ''p''"
proof -
  let ?Q = "\<lparr>qe_tags = Some [[''alpine:latest'']], qe_create = (\<lambda>_. Some ''p''), qe_start = False,
      qe_inspects = (\<lambda>_. None), qe_canceled = (\<lambda>_. True)\<rparr> :: probe_env"
  obtain calls r where c: "ProbeLoopbackPublication ?Q = (calls, r)" by fastforce
  then have "ContainerCreate ''alpine:latest'' \<in> set calls"
    by (auto simp: ProbeLoopbackPublication_def probe_image_def)
  with probe_cleans_up [OF c] c show ?thesis by auto
qed

end
