(* ===== verification/Docker_Watcher.thy ===== *)
theory Docker_Watcher
  imports Docker_Inspect Daemon_Events
begin

text \<open>
  \<open>internal/dockerwatch/watcher.go\<close>: the watcher that keeps the daemon's Docker publications in
  step with the running containers. It is generic in what is behind its callbacks; the
  locale \<open>publisher\<close> states what it relies on there, and \<open>DockerCallbacks\<close> of the daemon is
  the interpretation. The answers of the Docker Engine and the points at which the context
  is cancelled are arguments (\<open>watch_env\<close>, \<open>stream_item\<close>, \<open>round\<close>).
\<close>

section \<open>Definitions\<close>

subsection \<open>State and environment\<close>

text \<open>\<open>OnRegister\<close> gets the environment of the registration it makes, \<open>OnForget\<close> the time.\<close>

record 'd Callbacks =
  cb_OnRegister :: "reg_env \<Rightarrow> Registration \<Rightarrow> 'd \<Rightarrow> 'd \<times> code option"
  cb_OnForget :: "gotime \<Rightarrow> Registration \<Rightarrow> 'd \<Rightarrow> 'd"
  cb_OnStatus :: "string \<Rightarrow> 'd \<Rightarrow> 'd"

record 'd Watcher =
  wt_tracked :: "(string, Registration) gomap"
  wt_target :: 'd        \<comment> \<open>what the callbacks act on\<close>

definition NewWatcher :: "'d \<Rightarrow> 'd Watcher" where
  "NewWatcher d = \<lparr>wt_tracked = [], wt_target = d\<rparr>"

record watch_env =
  we_inspect :: "string \<Rightarrow> nat \<Rightarrow> InspectResponse option"  \<comment> \<open>the answer to the inspection of attempt \<open>n\<close>\<close>
  we_canceled :: "string \<Rightarrow> nat \<Rightarrow> bool"                  \<comment> \<open>the context ends in the wait after it\<close>
  we_reg :: "string \<Rightarrow> reg_env"
  we_now :: gotime

datatype reg_outcome =
    Registered Registration
  | Ineligible
  | InspectFailed
  | RegisterFailed code
  | BadInspect inspect_error
  | WaitCanceled

subsection \<open>Registering and forgetting containers\<close>

abbreviation (input) retry_delays :: nat where "retry_delays \<equiv> 7"

fun register_attempts ::
  "'d Callbacks \<Rightarrow> bool \<Rightarrow> watch_env \<Rightarrow> string \<Rightarrow> nat \<Rightarrow> 'd Watcher \<Rightarrow> 'd Watcher \<times> reg_outcome" where
  "register_attempts cb allow E cid left w =
     (case we_inspect E cid (retry_delays - left) of
        None \<Rightarrow> (w, InspectFailed)
      | Some insp \<Rightarrow>
          if ip_Running insp \<noteq> Some True then (w, Ineligible)
          else
            (case RegistrationFromInspect insp allow of
               Inr reg \<Rightarrow>
                 (case cb_OnRegister cb (we_reg E cid) reg (wt_target w) of
                    (d, Some c) \<Rightarrow> (w\<lparr>wt_target := d\<rparr>, RegisterFailed c)
                  | (d, None) \<Rightarrow>
                      (w\<lparr>wt_target := d, wt_tracked := mput (dr_ContainerID reg) reg (wt_tracked w)\<rparr>, Registered reg))
             | Inl err \<Rightarrow>
                 (case (err, left) of
                    (ErrNotPublished _ _, Suc left') \<Rightarrow>
                      if we_canceled E cid (retry_delays - left) then (w, WaitCanceled)
                      else register_attempts cb allow E cid left' w
                  | _ \<Rightarrow> (w, BadInspect err))))"

declare register_attempts.simps [simp del]

definition registerContainer ::
  "'d Callbacks \<Rightarrow> bool \<Rightarrow> watch_env \<Rightarrow> string \<Rightarrow> 'd Watcher \<Rightarrow> 'd Watcher \<times> reg_outcome" where
  "registerContainer cb allow E cid w = register_attempts cb allow E cid retry_delays w"

definition forget :: "'d Callbacks \<Rightarrow> gotime \<Rightarrow> Registration \<Rightarrow> 'd Watcher \<Rightarrow> 'd Watcher" where
  "forget cb t reg w = w\<lparr>wt_target := cb_OnForget cb t reg (wt_target w)\<rparr>"

definition setStatus :: "'d Callbacks \<Rightarrow> string \<Rightarrow> 'd Watcher \<Rightarrow> 'd Watcher" where
  "setStatus cb s w = w\<lparr>wt_target := cb_OnStatus cb s (wt_target w)\<rparr>"

subsection \<open>Reconciliation\<close>

text \<open>A container of the list: its ID and its labels.\<close>

type_synonym summary = "string \<times> label_map"

definition summary_managed :: "summary \<Rightarrow> bool" where
  "summary_managed c = (case ParseLabels (snd c) of Inl _ \<Rightarrow> False | Inr l \<Rightarrow> lb_Enabled l)"

fun reconcile_loop ::
  "'d Callbacks \<Rightarrow> bool \<Rightarrow> watch_env \<Rightarrow> summary list \<Rightarrow> string list \<Rightarrow> 'd Watcher \<Rightarrow> 'd Watcher \<times> string list" where
  "reconcile_loop cb allow E [] seen w = (w, seen)"
| "reconcile_loop cb allow E (c # cs) seen w =
     (if summary_managed c
      then reconcile_loop cb allow E cs (fst c # seen) (fst (registerContainer cb allow E (fst c) w))
      else reconcile_loop cb allow E cs seen w)"

text \<open>\<open>None\<close> as the list is an error of the list call; the result says whether it was one.\<close>

definition Reconcile ::
  "'d Callbacks \<Rightarrow> bool \<Rightarrow> watch_env \<Rightarrow> summary list option \<Rightarrow> 'd Watcher \<Rightarrow> 'd Watcher \<times> bool" where
  "Reconcile cb allow E containers w =
     (case containers of
        None \<Rightarrow> (w, True)
      | Some cs \<Rightarrow>
          (case reconcile_loop cb allow E cs [] w of
             (w1, seen) \<Rightarrow>
               (let gone = filter (\<lambda>(cid, _). cid \<notin> set seen) (wt_tracked w1);
                    w2 = w1\<lparr>wt_tracked := filter (\<lambda>(cid, _). cid \<in> set seen) (wt_tracked w1)\<rparr> in
                (fold (\<lambda>(_, reg). forget cb (we_now E) reg) gone w2, False))))"

definition handleEvent ::
  "'d Callbacks \<Rightarrow> bool \<Rightarrow> watch_env \<Rightarrow> string \<Rightarrow> string \<Rightarrow> 'd Watcher \<Rightarrow> 'd Watcher" where
  "handleEvent cb allow E action cid w =
     (if action = ''start'' \<or> action = ''restart'' then fst (registerContainer cb allow E cid w)
      else if action = ''die'' \<or> action = ''stop'' \<or> action = ''destroy'' then
        (case mget (wt_tracked w) cid of
           None \<Rightarrow> w
         | Some reg \<Rightarrow> forget cb (we_now E) reg (w\<lparr>wt_tracked := mdel cid (wt_tracked w)\<rparr>))
      else w)"

subsection \<open>The loops\<close>

text \<open>What a \<open>select\<close> of the event loop can receive; the end of the list is the cancelled context.\<close>

datatype stream_item =
    StreamError
  | StreamClosed
  | Message watch_env string string
  | Tick watch_env "summary list option"

fun eventLoop :: "'d Callbacks \<Rightarrow> bool \<Rightarrow> stream_item list \<Rightarrow> 'd Watcher \<Rightarrow> 'd Watcher \<times> bool" where
  "eventLoop cb allow [] w = (w, False)"
| "eventLoop cb allow (StreamError # is) w = (w, True)"
| "eventLoop cb allow (StreamClosed # is) w = (w, True)"
| "eventLoop cb allow (Message E action cid # is) w = eventLoop cb allow is (handleEvent cb allow E action cid w)"
| "eventLoop cb allow (Tick E cs # is) w = eventLoop cb allow is (fst (Reconcile cb allow E cs w))"

text \<open>One attempt of \<open>reconcileWithRetry\<close>: cancelled before it, its inputs, cancelled after it.\<close>

type_synonym attempt = "bool \<times> watch_env \<times> summary list option \<times> bool"

datatype retry_result = RetryOk | RetryCanceled | RetryFailed

fun reconcile_attempts :: "'d Callbacks \<Rightarrow> bool \<Rightarrow> attempt list \<Rightarrow> 'd Watcher \<Rightarrow> 'd Watcher \<times> retry_result" where
  "reconcile_attempts cb allow [] w = (w, RetryFailed)"
| "reconcile_attempts cb allow ((before, E, cs, after) # as) w =
     (if before then (w, RetryCanceled)
      else
        (case Reconcile cb allow E cs w of
           (w', False) \<Rightarrow> (w', RetryOk)
         | (w', True) \<Rightarrow> if after then (w', RetryCanceled) else reconcile_attempts cb allow as w'))"

definition reconcileWithRetry :: "'d Callbacks \<Rightarrow> bool \<Rightarrow> attempt list \<Rightarrow> 'd Watcher \<Rightarrow> 'd Watcher \<times> retry_result" where
  "reconcileWithRetry cb allow as w = reconcile_attempts cb allow (take 5 as) w"

text \<open>
  One turn of the loop of \<open>Run\<close>: what the event loop receives, whether the context is cancelled
  when it returns or in the wait, and the reconciliation after the wait. The list of turns
  ends with the cancelled context. The result has the waits that were made.
\<close>

record round =
  ro_items :: "stream_item list"
  ro_canceled :: bool
  ro_wait_canceled :: bool
  ro_env :: watch_env
  ro_list :: "summary list option"

fun run_rounds :: "'d Callbacks \<Rightarrow> bool \<Rightarrow> duration \<Rightarrow> round list \<Rightarrow> 'd Watcher \<Rightarrow> 'd Watcher \<times> duration list" where
  "run_rounds cb allow backoff [] w = (w, [])"
| "run_rounds cb allow backoff (r # rs) w =
     (case eventLoop cb allow (ro_items r) w of
        (w1, streamFailed) \<Rightarrow>
          if ro_canceled r \<or> \<not> streamFailed then (w1, [])
          else
            (let w2 = setStatus cb ''degraded'' w1 in
             if ro_wait_canceled r then (w2, [backoff])
             else
               (let backoff' = (if 2 * backoff > 30 * Second then 30 * Second else 2 * backoff) in
                case Reconcile cb allow (ro_env r) (ro_list r) w2 of
                  (w3, True) \<Rightarrow> (case run_rounds cb allow backoff' rs w3 of (w4, ws) \<Rightarrow> (w4, backoff # ws))
                | (w3, False) \<Rightarrow>
                    (case run_rounds cb allow Second rs (setStatus cb ''connected'' w3) of
                       (w4, ws) \<Rightarrow> (w4, backoff # ws)))))"

definition Watcher_Run ::
  "'d Callbacks \<Rightarrow> bool \<Rightarrow> attempt list \<Rightarrow> round list \<Rightarrow> 'd Watcher \<Rightarrow> 'd Watcher \<times> duration list" where
  "Watcher_Run cb allow as rs w =
     (case reconcileWithRetry cb allow as w of
        (w', RetryCanceled) \<Rightarrow> (w', [])
      | (w', RetryFailed) \<Rightarrow> run_rounds cb allow Second rs (setStatus cb ''degraded'' w')
      | (w', RetryOk) \<Rightarrow> run_rounds cb allow Second rs (setStatus cb ''connected'' w'))"

subsection \<open>The daemon's callbacks (DockerCallbacks)\<close>

definition docker_params :: "Registration \<Rightarrow> RegisterParams" where
  "docker_params reg =
     \<lparr>rp_Name = dr_Name reg, rp_Kind = dr_Kind reg, rp_AppProtocol = dr_AppProtocol reg,
      rp_Backend = \<lparr>be_Host = dr_BackendHost reg, be_Port = dr_BackendPort reg\<rparr>,
      rp_PreferredPort = dr_PreferredPort reg, rp_TTLSeconds = 0, rp_Source = SourceDocker,
      rp_OwnerKey = dr_OwnerKey reg, rp_RegistrationID = [], rp_DockerContainerID = dr_ContainerID reg,
      rp_HTTPHost = dr_HTTPHost reg\<rparr>"

definition on_register :: "reg_env \<Rightarrow> Registration \<Rightarrow> Daemon \<Rightarrow> Daemon \<times> code option" where
  "on_register R reg d =
     (case Register R (docker_params reg) d of (d', Inl c) \<Rightarrow> (d', Some c) | (d', Inr _) \<Rightarrow> (d', None))"

definition on_forget :: "gotime \<Rightarrow> Registration \<Rightarrow> Daemon \<Rightarrow> Daemon" where
  "on_forget t reg d = ForgetDockerPublication t (dr_Name reg) (dr_OwnerKey reg) (dr_ContainerID reg) d"

definition DockerCallbacks :: "Daemon Callbacks" where
  "DockerCallbacks = \<lparr>cb_OnRegister = on_register, cb_OnForget = on_forget, cb_OnStatus = SetDockerStatus\<rparr>"

subsection \<open>Reference definitions\<close>

text \<open>The Docker publications of a daemon: the names that are ready, with their containers.\<close>

definition docker_pubs :: "Daemon \<Rightarrow> (string \<times> string) set" where
  "docker_pubs d = {(name, cid). \<exists>rec. Registry_Resolve (dm_Registry d) name = Some rec \<and>
     sr_Source rec = SourceDocker \<and> sr_Status rec = StatusReady \<and> sr_ProducerID rec = cid}"

text \<open>
  What Docker documents of inspections: the answer is about the container asked for, and the
  labels of a container never change. \<open>L\<close> is the name each container's label gives it.
\<close>

definition labels_fixed :: "(string \<Rightarrow> string) \<Rightarrow> watch_env \<Rightarrow> bool" where
  "labels_fixed L E \<longleftrightarrow>
     (\<forall>cid n insp. we_inspect E cid n = Some insp \<longrightarrow>
        ip_ID insp = cid \<and> (\<forall>m. ip_Labels insp = Some m \<longrightarrow> mget0 [] m LabelName = L cid))"

fun item_fixed :: "(string \<Rightarrow> string) \<Rightarrow> stream_item \<Rightarrow> bool" where
  "item_fixed L (Message E action cid) = labels_fixed L E"
| "item_fixed L (Tick E cs) = labels_fixed L E"
| "item_fixed L _ = True"

definition tracked_ok :: "('d \<Rightarrow> (string \<times> string) set) \<Rightarrow> (string \<Rightarrow> string) \<Rightarrow> 'd Watcher \<Rightarrow> bool" where
  "tracked_ok pubs L w \<longleftrightarrow>
     mwf (wt_tracked w) \<and>
     (\<forall>cid reg. mget (wt_tracked w) cid = Some reg \<longrightarrow> dr_ContainerID reg = cid \<and> dr_Name reg = L cid) \<and>
     (\<forall>name cid. (name, cid) \<in> pubs (wt_target w) \<longrightarrow> mget (wt_tracked w) cid \<noteq> None \<and> name = L cid)"

text \<open>The steps of a daemon with a watcher: the watcher's own, and every event of another source.\<close>

fun not_docker :: "event \<Rightarrow> bool" where
  "not_docker (EvRegister R p) \<longleftrightarrow> rp_Source p \<noteq> SourceDocker"
| "not_docker _ \<longleftrightarrow> True"

inductive docker_step :: "(string \<Rightarrow> string) \<Rightarrow> Daemon Watcher \<Rightarrow> Daemon Watcher \<Rightarrow> bool" for L :: "string \<Rightarrow> string" where
  step_reconcile: "labels_fixed L E \<Longrightarrow> docker_step L w (fst (Reconcile DockerCallbacks allow E cs w))"
| step_event: "labels_fixed L E \<Longrightarrow> docker_step L w (handleEvent DockerCallbacks allow E action cid w)"
| step_status: "docker_step L w (setStatus DockerCallbacks s w)"
| step_other: "not_docker ev \<Longrightarrow> apply_ev ev (wt_target w, P) = (d', P') \<Longrightarrow> docker_step L w (w\<lparr>wt_target := d'\<rparr>)"

definition docker_init :: "Daemon Watcher \<Rightarrow> bool" where
  "docker_init w \<longleftrightarrow> wt_tracked w = [] \<and> docker_pubs (wt_target w) = {}"

definition web_labels :: label_map where
  "web_labels = [(LabelEnable, ''true''), (LabelName, ''web''), (LabelContainerPort, ''80''), (LabelKind, ''http''),
     (LabelHTTPHost, ''web.test'')]"

text \<open>One running container \<open>c1\<close> with these labels.\<close>

definition web_env :: watch_env where
  "web_env = \<lparr>we_inspect = (\<lambda>cid n. if cid = ''c1'' then Some \<lparr>ip_ID = ''c1'', ip_Name = ''/web'', ip_Running = Some True,
       ip_Labels = Some web_labels, ip_Ports = Some [(''80/tcp'', [\<lparr>bg_HostIP = ''127.0.0.1'', bg_HostPort = ''90''\<rparr>])]\<rparr> else None),
     we_canceled = (\<lambda>_ _. False), we_reg = (\<lambda>_. sample_reg 5 1), we_now = 6\<rparr>"

section \<open>Lemmas\<close>

lemma inspect_name:
  assumes "labels_fixed L E" "we_inspect E cid n = Some insp" "RegistrationFromInspect insp allow = Inr reg"
  shows "dr_ContainerID reg = cid \<and> dr_Name reg = L cid"
proof -
  define labels where "labels = (case ip_Labels insp of None \<Rightarrow> [] | Some m \<Rightarrow> m)"
  obtain l where l: "ParseLabels labels = Inr l" "lb_Enabled l" "dr_Name reg = lb_Name l" "dr_ContainerID reg = ip_ID insp"
    using assms(3) unfolding RegistrationFromInspect_def labels_def [symmetric] Let_def
    by (auto split: sum.splits if_splits option.splits)
  have "managed labels" by (rule ParseLabels_enabled [OF l(1,2)])
  then have m: "ip_Labels insp = Some labels" by (auto simp: labels_def managed_def split: option.splits)
  have "lb_Name l = mget0 [] labels LabelName"
    using l(1,2) by (auto simp: ParseLabels_def Labels0_def Let_def split: option.splits if_splits)
  then show ?thesis using assms(1,2) l m by (auto simp: labels_fixed_def)
qed

subsection \<open>What the watcher relies on\<close>

text \<open>
  The interface behind the callbacks: which container publishes which name, and how the
  callbacks change it. A successful registration publishes the container and may replace
  another one of the name; a failed one adds nothing; forgetting removes exactly the
  publication of that container.
\<close>

locale publisher =
  fixes cb :: "'d Callbacks"
    and pubs :: "'d \<Rightarrow> (string \<times> string) set"
  assumes register_ok: "cb_OnRegister cb R reg d = (d', None) \<Longrightarrow>
      pubs d' \<subseteq> insert (dr_Name reg, dr_ContainerID reg) (pubs d) \<and> (dr_Name reg, dr_ContainerID reg) \<in> pubs d'"
    and register_failed: "cb_OnRegister cb R reg d = (d', Some c) \<Longrightarrow> pubs d' \<subseteq> pubs d"
    and forgets: "pubs (cb_OnForget cb t reg d) = pubs d - {(dr_Name reg, dr_ContainerID reg)}"
    and status: "pubs (cb_OnStatus cb s d) = pubs d"
begin

lemma tracked_target: "tracked_ok pubs L w \<Longrightarrow> pubs d' \<subseteq> pubs (wt_target w) \<Longrightarrow> tracked_ok pubs L (w\<lparr>wt_target := d'\<rparr>)"
  by (auto simp: tracked_ok_def)

lemma tracked_add:
  assumes "tracked_ok pubs L w" "dr_ContainerID reg = cid" "dr_Name reg = L cid" "cb_OnRegister cb R reg (wt_target w) = (d', None)"
  shows "tracked_ok pubs L (w\<lparr>wt_target := d', wt_tracked := mput (dr_ContainerID reg) reg (wt_tracked w)\<rparr>)"
proof -
  have "name = dr_Name reg \<and> c = dr_ContainerID reg \<or> (name, c) \<in> pubs (wt_target w)" if "(name, c) \<in> pubs d'" for name c
    using register_ok [OF assms(4)] that by blast
  then show ?thesis using assms(1-3) unfolding tracked_ok_def by simp blast
qed

lemma tracked_register:
  assumes "labels_fixed L E" "tracked_ok pubs L w"
  shows "tracked_ok pubs L (fst (registerContainer cb allow E cid w))"
proof -
  have "tracked_ok pubs L (fst (register_attempts cb allow E cid left w))" for left
    using assms(2)
  proof (induction left)
    case 0
    then show ?case
      using tracked_add [OF 0] inspect_name [OF assms(1)] tracked_target [OF 0] register_failed
      by (subst register_attempts.simps) (auto split: option.splits sum.splits prod.splits inspect_error.splits)
  next
    case (Suc left)
    then show ?case
      using tracked_add [OF Suc.prems] inspect_name [OF assms(1)] tracked_target [OF Suc.prems] register_failed
      by (subst register_attempts.simps) (auto split: option.splits sum.splits prod.splits inspect_error.splits)
  qed
  then show ?thesis by (simp add: registerContainer_def)
qed

lemma tracked_loop:
  "labels_fixed L E \<Longrightarrow> tracked_ok pubs L w \<Longrightarrow> tracked_ok pubs L (fst (reconcile_loop cb allow E cs seen w))"
  by (induction cs arbitrary: seen w) (auto intro: tracked_register)

lemma loop_seen: "set (snd (reconcile_loop cb allow E cs seen w)) = set seen \<union> fst ` {c \<in> set cs. summary_managed c}"
  by (induction cs arbitrary: seen w) auto

lemma forget_simps [simp]:
  "wt_tracked (forget cb t reg w) = wt_tracked w"
  "pubs (wt_target (forget cb t reg w)) = pubs (wt_target w) - {(dr_Name reg, dr_ContainerID reg)}"
  by (simp_all add: forget_def forgets)

lemma forget_all:
  "wt_tracked (fold (\<lambda>(_, reg). forget cb t reg) gone w) = wt_tracked w \<and>
   pubs (wt_target (fold (\<lambda>(_, reg). forget cb t reg) gone w)) =
     pubs (wt_target w) - (\<lambda>(_, reg). (dr_Name reg, dr_ContainerID reg)) ` set gone"
  by (induction gone arbitrary: w) auto

lemma tracked_reconcile:
  assumes "labels_fixed L E" "tracked_ok pubs L w" "Reconcile cb allow E (Some cs) w = (w', err)"
  shows "\<not> err \<and> tracked_ok pubs L w' \<and> (\<forall>cid. mget (wt_tracked w') cid \<noteq> None \<longrightarrow> cid \<in> fst ` {c \<in> set cs. summary_managed c})"
proof -
  obtain w1 seen where l: "reconcile_loop cb allow E cs [] w = (w1, seen)" by fastforce
  have ok: "tracked_ok pubs L w1" using tracked_loop [OF assms(1,2), of allow cs "[]"] l by simp
  have seen: "set seen = fst ` {c \<in> set cs. summary_managed c}" using loop_seen [of allow E cs "[]" w] l by simp
  define gone where "gone = filter (\<lambda>(cid, _). cid \<notin> set seen) (wt_tracked w1)"
  define w2 where "w2 = w1\<lparr>wt_tracked := filter (\<lambda>(cid, _). cid \<in> set seen) (wt_tracked w1)\<rparr>"
  have w': "w' = fold (\<lambda>(_, reg). forget cb (we_now E) reg) gone w2" "\<not> err"
    using assms(3) l by (auto simp: Reconcile_def gone_def w2_def)
  have wf: "mwf (wt_tracked w1)" using ok by (simp add: tracked_ok_def)
  have tr: "wt_tracked w' = wt_tracked w2" "pubs (wt_target w') = pubs (wt_target w1) - (\<lambda>(_, reg). (dr_Name reg, dr_ContainerID reg)) ` set gone"
    using forget_all [of "we_now E" gone w2] by (simp_all add: w' w2_def)
  have get: "mget (wt_tracked w') cid = (if cid \<in> set seen then mget (wt_tracked w1) cid else None)" for cid
    using mget_filter [OF wf] by (auto simp: tr w2_def split: option.splits)
  have "mget (wt_tracked w') cid \<noteq> None \<and> name = L cid" if p: "(name, cid) \<in> pubs (wt_target w')" for name cid
  proof -
    have o: "mget (wt_tracked w1) cid \<noteq> None" "name = L cid" using p tr(2) ok by (auto simp: tracked_ok_def)
    then obtain reg where reg: "mget (wt_tracked w1) cid = Some reg" by blast
    have "dr_ContainerID reg = cid" "dr_Name reg = L cid" using ok reg by (auto simp: tracked_ok_def)
    then have "cid \<in> set seen" using p tr(2) o(2) mget_in [OF reg] by (force simp: gone_def)
    then show ?thesis using o get by simp
  qed
  then show ?thesis using w'(2) get seen ok by (auto simp: tracked_ok_def tr(1) w2_def)
qed

lemma publisher_event:
  assumes "labels_fixed L E" "tracked_ok pubs L w"
  shows "tracked_ok pubs L (handleEvent cb allow E action cid w)"
proof (cases "mget (wt_tracked w) cid")
  case None
  then show ?thesis using tracked_register [OF assms] assms(2) by (simp add: handleEvent_def)
next
  case (Some reg)
  then have "dr_ContainerID reg = cid" "dr_Name reg = L cid" using assms(2) by (auto simp: tracked_ok_def)
  then have "tracked_ok pubs L (forget cb (we_now E) reg (w\<lparr>wt_tracked := mdel cid (wt_tracked w)\<rparr>))"
    using assms(2) by (auto simp: tracked_ok_def split: if_splits)
  then show ?thesis using Some tracked_register [OF assms] assms(2) by (simp add: handleEvent_def)
qed

lemma tracked_any_reconcile: "labels_fixed L E \<Longrightarrow> tracked_ok pubs L w \<Longrightarrow> tracked_ok pubs L (fst (Reconcile cb allow E cs w))"
  using tracked_reconcile by (cases cs) (auto simp: Reconcile_def [of _ _ _ None], metis prod.collapse)

lemma tracked_eventLoop:
  "\<forall>i \<in> set is. item_fixed L i \<Longrightarrow> tracked_ok pubs L w \<Longrightarrow> tracked_ok pubs L (fst (eventLoop cb allow is w))"
proof (induction "is" arbitrary: w)
  case (Cons i "is")
  then show ?case using publisher_event [of L _ w] tracked_any_reconcile [of L _ w] by (cases i) auto
qed simp

lemma tracked_attempts:
  "\<forall>(b, E, cs, c) \<in> set as. labels_fixed L E \<Longrightarrow> tracked_ok pubs L w \<Longrightarrow>
     tracked_ok pubs L (fst (reconcile_attempts cb allow as w))"
proof (induction "as" arbitrary: w)
  case (Cons a "as")
  obtain b E cs c where a: "a = (b, E, cs, c)" by (cases a) auto
  obtain w' err where r: "Reconcile cb allow E cs w = (w', err)" by fastforce
  have "tracked_ok pubs L w'" using tracked_any_reconcile [of L E w allow cs] Cons.prems a r by simp
  then show ?case using Cons a r by (cases err) auto
qed simp

lemma tracked_status: "tracked_ok pubs L (setStatus cb s w) = tracked_ok pubs L w"
  by (simp add: tracked_ok_def setStatus_def status)

lemma tracked_rounds:
  "\<forall>r \<in> set rs. labels_fixed L (ro_env r) \<and> (\<forall>i \<in> set (ro_items r). item_fixed L i) \<Longrightarrow> tracked_ok pubs L w \<Longrightarrow>
     tracked_ok pubs L (fst (run_rounds cb allow b rs w))"
proof (induction rs arbitrary: b w)
  case (Cons r rs)
  obtain w1 sf where l: "eventLoop cb allow (ro_items r) w = (w1, sf)" by fastforce
  have 1: "tracked_ok pubs L (setStatus cb ''degraded'' w1)"
    using tracked_eventLoop [of "ro_items r" L w allow] Cons.prems l by (simp add: tracked_status)
  obtain w3 err where rc: "Reconcile cb allow (ro_env r) (ro_list r) (setStatus cb ''degraded'' w1) = (w3, err)" by fastforce
  have 3: "tracked_ok pubs L w3" using tracked_any_reconcile [OF _ 1, of "ro_env r" allow "ro_list r"] Cons.prems rc by simp
  have 2: "tracked_ok pubs L w1" using 1 by (simp add: tracked_status)
  have IH: "tracked_ok pubs L (fst (run_rounds cb allow b' rs v))" if "tracked_ok pubs L v" for b' v
    using Cons.IH [OF _ that] Cons.prems(1) by simp
  show ?case using 1 2 3 IH l rc
    by (cases err) (auto simp: Let_def tracked_status split: prod.splits dest: arg_cong [where f = fst]; metis fst_conv tracked_status)+
qed simp

end

interpretation daemon_docker: publisher DockerCallbacks docker_pubs
proof
  fix R reg d d'
  show "docker_pubs d' \<subseteq> insert (dr_Name reg, dr_ContainerID reg) (docker_pubs d) \<and> (dr_Name reg, dr_ContainerID reg) \<in> docker_pubs d'"
    if ok: "cb_OnRegister DockerCallbacks R reg d = (d', None)"
  proof -
    obtain r where reg: "Register R (docker_params reg) d = (d', Inr r)"
      using ok by (auto simp: DockerCallbacks_def on_register_def split: prod.split_asm sum.split_asm)
    have src: "pl_source (reg_plan R (docker_params reg) d) = SourceDocker"
      "pl_producerID (reg_plan R (docker_params reg) d) = dr_ContainerID reg"
      by (simp_all add: reg_plan_def docker_params_def Let_def)
    from reg show ?thesis
    proof (cases rule: Register_cases)
      case (docker fe d1)
      have keep: "dm_Registry d1 = dm_Registry d" using reg_frontend_keeps(1) [OF docker(2)] by simp
      show ?thesis using keep src docker(4) by (auto simp: docker_pubs_def Registry_Resolve_mget docker_params_def split: if_splits)
    qed (use src in auto)
  qed
next
  fix R reg d d' c
  show "docker_pubs d' \<subseteq> docker_pubs d" if "cb_OnRegister DockerCallbacks R reg d = (d', Some c)"
  proof -
    have reg: "Register R (docker_params reg) d = (d', Inl c)"
      using that by (auto simp: DockerCallbacks_def on_register_def split: prod.split_asm sum.split_asm)
    have src: "pl_source (reg_plan R (docker_params reg) d) = SourceDocker"
      by (simp add: reg_plan_def docker_params_def Let_def)
    from reg show ?thesis
    proof (cases rule: Register_cases)
      case (unallocated c d1)
      then show ?thesis using reg_frontend_keeps(1) [OF unallocated(3)] by (simp add: docker_pubs_def)
    qed (use src in auto)
  qed
next
  fix t reg d
  show "docker_pubs (cb_OnForget DockerCallbacks t reg d) = docker_pubs d - {(dr_Name reg, dr_ContainerID reg)}"
    by (auto simp: DockerCallbacks_def on_forget_def ForgetDockerPublication_def docker_pubs_def Registry_Resolve_mget
        ClearBackendIf_mget split: option.splits if_splits)
next
  show "docker_pubs (cb_OnStatus DockerCallbacks s d) = docker_pubs d" for s d
    by (simp add: DockerCallbacks_def SetDockerStatus_def docker_pubs_def)
qed

subsection \<open>Waits\<close>

lemma waits_bounded:
  "Second \<le> b \<Longrightarrow> b \<le> 30 * Second \<Longrightarrow> run_rounds cb allow b rs w = (w', ws) \<Longrightarrow> x \<in> set ws \<Longrightarrow> Second \<le> x \<and> x \<le> 30 * Second"
proof (induction rs arbitrary: b w w' ws)
  case (Cons r rs)
  let ?b = "if 2 * b > 30 * Second then 30 * Second else 2 * b"
  have b: "Second \<le> ?b" "?b \<le> 30 * Second" "Second \<le> Second" "Second \<le> 30 * Second" using Cons.prems(1,2) by auto
  obtain w1 sf where l: "eventLoop cb allow (ro_items r) w = (w1, sf)" by fastforce
  obtain w3 err where rc: "Reconcile cb allow (ro_env r) (ro_list r) (setStatus cb ''degraded'' w1) = (w3, err)" by fastforce
  obtain u1 v1 where r1: "run_rounds cb allow ?b rs w3 = (u1, v1)" by fastforce
  obtain u2 v2 where r2: "run_rounds cb allow Second rs (setStatus cb ''connected'' w3) = (u2, v2)" by fastforce
  have "ws = [] \<or> ws = [b] \<or> ws = b # v1 \<or> ws = b # v2"
    using Cons.prems(3) l rc r1 r2 by (cases err) (auto simp: Let_def split: if_splits)
  then show ?case using Cons.prems(1,2,4) Cons.IH [OF b(1,2) r1] Cons.IH [OF b(3,4) r2] by auto
qed simp

subsection \<open>The daemon with a watcher\<close>

lemma other_events_no_docker:
  assumes "not_docker ev" "apply_ev ev (d, P) = (d', P')"
  shows "docker_pubs d' \<subseteq> docker_pubs d"
proof (cases ev)
  case (EvRegister R p)
  obtain r where reg: "Register R p d = (d', r)" using assms(2) EvRegister by (cases "Register R p d") auto
  have src: "pl_source (reg_plan R p d) \<noteq> SourceDocker" using assms(1) EvRegister by (simp add: reg_plan_def Let_def)
  from reg show ?thesis
  proof (cases rule: Register_cases)
    case (unallocated c d1)
    then show ?thesis using reg_frontend_keeps(1) [OF unallocated(3)] by (simp add: docker_pubs_def)
  next
    case (no_token fe d1)
    then show ?thesis using src reg_frontend_keeps(1) [OF no_token(2)]
      by (auto simp: docker_pubs_def Registry_Resolve_mget split: if_splits)
  next
    case (leased fe d1 token l e)
    then show ?thesis using src reg_frontend_keeps(1) [OF leased(2)]
      by (auto simp: docker_pubs_def Registry_Resolve_mget split: if_splits)
  qed (use src in auto)
qed (use assms(2) in \<open>auto simp: docker_pubs_def Registry_Resolve_mget ClearBackendIf_mget ForgetDockerPublication_def
    split: option.splits if_splits prod.splits sum.splits lease_error.splits\<close>)

interpretation dock: inv_system docker_init "docker_step L" "tracked_ok docker_pubs L"
proof
  show "tracked_ok docker_pubs L w" if "docker_init w" for w
    using that by (simp add: docker_init_def tracked_ok_def)
  show "tracked_ok docker_pubs L w'" if "tracked_ok docker_pubs L w" "docker_step L w w'" for w w'
    using that(2,1)
  proof cases
    case (step_other ev P d' P')
    then show ?thesis using daemon_docker.tracked_target that(1) other_events_no_docker by blast
  qed (use that(1) daemon_docker.tracked_any_reconcile daemon_docker.publisher_event daemon_docker.tracked_status in auto)
qed

text \<open>C27: Reconciliation repairs what was missed. However the watcher and the rest of the daemon
  got here (events may have been lost, duplicated or late, inspections and registrations may
  have failed), one pass with a complete container list leaves no Docker service ready whose
  container is not in that list as a managed container; and every container that still
  publishes a service is tracked, so that its end will be noticed.\<close>

theorem reconcile_repairs:
  assumes "reach docker_init (docker_step L) w" and "labels_fixed L E"
    and "Reconcile DockerCallbacks allow E (Some cs) w = (w', err)"
  shows "\<not> err \<and> (\<forall>name cid. (name, cid) \<in> docker_pubs (wt_target w') \<longrightarrow>
    mget (wt_tracked w') cid \<noteq> None \<and> (\<exists>labels. (cid, labels) \<in> set cs \<and> managed labels))"
proof -
  have "tracked_ok docker_pubs L w" by (rule dock.reach_inv [OF assms(1)])
  note r = daemon_docker.tracked_reconcile [OF assms(2) this assms(3)]
  have "managed labels" if "summary_managed (cid, labels)" for cid labels
    using that ParseLabels_enabled by (auto simp: summary_managed_def split: sum.splits)
  then show ?thesis using r unfolding tracked_ok_def by fastforce
qed

lemma web_fixed: "labels_fixed (\<lambda>_. ''web'') web_env"
  by (simp add: labels_fixed_def web_env_def web_labels_def mget0_def)

lemma web_inspect:
  "\<exists>key. RegistrationFromInspect (the (we_inspect web_env ''c1'' n)) False =
     Inr \<lparr>dr_Name = ''web'', dr_Kind = ''http'', dr_AppProtocol = [], dr_BackendHost = ''127.0.0.1'', dr_BackendPort = 90,
          dr_PreferredPort = 0, dr_OwnerKey = key, dr_ContainerID = ''c1'', dr_HTTPHost = ''web.test''\<rparr> \<and> key \<noteq> []"
proof -
  have e: "EqualFold ''true'' ''true''" "port_label ''80'' = Some 80" "port_key 80 = ''80/tcp''"
    "isLoopbackIP ''127.0.0.1''" "Sscanf_d ''90'' = Some 90" by code_simp+
  have l: "ParseLabels web_labels = Inr \<lparr>lb_Enabled = True, lb_Name = ''web'', lb_ContainerPort = 80, lb_Kind = ''http'',
      lb_AppProtocol = [], lb_PreferredPort = 0, lb_HTTPHost = ''web.test''\<rparr>"
    by (simp add: ParseLabels_def web_labels_def mget0_def e)
  show ?thesis
    by (simp add: RegistrationFromInspect_def web_env_def l e mget0_def chosen_binding_def OwnerKey_def Let_def)
qed

lemma web_registered: "(''web'', ''c1'') \<in> docker_pubs (wt_target (fst (registerContainer DockerCallbacks False web_env ''c1'' (NewWatcher sample_daemon))))"
proof -
  obtain key where i: "RegistrationFromInspect (the (we_inspect web_env ''c1'' 0)) False =
     Inr \<lparr>dr_Name = ''web'', dr_Kind = ''http'', dr_AppProtocol = [], dr_BackendHost = ''127.0.0.1'', dr_BackendPort = 90,
          dr_PreferredPort = 0, dr_OwnerKey = key, dr_ContainerID = ''c1'', dr_HTTPHost = ''web.test''\<rparr>" and k: "key \<noteq> []"
    using web_inspect [of 0] by blast
  define reg where "reg = \<lparr>dr_Name = ''web'', dr_Kind = ''http'', dr_AppProtocol = [], dr_BackendHost = ''127.0.0.1'', dr_BackendPort = 90,
          dr_PreferredPort = 0, dr_OwnerKey = key, dr_ContainerID = ''c1'', dr_HTTPHost = ''web.test''\<rparr>"
  let ?R = "sample_reg 5 1" and ?p = "docker_params reg"
  have b: "IsLoopbackHost sample_go ''127.0.0.1'' \<and> TrimSpace ''127.0.0.1'' \<noteq> []" by (simp add: sample_go_def) code_simp
  have n: "ValidateName ''web'' = None" by code_simp
  have h: "canonicalHTTPHost sample_go ''web.test'' = Some ''web.test''" by (simp add: sample_go_def) code_simp
  have e: "services (dm_Registry sample_daemon) = []" by (simp add: sample_daemon_def NewRegistry_def)
  have rej: "reg_reject ?R ?p sample_daemon = None"
    using b n h k by (simp add: reg_reject_def reg_plan_def Let_def docker_params_def reg_def reg_hostname_def ValidateBackend_def
        reg_conflict_def Registry_Resolve_mget FindByHostname_find CheckOwnership_def e)
  obtain d' r where reg': "Register ?R ?p sample_daemon = (d', r)" by fastforce
  have kind: "pl_kind (reg_plan ?R ?p sample_daemon) = KindHTTP" "pl_source (reg_plan ?R ?p sample_daemon) = SourceDocker"
    by (simp_all add: reg_plan_def docker_params_def reg_def Let_def)
  from reg' have "\<exists>res. r = Inr res"
    by (cases rule: Register_cases) (use rej kind in auto)
  then have ok: "cb_OnRegister DockerCallbacks ?R reg sample_daemon = (d', None)"
    using reg' by (auto simp: DockerCallbacks_def on_register_def)
  have "wt_target (fst (registerContainer DockerCallbacks False web_env ''c1'' (NewWatcher sample_daemon))) = d'"
    using i ok unfolding registerContainer_def
    by (subst register_attempts.simps) (simp add: web_env_def reg_def NewWatcher_def)
  then show ?thesis using daemon_docker.register_ok [OF ok] by (simp add: reg_def)
qed

theorem reconcile_repairs_witness:
  "\<exists>w w'. reach docker_init (docker_step (\<lambda>_. ''web'')) w \<and> (''web'', ''c1'') \<in> docker_pubs (wt_target w) \<and>
     Reconcile DockerCallbacks False web_env (Some []) w = (w', False) \<and> docker_pubs (wt_target w') = {}"
proof -
  define w where "w = handleEvent DockerCallbacks False web_env ''start'' ''c1'' (NewWatcher sample_daemon)"
  have "docker_init (NewWatcher sample_daemon)"
    by (simp add: docker_init_def NewWatcher_def docker_pubs_def sample_daemon_def NewRegistry_def Registry_Resolve_mget)
  then have r: "reach docker_init (docker_step (\<lambda>_. ''web'')) w"
    unfolding w_def by (blast intro: reach_init reach_step step_event web_fixed)
  have p: "(''web'', ''c1'') \<in> docker_pubs (wt_target w)" using web_registered by (simp add: w_def handleEvent_def)
  obtain w' err where rc: "Reconcile DockerCallbacks False web_env (Some []) w = (w', err)" by fastforce
  have "\<not> err" "docker_pubs (wt_target w') = {}" using reconcile_repairs [OF r web_fixed rc] by auto
  then show ?thesis using rc r p by (intro exI [of _ w] exI [of _ w']) simp
qed

text \<open>C28: The whole watcher. Started on a daemon without Docker services, and whatever its attempts
  and turns receive, \<open>Run\<close> leaves every Docker service that is ready tracked under its
  container, and every wait between two reconnections is at least one and at most thirty seconds.\<close>

theorem Watcher_Run_tracks:
  assumes "docker_pubs d = {}" and "\<forall>(b, E, cs, c) \<in> set as. labels_fixed L E"
    and "\<forall>r \<in> set rs. labels_fixed L (ro_env r) \<and> (\<forall>i \<in> set (ro_items r). item_fixed L i)"
    and "Watcher_Run DockerCallbacks allow as rs (NewWatcher d) = (w, ws)"
  shows "(\<forall>name cid. (name, cid) \<in> docker_pubs (wt_target w) \<longrightarrow> (\<exists>reg. mget (wt_tracked w) cid = Some reg \<and> dr_Name reg = name)) \<and>
    (\<forall>x \<in> set ws. Second \<le> x \<and> x \<le> 30 * Second)"
proof -
  have 0: "tracked_ok docker_pubs L (NewWatcher d)" using assms(1) by (simp add: tracked_ok_def NewWatcher_def)
  have fx: "\<forall>(b, E, cs, c) \<in> set (take 5 as). labels_fixed L E" using assms(2) by (auto dest: in_set_takeD)
  obtain w' res where a: "reconcileWithRetry DockerCallbacks allow as (NewWatcher d) = (w', res)" by fastforce
  have 1: "tracked_ok docker_pubs L w'"
    using daemon_docker.tracked_attempts [OF fx 0, of allow] a by (simp add: reconcileWithRetry_def)
  have run: "tracked_ok docker_pubs L (fst (run_rounds DockerCallbacks allow Second rs (setStatus DockerCallbacks s w')))" for s
    by (rule daemon_docker.tracked_rounds [OF assms(3)]) (simp add: daemon_docker.tracked_status 1)
  have "tracked_ok docker_pubs L w"
    using assms(4) a 1 run [of "''connected''"] run [of "''degraded''"] by (auto simp: Watcher_Run_def split: retry_result.splits)
  moreover have "Second \<le> x \<and> x \<le> 30 * Second" if x: "x \<in> set ws" for x
  proof -
    have "Second \<le> x \<and> x \<le> 30 * Second" if "run_rounds DockerCallbacks allow Second rs v = (w, ws)" for v
      by (rule waits_bounded [OF _ _ that x]) simp_all
    then show ?thesis using assms(4) a x by (cases res) (auto simp: Watcher_Run_def)
  qed
  ultimately show ?thesis unfolding tracked_ok_def by blast
qed

theorem Watcher_Run_tracks_witness:
  "\<exists>w ws. Watcher_Run DockerCallbacks False [(False, web_env, None, False), (False, web_env, Some [(''c1'', web_labels)], False)]
      [\<lparr>ro_items = [StreamError], ro_canceled = False, ro_wait_canceled = True, ro_env = web_env, ro_list = None\<rparr>]
      (NewWatcher sample_daemon) = (w, ws) \<and> ws = [Second] \<and> Second \<le> hd ws \<and> hd ws \<le> 30 * Second"
proof -
  let ?as = "[(False, web_env, None, False), (False, web_env, Some [(''c1'', web_labels)], False)]"
  let ?rs = "[\<lparr>ro_items = [StreamError], ro_canceled = False, ro_wait_canceled = True, ro_env = web_env, ro_list = None\<rparr>]"
  have d: "docker_pubs sample_daemon = {}"
    by (simp add: docker_pubs_def sample_daemon_def NewRegistry_def Registry_Resolve_mget)
  obtain w ws where r: "Watcher_Run DockerCallbacks False ?as ?rs (NewWatcher sample_daemon) = (w, ws)" by fastforce
  have "\<forall>(b, E, cs, c) \<in> set ?as. labels_fixed (\<lambda>_. ''web'') E"
    "\<forall>r \<in> set ?rs. labels_fixed (\<lambda>_. ''web'') (ro_env r) \<and> (\<forall>i \<in> set (ro_items r). item_fixed (\<lambda>_. ''web'') i)"
    using web_fixed by simp_all
  note t = Watcher_Run_tracks [OF d this r]
  have "ws = [Second]"
    using r by (auto simp: Watcher_Run_def reconcileWithRetry_def Reconcile_def Let_def split: prod.split_asm)
  then show ?thesis using t r by auto
qed

subsection \<open>The reported status\<close>

lemma Register_status [simp]: "dm_dockerStatus (fst (Register R p d)) = dm_dockerStatus d"
proof -
  obtain d' r where reg: "Register R p d = (d', r)" by fastforce
  have fr: "dm_dockerStatus d1 = dm_dockerStatus d" if "reg_frontend R p k h (retired R p d) = (d1, x)" for k h d1 x
    using that by (auto simp: reg_frontend_def retired_def reg_retire_def
        split: if_splits prod.split_asm sum.split_asm alloc_error.split_asm option.splits)
  from reg have "dm_dockerStatus d' = dm_dockerStatus d"
    by (cases rule: Register_cases) (auto simp: reg_publish_def dest: fr)
  then show ?thesis using reg by simp
qed

lemma forget_status [simp]: "dm_dockerStatus (wt_target (forget DockerCallbacks t reg w)) = dm_dockerStatus (wt_target w)"
  by (simp add: forget_def DockerCallbacks_def on_forget_def ForgetDockerPublication_def endPublication_def case_prod_beta)

lemma on_register_status: "on_register R reg d = (d', x) \<Longrightarrow> dm_dockerStatus d' = dm_dockerStatus d"
  by (auto simp: on_register_def split: prod.split_asm sum.split_asm) (metis Register_status fst_conv)+

lemma register_status [simp]:
  "dm_dockerStatus (wt_target (fst (registerContainer DockerCallbacks allow E cid w))) = dm_dockerStatus (wt_target w)"
proof -
  have "dm_dockerStatus (wt_target (fst (register_attempts DockerCallbacks allow E cid left w))) = dm_dockerStatus (wt_target w)" for left
  proof (induction left)
    case 0
    show ?case by (subst register_attempts.simps)
      (auto simp: DockerCallbacks_def dest: on_register_status split: option.splits sum.splits prod.splits inspect_error.splits)
  next
    case (Suc left)
    then show ?case by (subst register_attempts.simps)
      (auto simp: DockerCallbacks_def dest: on_register_status split: option.splits sum.splits prod.splits inspect_error.splits)
  qed
  then show ?thesis by (simp add: registerContainer_def)
qed

lemma reconcile_loop_status [simp]:
  "dm_dockerStatus (wt_target (fst (reconcile_loop DockerCallbacks allow E cs seen w))) = dm_dockerStatus (wt_target w)"
  by (induction cs arbitrary: seen w) auto

lemma Reconcile_status [simp]:
  "dm_dockerStatus (wt_target (fst (Reconcile DockerCallbacks allow E cs w))) = dm_dockerStatus (wt_target w)"
proof (cases cs)
  case (Some xs)
  have f: "dm_dockerStatus (wt_target (fold (\<lambda>(_, reg). forget DockerCallbacks t reg) gone v)) = dm_dockerStatus (wt_target v)" for t gone v
    by (induction gone arbitrary: v) auto
  obtain w1 seen where l: "reconcile_loop DockerCallbacks allow E xs [] w = (w1, seen)" by fastforce
  then show ?thesis using reconcile_loop_status [of allow E xs "[]" w] by (simp add: Reconcile_def Some Let_def f)
qed (simp add: Reconcile_def)

lemma handleEvent_status [simp]:
  "dm_dockerStatus (wt_target (handleEvent DockerCallbacks allow E action cid w)) = dm_dockerStatus (wt_target w)"
  by (auto simp: handleEvent_def split: option.splits)

lemma eventLoop_status: "dm_dockerStatus (wt_target (fst (eventLoop DockerCallbacks allow is w))) = dm_dockerStatus (wt_target w)"
proof (induction "is" arbitrary: w)
  case (Cons i "is")
  then show ?case by (cases i) auto
qed simp

lemma stream_alive:
  "StreamError \<notin> set is \<Longrightarrow> StreamClosed \<notin> set is \<Longrightarrow> \<not> snd (eventLoop cb allow is w)"
proof (induction "is" arbitrary: w)
  case (Cons i "is")
  then show ?case by (cases i) auto
qed simp

text \<open>After a failed start the status stays degraded. If the first five reconciliations fail
  and the event stream then works, the status the daemon reports is \<open>degraded\<close> for as long
  as the stream lives, however many periodic reconciliations succeed meanwhile.\<close>

theorem degraded_until_reconnect:
  assumes "reconcileWithRetry DockerCallbacks allow as w = (w', RetryFailed)"
    and "Watcher_Run DockerCallbacks allow as (r # rs) w = (w'', ws)"
    and "StreamError \<notin> set (ro_items r)" and "StreamClosed \<notin> set (ro_items r)"
  shows "DockerStatus (wt_target w'') = ''degraded''"
proof -
  obtain w1 sf where l: "eventLoop DockerCallbacks allow (ro_items r) (setStatus DockerCallbacks ''degraded'' w') = (w1, sf)" by fastforce
  have "\<not> sf" using stream_alive [OF assms(3,4)] l by (metis snd_conv)
  then have "w'' = w1" using assms(1,2) l by (simp add: Watcher_Run_def)
  moreover have "dm_dockerStatus (wt_target w1) = ''degraded''"
    using eventLoop_status [of allow "ro_items r" "setStatus DockerCallbacks ''degraded'' w'"] l
    by (simp add: setStatus_def DockerCallbacks_def SetDockerStatus_def)
  ultimately show ?thesis by (simp add: DockerStatus_def)
qed

theorem degraded_until_reconnect_witness:
  "\<exists>w ws. Watcher_Run DockerCallbacks False (replicate 5 (False, web_env, None, False))
      [\<lparr>ro_items = [Tick web_env (Some [(''c1'', web_labels)])], ro_canceled = False, ro_wait_canceled = False, ro_env = web_env, ro_list = None\<rparr>]
      (NewWatcher sample_daemon) = (w, ws) \<and> DockerStatus (wt_target w) = ''degraded''"
proof -
  let ?r = "\<lparr>ro_items = [Tick web_env (Some [(''c1'', web_labels)])], ro_canceled = False, ro_wait_canceled = False,
      ro_env = web_env, ro_list = None\<rparr>"
  have f: "reconcileWithRetry DockerCallbacks False (replicate 5 (False, web_env, None, False)) (NewWatcher sample_daemon) =
      (NewWatcher sample_daemon, RetryFailed)"
    by (simp add: reconcileWithRetry_def Reconcile_def eval_nat_numeral)
  obtain w ws where r: "Watcher_Run DockerCallbacks False (replicate 5 (False, web_env, None, False)) [?r] (NewWatcher sample_daemon) = (w, ws)"
    by fastforce
  have "StreamError \<notin> set (ro_items ?r)" "StreamClosed \<notin> set (ro_items ?r)" by simp_all
  from degraded_until_reconnect [OF f r this] r show ?thesis by blast
qed

end
