(* ===== verification/Go_Url.thy ===== *)
theory Go_Url
  imports Go_Http
begin

text \<open>
  What the client uses of \<open>net/url\<close>: the path that a request carries for a URL of the form
  \<open>http://devmesh\<close> followed by a path. The path of a valid URL is sent as written when it is
  a valid encoding, and encoded anew otherwise. The lemmas show that a path of plain
  characters is sent as it is and reaches the route it names.
\<close>

section \<open>Definitions\<close>

definition is_alnum :: "char \<Rightarrow> bool" where
  "is_alnum c \<longleftrightarrow>
     (48 \<le> byte c \<and> byte c \<le> 57) \<or> (65 \<le> byte c \<and> byte c \<le> 90) \<or> (97 \<le> byte c \<and> byte c \<le> 122)"

text \<open>Bytes that \<open>escape(_, encodePath)\<close> leaves alone.\<close>

definition path_byte :: "char \<Rightarrow> bool" where
  "path_byte c \<longleftrightarrow> is_alnum c \<or> c \<in> set ''-_.~$&+,/:;=@''"

definition upper_hex :: "nat \<Rightarrow> char" where
  "upper_hex n = (if n < 10 then char_of (48 + n) else char_of (55 + n))"

definition url_escape :: "string \<Rightarrow> string" where
  "url_escape s =
     concat (map (\<lambda>c. if path_byte c then [c] else [CHR ''%'', upper_hex (byte c div 16), upper_hex (byte c mod 16)]) s)"

definition validEncoded :: "string \<Rightarrow> bool" where
  "validEncoded s \<longleftrightarrow> list_all (\<lambda>c. path_byte c \<or> c \<in> set ''!*()[]%'' \<or> byte c = 39) s"

text \<open>\<open>setPath\<close> followed by \<open>EscapedPath\<close>.\<close>

definition EscapedPath :: "string \<Rightarrow> string option" where
  "EscapedPath p =
     (case url_unescape p of
        None \<Rightarrow> None
      | Some u \<Rightarrow> Some (if validEncoded p then p else url_escape u))"

definition cut :: "char \<Rightarrow> string \<Rightarrow> string \<times> string" where
  "cut x s = (takeWhile (\<lambda>c. c \<noteq> x) s, drop 1 (dropWhile (\<lambda>c. c \<noteq> x) s))"

text \<open>
  \<open>url.Parse\<close>: the fragment is cut off and must unescape; control bytes before it are
  refused; the query is cut off and not looked at.
\<close>

definition url_Parse_path :: "string \<Rightarrow> string option" where
  "url_Parse_path path =
     (case cut CHR ''#'' path of
        (u, frag) \<Rightarrow>
          if \<not> list_all (\<lambda>c. 32 \<le> byte c \<and> byte c \<noteq> 127) u then None
          else if frag \<noteq> [] \<and> url_unescape frag = None then None
          else EscapedPath (fst (cut CHR ''?'' u)))"

text \<open>Characters of identifiers the daemon issues and of service names.\<close>

definition plain_char :: "char \<Rightarrow> bool" where
  "plain_char c \<longleftrightarrow> is_alnum c \<or> c \<in> set ''-_.''"

definition plain_seg :: "string \<Rightarrow> bool" where
  "plain_seg s \<longleftrightarrow> s \<noteq> [] \<and> s \<noteq> ''.'' \<and> s \<noteq> ''..'' \<and> list_all plain_char s"

text \<open>A path made of segments.\<close>

fun path_of :: "string list \<Rightarrow> string" where
  "path_of [] = []"
| "path_of (s # ss) = CHR ''/'' # s @ path_of ss"

section \<open>Lemmas\<close>

lemma plain_char_byte: "plain_char c \<Longrightarrow> path_byte c \<and> 32 < byte c \<and> byte c < 127 \<and> c \<noteq> CHR ''%'' \<and> c \<noteq> CHR ''/'' \<and> c \<noteq> CHR ''#'' \<and> c \<noteq> CHR ''?''"
  by (auto simp: plain_char_def path_byte_def is_alnum_def)

lemma plain_seg_no_slash: "plain_seg s \<Longrightarrow> CHR ''/'' \<notin> set s"
  by (auto simp: plain_seg_def list_all_iff dest: plain_char_byte)

lemma path_of_chars:
  "list_all plain_seg ss \<Longrightarrow> c \<in> set (path_of ss) \<Longrightarrow> plain_char c \<or> c = CHR ''/''"
  by (induction ss) (auto simp: plain_seg_def list_all_iff)

lemma url_unescape_plain: "CHR ''%'' \<notin> set s \<Longrightarrow> url_unescape s = Some s"
  by (induction s) auto

lemma cut_none: "x \<notin> set s \<Longrightarrow> cut x s = (s, [])"
proof -
  assume "x \<notin> set s"
  then have "takeWhile (\<lambda>c. c \<noteq> x) s = s" "dropWhile (\<lambda>c. c \<noteq> x) s = []" by (induction s) auto
  then show ?thesis unfolding cut_def by (simp only: drop_Nil)
qed

lemma url_Parse_path_plain:
  assumes "list_all plain_seg ss"
  shows "url_Parse_path (path_of ss) = Some (path_of ss)"
proof -
  have c: "c \<in> set (path_of ss) \<Longrightarrow> path_byte c \<and> 32 < byte c \<and> byte c < 127 \<and> c \<noteq> CHR ''%'' \<and> c \<noteq> CHR ''#'' \<and> c \<noteq> CHR ''?''" for c
  proof -
    assume "c \<in> set (path_of ss)"
    then consider "plain_char c" | "c = CHR ''/''" using path_of_chars [OF assms] by blast
    then show ?thesis by cases (auto dest: plain_char_byte simp: path_byte_def)
  qed
  have s: "CHR ''#'' \<notin> set (path_of ss)" "CHR ''?'' \<notin> set (path_of ss)" "CHR ''%'' \<notin> set (path_of ss)"
    using c by blast+
  have v: "validEncoded (path_of ss)" using c by (auto simp: validEncoded_def list_all_iff)
  have "list_all (\<lambda>c. 32 \<le> byte c \<and> byte c \<noteq> 127) (path_of ss)" using c by (force simp: list_all_iff)
  then show ?thesis
    by (simp add: url_Parse_path_def cut_none [OF s(1)] cut_none [OF s(2)] EscapedPath_def url_unescape_plain [OF s(3)] v)
qed

lemma split_on_seg: "x \<notin> set s \<Longrightarrow> split_on x (s @ x # t) = s # split_on x t"
  by (induction s) auto

lemma split_on_none: "x \<notin> set s \<Longrightarrow> split_on x s = [s]"
  by (induction s) auto

lemma split_on_path:
  "list_all plain_seg ss \<Longrightarrow> ss \<noteq> [] \<Longrightarrow> split_on CHR ''/'' (path_of ss) = [] # ss"
proof (induction ss)
  case (Cons s ss)
  then have n: "CHR ''/'' \<notin> set s" by (simp add: plain_seg_no_slash)
  show ?case
  proof (cases ss)
    case Nil
    then show ?thesis by (simp add: split_on_none [OF n])
  next
    case (Cons t ts)
    then have "split_on CHR ''/'' (path_of ss) = [] # ss" using Cons.IH Cons.prems by simp
    then have "split_on CHR ''/'' (t @ path_of ts) = t # ts" using Cons by simp
    then show ?thesis using Cons by (simp add: split_on_seg [OF n])
  qed
qed simp

lemma clean_elems_plain:
  "list_all plain_seg ss \<Longrightarrow> clean_elems b acc ss = rev acc @ ss"
  by (induction ss arbitrary: acc) (auto simp: plain_seg_def)

lemma join_with_path: "ss \<noteq> [] \<Longrightarrow> CHR ''/'' # join_with CHR ''/'' ss = path_of ss"
  by (induction ss rule: induct_list012) auto

lemma cleanPath_plain:
  assumes "list_all plain_seg ss" "ss \<noteq> []"
  shows "cleanPath (path_of ss) = path_of ss"
proof -
  obtain s ts where ss: "ss = s # ts" using assms(2) by (cases ss) auto
  have l: "last (path_of ss) \<noteq> CHR ''/''" using assms
  proof (induction ss)
    case (Cons t ts)
    then have t: "t \<noteq> []" "CHR ''/'' \<notin> set t" using plain_seg_no_slash by (auto simp: plain_seg_def)
    show ?case
    proof (cases ts)
      case Nil
      then show ?thesis using t last_in_set [OF t(1)] by (metis append_Nil2 last.simps path_of.simps)
    next
      case (Cons u us)
      then have "path_of ts \<noteq> []" by simp
      moreover have "last (path_of ts) \<noteq> CHR ''/''" using Cons.IH Cons.prems Cons by simp
      ultimately show ?thesis by simp
    qed
  qed simp
  have "filepath_Clean (path_of ss) = path_of ss"
  proof -
    have "clean_elems True [] (split_on CHR ''/'' (path_of ss)) = ss"
      using clean_elems_plain [OF assms(1), of True "[]"] by (simp add: split_on_path [OF assms])
    moreover have "path_of ss \<noteq> []" "HasPrefix (path_of ss) ''/''" by (simp_all add: ss HasPrefix_def)
    ultimately show ?thesis unfolding filepath_Clean_def Let_def by (simp add: join_with_path [OF assms(2)])
  qed
  then show ?thesis using l by (simp add: cleanPath_def Let_def ss)
qed

lemma seg_values_plain: "list_all plain_seg ss \<Longrightarrow> seg_values ss = ss"
proof (induction ss rule: seg_values.induct)
  case (2 s)
  then have "CHR ''%'' \<notin> set s" by (auto simp: plain_seg_def list_all_iff dest: plain_char_byte)
  with 2 show ?case by (auto simp: pathUnescape_plain plain_seg_def)
next
  case (3 s t ss)
  then have "CHR ''%'' \<notin> set s" by (auto simp: plain_seg_def list_all_iff dest: plain_char_byte)
  with 3 show ?case by (auto simp: pathUnescape_plain)
qed simp

text \<open>A request whose path is made of plain segments is routed by them.\<close>

lemma mux_find_plain:
  assumes "list_all plain_seg ss" "ss \<noteq> []" "hq_Path q = path_of ss"
  shows "mux_find rs q = first_route rs (hq_Method q) ss"
  using assms split_on_path [OF assms(1,2)]
  by (simp add: mux_find_def cleanPath_plain path_segments_def seg_values_plain)

end
