(* ===== verification/Transport.thy ===== *)
theory Transport
  imports Api Go_Url
begin

text \<open>
  \<open>internal/transport\<close>: the JSON client over the daemon's Unix socket (client.go) and the
  binding of that socket (unix.go). What answers a request is a parameter: \<open>'w server\<close> takes
  the request and the state of the world to the new state and to what \<open>http.Client.Do\<close> and
  the reading of the body give. \<open>daemon_server\<close> plugs in the daemon's own API server.
  The steps of \<open>Listen\<close> are also given one by one, to let several daemons start at once.
\<close>

section \<open>Definitions\<close>

subsection \<open>The client (client.go)\<close>

record Client =
  tc_socket :: string
  tc_Timeout :: duration

definition NewClient :: "string \<Rightarrow> duration \<Rightarrow> Client" where
  "NewClient socketPath timeout =
     \<lparr>tc_socket = socketPath, tc_Timeout = (if timeout \<le> 0 then 5 * Second else timeout)\<rparr>"

datatype exchange = NoAnswer | BodyFailed | Answer http_response

type_synonym 'w server = "http_request \<Rightarrow> 'w \<Rightarrow> 'w \<times> exchange"

text \<open>A message is a text of the envelope or the raw body of the response.\<close>

datatype message = Text string | Raw content

datatype transport_error =
    BadURL
  | Unreachable
  | ReadFailed
  | ApiError int string message
  | Undecodable

definition set_errorBody :: "string \<Rightarrow> json \<Rightarrow> string \<times> string \<Rightarrow> (string \<times> string) option" where
  "set_errorBody f j b =
     (if f = ''code'' then map_option (\<lambda>v. (v, snd b)) (dec_string (fst b) j)
      else map_option (\<lambda>v. (fst b, v)) (dec_string (snd b) j))"

definition decodeError :: "int \<Rightarrow> content \<Rightarrow> transport_error" where
  "decodeError status data =
     (case data of
        Doc j \<Rightarrow>
          (case dec_struct [''error''] False
                  (\<lambda>_ e old. dec_struct [''code'', ''message''] False set_errorBody old e) ([], []) j of
             Some (c, m) \<Rightarrow>
               if c \<noteq> [] then ApiError status c (Text m) else ApiError status ''internal_error'' (Raw data)
           | None \<Rightarrow> ApiError status ''internal_error'' (Raw data))
      | _ \<Rightarrow> ApiError status ''internal_error'' (Raw data))"

text \<open>
  \<open>in\<close> is the marshalled body; \<open>out\<close> decodes into the target, whose value before is \<open>z\<close>.
\<close>

definition Client_do ::
  "'w server \<Rightarrow> string \<Rightarrow> string \<Rightarrow> string \<Rightarrow> json option \<Rightarrow> (json \<Rightarrow> 'a option) option \<Rightarrow> 'a \<Rightarrow> 'w
     \<Rightarrow> 'w \<times> (transport_error, 'a) result" where
  "Client_do srv method path token inp out z w =
     (case url_Parse_path path of
        None \<Rightarrow> (w, Inl BadURL)
      | Some p \<Rightarrow>
          (case srv \<lparr>hq_Method = method, hq_Path = p,
                     hq_Authorization = (if token \<noteq> [] then ''Bearer '' @ token else []),
                     hq_Body = (case inp of None \<Rightarrow> Empty | Some j \<Rightarrow> Doc j)\<rparr> w of
             (w', NoAnswer) \<Rightarrow> (w', Inl Unreachable)
           | (w', BodyFailed) \<Rightarrow> (w', Inl ReadFailed)
           | (w', Answer resp) \<Rightarrow>
               (w',
                if hr_Status resp < 200 \<or> hr_Status resp \<ge> 300
                then Inl (decodeError (hr_Status resp) (hr_Body resp))
                else
                  (case out of
                     None \<Rightarrow> Inr z
                   | Some dec \<Rightarrow>
                       (case hr_Body resp of
                          Empty \<Rightarrow> Inr z
                        | Garbage _ \<Rightarrow> Inl Undecodable
                        | Doc j \<Rightarrow> (case dec j of None \<Rightarrow> Inl Undecodable | Some v \<Rightarrow> Inr v))))))"

definition Do ::
  "'w server \<Rightarrow> string \<Rightarrow> string \<Rightarrow> json option \<Rightarrow> (json \<Rightarrow> 'a option) option \<Rightarrow> 'a \<Rightarrow> 'w
     \<Rightarrow> 'w \<times> (transport_error, 'a) result" where
  "Do srv method path inp out z w = Client_do srv method path [] inp out z w"

definition DoAuth ::
  "'w server \<Rightarrow> string \<Rightarrow> string \<Rightarrow> string \<Rightarrow> json option \<Rightarrow> (json \<Rightarrow> 'a option) option \<Rightarrow> 'a \<Rightarrow> 'w
     \<Rightarrow> 'w \<times> (transport_error, 'a) result" where
  "DoAuth srv method path token inp out z w = Client_do srv method path token inp out z w"

subsection \<open>Paths and listening (unix.go)\<close>

definition DefaultSocketPath :: "string option \<Rightarrow> string \<Rightarrow> string" where
  "DefaultSocketPath home temp =
     (case home of
        None \<Rightarrow> filepath_Join [temp, ''devmesh.sock'']
      | Some h \<Rightarrow>
          if h = [] then filepath_Join [temp, ''devmesh.sock'']
          else filepath_Join [h, ''.devmesh'', ''run'', ''devmesh.sock''])"

text \<open>
  What is at the socket path. A socket has the process that listens on it, if any, and
  whether its mode is 0600.
\<close>

datatype node = Regular | Directory | SymLink | Socket "nat option" bool

datatype listen_error =
    MkdirFailed | LstatFailed | NotASocket | AlreadyListening | RemoveFailed | BindFailed | ChmodFailed

text \<open>Which system calls succeed; \<open>se_dial\<close>: a live daemon accepts within the 500 ms.\<close>

record sock_env =
  se_mkdir :: bool
  se_lstat :: bool
  se_dial :: bool
  se_remove :: bool
  se_bind :: bool
  se_chmod :: bool

fun is_socket :: "node \<Rightarrow> bool" where
  "is_socket (Socket _ _) = True"
| "is_socket _ = False"

fun live_socket :: "node \<Rightarrow> bool" where
  "live_socket (Socket (Some _) _) = True"
| "live_socket _ = False"

fun chmod :: "node \<Rightarrow> node" where
  "chmod (Socket p _) = Socket p True"
| "chmod n = n"

text \<open>From \<open>net.Listen\<close> on; closing the listener unlinks the path.\<close>

definition bind_socket :: "sock_env \<Rightarrow> nat \<Rightarrow> node option \<Rightarrow> node option \<times> (listen_error, unit) result" where
  "bind_socket E me at =
     (if at \<noteq> None \<or> \<not> se_bind E then (at, Inl BindFailed)
      else if se_chmod E then (Some (Socket (Some me) True), Inr ())
      else (None, Inl ChmodFailed))"

definition Listen :: "sock_env \<Rightarrow> nat \<Rightarrow> node option \<Rightarrow> node option \<times> (listen_error, unit) result" where
  "Listen E me at =
     (if \<not> se_mkdir E then (at, Inl MkdirFailed)
      else if \<not> se_lstat E then (at, Inl LstatFailed)
      else
        (case at of
           Some n \<Rightarrow>
             if \<not> is_socket n then (at, Inl NotASocket)
             else if live_socket n \<and> se_dial E then (at, Inl AlreadyListening)
             else if \<not> se_remove E then (at, Inl RemoveFailed)
             else bind_socket E me None
         | None \<Rightarrow> bind_socket E me None))"

definition RemoveSocket :: "sock_env \<Rightarrow> node option \<Rightarrow> node option" where
  "RemoveSocket E at = (if se_remove E then None else at)"

text \<open>The same system call by system call; others may change the path between two of them.\<close>

datatype listen_pc = LMkdir | LLstat | LDial | LRemove | LBind | LChmod | LReturned "(listen_error, unit) result"

fun listen_step :: "sock_env \<Rightarrow> nat \<Rightarrow> node option \<Rightarrow> listen_pc \<Rightarrow> node option \<times> listen_pc" where
  "listen_step E me at LMkdir = (at, if se_mkdir E then LLstat else LReturned (Inl MkdirFailed))"
| "listen_step E me at LLstat =
     (at, if \<not> se_lstat E then LReturned (Inl LstatFailed)
          else (case at of
                  None \<Rightarrow> LBind
                | Some n \<Rightarrow> if is_socket n then LDial else LReturned (Inl NotASocket)))"
| "listen_step E me at LDial =
     (at, case at of
            Some n \<Rightarrow> if live_socket n \<and> se_dial E then LReturned (Inl AlreadyListening) else LRemove
          | None \<Rightarrow> LRemove)"
| "listen_step E me at LRemove =
     (if at = None \<or> \<not> se_remove E then (at, LReturned (Inl RemoveFailed)) else (None, LBind))"
| "listen_step E me at LBind =
     (if at \<noteq> None \<or> \<not> se_bind E then (at, LReturned (Inl BindFailed)) else (Some (Socket (Some me) False), LChmod))"
| "listen_step E me at LChmod =
     (if at = None \<or> \<not> se_chmod E then (None, LReturned (Inl ChmodFailed))
      else (map_option chmod at, LReturned (Inr ())))"
| "listen_step E me at (LReturned r) = (at, LReturned r)"

text \<open>Two daemons, scheduled by a list: \<open>False\<close> lets the first one make a step.\<close>

fun listen_two :: "sock_env \<Rightarrow> bool list \<Rightarrow> node option \<times> listen_pc \<times> listen_pc \<Rightarrow> node option \<times> listen_pc \<times> listen_pc" where
  "listen_two E [] s = s"
| "listen_two E (b # bs) (at, p1, p2) =
     listen_two E bs
       (if b then (case listen_step E 2 at p2 of (at', p2') \<Rightarrow> (at', p1, p2'))
        else (case listen_step E 1 at p1 of (at', p1') \<Rightarrow> (at', p1', p2)))"

subsection \<open>The daemon as the server\<close>

definition daemon_server :: "api_env \<Rightarrow> Daemon server" where
  "daemon_server A q d = (case Api_serve A q d of (d', resp) \<Rightarrow> (d', Answer resp))"

section \<open>Lemmas\<close>

subsection \<open>Listening\<close>

lemma listen_steps: "((\<lambda>(at, pc). listen_step E me at pc) ^^ 6) (at, LMkdir) = (fst (Listen E me at), LReturned (snd (Listen E me at)))"
  by (simp add: numeral_eq_Suc Listen_def bind_socket_def split: option.splits)


text \<open>The probe does not exclude a second daemon. When two daemons start on a stale socket at
  the same time, both calls of \<open>Listen\<close> can succeed, although every system call behaves: the
  second removes the socket the first has just bound, and the first serves a socket that no
  client can reach any more.\<close>

theorem Listen_race:
  "\<exists>schedule. listen_two \<lparr>se_mkdir = True, se_lstat = True, se_dial = True, se_remove = True, se_bind = True, se_chmod = True\<rparr>
     schedule (Some (Socket None True), LMkdir, LMkdir) =
     (Some (Socket (Some 2) True), LReturned (Inr ()), LReturned (Inr ()))"
  by (intro exI [of _ "[False, False, False, True, True, True, False, False, False, True, True, True]"]) simp

subsection \<open>Requests to the daemon\<close>

lemma decodeError_status [simp]: "\<exists>c m. decodeError status data = ApiError status c m"
  by (auto simp: decodeError_def split: content.split option.split)

lemma decodeError_envelope:
  assumes "valid_utf8 c" "valid_utf8 m" "c \<noteq> []"
  shows "decodeError status (Doc (errorEnvelope c m)) = ApiError status c (Text m)"
  using assms by (simp add: decodeError_def errorEnvelope_def dec_struct_def set_errorBody_def)

lemma Client_do_over:
  assumes "list_all plain_seg ss" "ss \<noteq> []" "first_route routes method ss = Matched h vs" "method \<noteq> ''HEAD''"
  shows "Client_do (daemon_server A) method (path_of ss) token inp out z d =
    (case call_handler A h vs \<lparr>hq_Method = method, hq_Path = path_of ss,
        hq_Authorization = (if token \<noteq> [] then ''Bearer '' @ token else []),
        hq_Body = (case inp of None \<Rightarrow> Empty | Some j \<Rightarrow> Doc j)\<rparr> d of
      (d', resp) \<Rightarrow>
        (d', if hr_Status resp < 200 \<or> hr_Status resp \<ge> 300
             then Inl (decodeError (hr_Status resp) (hr_Body resp))
             else (case out of
                     None \<Rightarrow> Inr z
                   | Some dec \<Rightarrow>
                       (case hr_Body resp of
                          Empty \<Rightarrow> Inr z
                        | Garbage _ \<Rightarrow> Inl Undecodable
                        | Doc j \<Rightarrow> (case dec j of None \<Rightarrow> Inl Undecodable | Some v \<Rightarrow> Inr v)))))"
proof -
  let ?q = "\<lparr>hq_Method = method, hq_Path = path_of ss, hq_Authorization = (if token \<noteq> [] then ''Bearer '' @ token else []),
      hq_Body = (case inp of None \<Rightarrow> Empty | Some j \<Rightarrow> Doc j)\<rparr>"
  have "mux_find routes ?q = Matched h vs" using mux_find_plain [OF assms(1,2), of ?q routes] assms(3) by simp
  then have "Api_serve A ?q d = call_handler A h vs ?q d"
    using assms(4) by (simp add: Api_serve_def split: prod.split)
  then show ?thesis
    by (simp add: Client_do_def url_Parse_path_plain [OF assms(1)] daemon_server_def split: prod.split)
qed

end
