(* ===== verification/Client.thy ===== *)
theory Client
  imports Complex_Main Transport
begin

text \<open>
  \<open>pkg/devmesh\<close>: the Go client library. A registration is a handle; the heartbeat loop is
  one function per turn of its \<open>for\<close>, and a run of it a list of turns, each with what
  happened in the world meanwhile and with the server that answers. Randomness, the rounding
  of \<open>float64\<close> operations and the home directory are parameters. The lemmas here are about the wire and about
  registering with the daemon; theory \<open>Client_Heartbeats\<close> is about the loop and closing.
\<close>

section \<open>Definitions\<close>

subsection \<open>Decoding the answers\<close>

definition FrontendDTO0 :: FrontendDTO where
  "FrontendDTO0 = \<lparr>fd_Host = [], fd_Port = 0, fd_URL = []\<rparr>"

definition set_FrontendDTO :: "string \<Rightarrow> json \<Rightarrow> FrontendDTO \<Rightarrow> FrontendDTO option" where
  "set_FrontendDTO f j b =
     (if f = ''host'' then map_option (\<lambda>v. b\<lparr>fd_Host := v\<rparr>) (dec_string (fd_Host b) j)
      else if f = ''port'' then map_option (\<lambda>v. b\<lparr>fd_Port := v\<rparr>) (dec_int (fd_Port b) j)
      else map_option (\<lambda>v. b\<lparr>fd_URL := v\<rparr>) (dec_string (fd_URL b) j))"

definition dec_FrontendDTO :: "FrontendDTO \<Rightarrow> json \<Rightarrow> FrontendDTO option" where
  "dec_FrontendDTO = dec_struct [''host'', ''port'', ''url''] False set_FrontendDTO"

definition RegisterResponse0 :: RegisterResponse where
  "RegisterResponse0 =
     \<lparr>rx_RegistrationID = [], rx_LeaseToken = [], rx_Name = [], rx_Frontend = FrontendDTO0, rx_ExpiresAt = [],
      rx_TTLSeconds = 0\<rparr>"

definition RegisterResponse_fields :: "string list" where
  "RegisterResponse_fields = [''registration_id'', ''lease_token'', ''name'', ''frontend'', ''expires_at'', ''ttl_seconds'']"

definition set_RegisterResponse :: "string \<Rightarrow> json \<Rightarrow> RegisterResponse \<Rightarrow> RegisterResponse option" where
  "set_RegisterResponse f j r =
     (if f = ''registration_id'' then map_option (\<lambda>v. r\<lparr>rx_RegistrationID := v\<rparr>) (dec_string (rx_RegistrationID r) j)
      else if f = ''lease_token'' then map_option (\<lambda>v. r\<lparr>rx_LeaseToken := v\<rparr>) (dec_string (rx_LeaseToken r) j)
      else if f = ''name'' then map_option (\<lambda>v. r\<lparr>rx_Name := v\<rparr>) (dec_string (rx_Name r) j)
      else if f = ''frontend'' then map_option (\<lambda>v. r\<lparr>rx_Frontend := v\<rparr>) (dec_FrontendDTO (rx_Frontend r) j)
      else if f = ''expires_at'' then map_option (\<lambda>v. r\<lparr>rx_ExpiresAt := v\<rparr>) (dec_string (rx_ExpiresAt r) j)
      else map_option (\<lambda>v. r\<lparr>rx_TTLSeconds := v\<rparr>) (dec_int (rx_TTLSeconds r) j))"

definition dec_RegisterResponse :: "json \<Rightarrow> RegisterResponse option" where
  "dec_RegisterResponse = dec_struct RegisterResponse_fields False set_RegisterResponse RegisterResponse0"

definition dec_HeartbeatResponse :: "json \<Rightarrow> string option" where
  "dec_HeartbeatResponse = dec_struct [''expires_at''] False (\<lambda>_ j old. dec_string old j) []"

subsection \<open>Options and handles\<close>

record RegistrationOptions =
  op_Name :: string
  op_Kind :: string
  op_AppProtocol :: string
  op_HTTPHost :: string
  op_Backend :: string
  op_PreferredPort :: int
  op_TTLSeconds :: int
  op_Manual :: bool
  op_Socket :: string

record RegistrationInfo =
  ri_RegistrationID :: string
  ri_Name :: string
  ri_Endpoint :: string
  ri_ExpiresAt :: gotime
  ri_TTL :: duration

abbreviation (input) defaultLeaseTTL :: duration where "defaultLeaseTTL \<equiv> 15 * Second"

record registrationHandle =
  rh_client :: Client
  rh_baseReq :: RegisterRequest
  rh_name :: string
  rh_regID :: string
  rh_token :: string
  rh_endpoint :: string
  rh_ttl :: duration
  rh_expires :: gotime
  rh_closed :: bool

datatype register_error =
    NameRequired | BackendRequired | BackendInvalid | BackendPortInvalid | RequestFailed transport_error

record client_env =
  ce_UserHomeDir :: "string option"
  ce_TempDir :: string
  ce_parse :: "string \<Rightarrow> gotime option"   \<comment> \<open>\<open>time.Parse\<close> on irregular strings\<close>
  ce_round :: "rat \<Rightarrow> rat"               \<comment> \<open>the \<open>float64\<close> nearest to a number\<close>

definition frontendEndpoint :: "FrontendDTO \<Rightarrow> string" where
  "frontendEndpoint f = (if fd_URL f \<noteq> [] then fd_URL f else JoinHostPort (fd_Host f) (Itoa (fd_Port f)))"

text \<open>\<open>adopt\<close> is what \<open>register\<close> does with a response.\<close>

definition adopt :: "client_env \<Rightarrow> RegisterResponse \<Rightarrow> registrationHandle \<Rightarrow> registrationHandle" where
  "adopt C resp h =
     h\<lparr>rh_regID := rx_RegistrationID resp, rh_token := rx_LeaseToken resp,
       rh_endpoint := frontendEndpoint (rx_Frontend resp),
       rh_ttl := (if rx_TTLSeconds resp > 0 then wrap64 (rx_TTLSeconds resp * Second) else defaultLeaseTTL),
       rh_expires :=
         (if rx_ExpiresAt resp \<noteq> []
          then (case time_Parse (ce_parse C) (rx_ExpiresAt resp) of Some t \<Rightarrow> t | None \<Rightarrow> zero_time)
          else zero_time)\<rparr>"

definition handle_register ::
  "client_env \<Rightarrow> 'w server \<Rightarrow> registrationHandle \<Rightarrow> 'w \<Rightarrow> 'w \<times> registrationHandle \<times> transport_error option" where
  "handle_register C srv h w =
     (case Do srv ''POST'' ''/v1/registrations'' (Some (enc_RegisterRequest (rh_baseReq h)))
             (Some dec_RegisterResponse) RegisterResponse0 w of
        (w', Inl err) \<Rightarrow> (w', h, Some err)
      | (w', Inr resp) \<Rightarrow> (w', adopt C resp h, None))"

text \<open>The request a registration sends, again and again if need be.\<close>

definition base_request :: "RegistrationOptions \<Rightarrow> string \<Rightarrow> int \<Rightarrow> RegisterRequest" where
  "base_request opts host port =
     \<lparr>rg_Name = op_Name opts, rg_Kind = (if op_Kind opts = [] then KindTCP else op_Kind opts),
      rg_AppProtocol = op_AppProtocol opts, rg_Source = (if op_Manual opts then ''manual'' else ''process''),
      rg_Backend = \<lparr>bd_Host = host, bd_Port = port\<rparr>,
      rg_PreferredPort = (if op_PreferredPort opts \<noteq> 0 then op_PreferredPort opts else 0),
      rg_TTLSeconds = op_TTLSeconds opts, rg_HTTPHost = op_HTTPHost opts\<rparr>"

definition fresh_handle :: "client_env \<Rightarrow> RegistrationOptions \<Rightarrow> string \<Rightarrow> int \<Rightarrow> registrationHandle" where
  "fresh_handle C opts host port =
     (let socket = (if op_Socket opts = [] then DefaultSocketPath (ce_UserHomeDir C) (ce_TempDir C) else op_Socket opts) in
      \<lparr>rh_client = NewClient socket (5 * Second), rh_baseReq = base_request opts host port,
       rh_name = op_Name opts, rh_regID = [], rh_token = [], rh_endpoint = [], rh_ttl = 0,
       rh_expires = zero_time, rh_closed = False\<rparr>)"

definition Client_Register ::
  "client_env \<Rightarrow> 'w server \<Rightarrow> RegistrationOptions \<Rightarrow> 'w \<Rightarrow> 'w \<times> (register_error, registrationHandle) result" where
  "Client_Register C srv opts w =
     (if op_Name opts = [] then (w, Inl NameRequired)
      else if op_Backend opts = [] then (w, Inl BackendRequired)
      else
        (case SplitHostPort (op_Backend opts) of
           None \<Rightarrow> (w, Inl BackendInvalid)
         | Some (host, portStr) \<Rightarrow>
             (case Atoi portStr of
                None \<Rightarrow> (w, Inl BackendPortInvalid)
              | Some port \<Rightarrow>
                  (case handle_register C srv (fresh_handle C opts host port) w of
                     (w', _, Some err) \<Rightarrow> (w', Inl (RequestFailed err))
                   | (w', h', None) \<Rightarrow> (w', Inr h')))))"

subsection \<open>Heartbeats\<close>

text \<open>Go's integer division truncates.\<close>

definition go_div :: "int \<Rightarrow> int \<Rightarrow> int" where
  "go_div a b = sgn a * sgn b * (\<bar>a\<bar> div \<bar>b\<bar>)"

definition heartbeatInterval :: "registrationHandle \<Rightarrow> duration" where
  "heartbeatInterval h = (let interval = go_div (rh_ttl h) 3 in if interval < Second then Second else interval)"

text \<open>\<open>u\<close> is \<open>rand.Float64()\<close>; the conversion to a duration truncates.\<close>

definition jitter :: "(rat \<Rightarrow> rat) \<Rightarrow> rat \<Rightarrow> duration \<Rightarrow> duration" where
  "jitter rnd u d =
     (let f = rnd (rnd (4 / 5) + rnd (rnd (2 / 5) * u)); x = rnd (rnd (of_int d) * f) in
      if x < 0 then - \<lfloor>- x\<rfloor> else \<lfloor>x\<rfloor>)"

definition asTransportError :: "transport_error \<Rightarrow> (int \<times> string \<times> message) option" where
  "asTransportError err = (case err of ApiError s c m \<Rightarrow> Some (s, c, m) | _ \<Rightarrow> None)"

text \<open>
  One turn: whether the context was cancelled when the timer fired, what the world did since
  the last turn, who answers the heartbeat and who a new registration, and the random number.
\<close>

record 'w turn =
  tn_canceled :: bool
  tn_meanwhile :: "'w \<Rightarrow> 'w"
  tn_beat :: "'w server"
  tn_again :: "'w server"
  tn_rand :: rat

definition heartbeat_path :: "string \<Rightarrow> string" where
  "heartbeat_path rid = ''/v1/registrations/'' @ rid @ ''/heartbeat''"

abbreviation (input) firstBackoff :: duration where "firstBackoff \<equiv> 100 * Millisecond"

text \<open>A turn leaves the handle, the next backoff and what the timer was reset to.\<close>

definition heartbeat_turn ::
  "client_env \<Rightarrow> 'w turn \<Rightarrow> registrationHandle \<Rightarrow> duration \<Rightarrow> 'w \<Rightarrow> 'w \<times> registrationHandle \<times> duration \<times> duration" where
  "heartbeat_turn C t h backoff w =
     (case DoAuth (tn_beat t) ''POST'' (heartbeat_path (rh_regID h)) (rh_token h) None (Some dec_HeartbeatResponse) [] w of
        (w1, Inr expires) \<Rightarrow>
          (let h1 = (case time_Parse (ce_parse C) expires of Some x \<Rightarrow> h\<lparr>rh_expires := x\<rparr> | None \<Rightarrow> h) in
           (w1, h1, firstBackoff, heartbeatInterval h1))
      | (w1, Inl err) \<Rightarrow>
          (case (case asTransportError err of
                   Some (status, _) \<Rightarrow> if status = 404 then handle_register C (tn_again t) h w1 else (w1, h, Some err)
                 | None \<Rightarrow> (w1, h, Some err)) of
             (w2, h2, None) \<Rightarrow> (w2, h2, firstBackoff, heartbeatInterval h2)
           | (w2, h2, Some _) \<Rightarrow>
               (w2, h2, (if 2 * backoff > 5 * Second then 5 * Second else 2 * backoff),
                jitter (ce_round C) (tn_rand t) backoff)))"

text \<open>The loop so far: the state it is in and what the timer was set to, turn by turn.\<close>

fun heartbeatLoop ::
  "client_env \<Rightarrow> 'w turn list \<Rightarrow> registrationHandle \<Rightarrow> duration \<Rightarrow> 'w \<Rightarrow> 'w \<times> registrationHandle \<times> duration list" where
  "heartbeatLoop C [] h backoff w = (w, h, [])"
| "heartbeatLoop C (t # ts) h backoff w =
     (if tn_canceled t then (tn_meanwhile t w, h, [])
      else
        (case heartbeat_turn C t h backoff (tn_meanwhile t w) of
           (w1, h1, b1, wait) \<Rightarrow>
             (case heartbeatLoop C ts h1 b1 w1 of (w2, h2, waits) \<Rightarrow> (w2, h2, wait # waits))))"

subsection \<open>The rest of the handle\<close>

definition Endpoint :: "registrationHandle \<Rightarrow> string" where
  "Endpoint h = rh_endpoint h"

definition Info :: "registrationHandle \<Rightarrow> RegistrationInfo" where
  "Info h =
     \<lparr>ri_RegistrationID = rh_regID h, ri_Name = rh_name h, ri_Endpoint = rh_endpoint h,
      ri_ExpiresAt = rh_expires h, ri_TTL = rh_ttl h\<rparr>"

text \<open>
  \<open>settle\<close> is what the heartbeat loop still does between the cancellation and the moment
  \<open>Close\<close> goes on, when the loop has ended or two seconds have passed.
\<close>

definition handle_Close ::
  "'w server \<Rightarrow> ('w \<times> registrationHandle \<Rightarrow> 'w \<times> registrationHandle) \<Rightarrow> registrationHandle \<Rightarrow> 'w \<Rightarrow> 'w \<times> registrationHandle" where
  "handle_Close srv settle h w =
     (if rh_closed h then (w, h)
      else
        (case settle (w, h\<lparr>rh_closed := True\<rparr>) of
           (w1, h1) \<Rightarrow>
             if rh_regID h1 = [] \<or> rh_token h1 = [] then (w1, h1)
             else (fst (DoAuth srv ''DELETE'' (''/v1/registrations/'' @ rh_regID h1) (rh_token h1) None None () w1), h1)))"

subsection \<open>Listeners (registration.go)\<close>

record ListenerHandle =
  lh_Listener :: string
  lh_Registration :: "registrationHandle option"

text \<open>
  \<open>bound\<close> is the address that \<open>net.Listen\<close> on \<open>127.0.0.1:0\<close> got; the list holds the
  application's open listeners.
\<close>

definition ListenTCP ::
  "client_env \<Rightarrow> 'w server \<Rightarrow> string option \<Rightarrow> string \<Rightarrow> int \<Rightarrow> string list \<Rightarrow> 'w
     \<Rightarrow> 'w \<times> string list \<times> (register_error option, ListenerHandle) result" where
  "ListenTCP C srv bound name preferredPort lns w =
     (case bound of
        None \<Rightarrow> (w, lns, Inl None)
      | Some lr \<Rightarrow>
          (case Client_Register C srv
                  \<lparr>op_Name = name, op_Kind = KindTCP, op_AppProtocol = [], op_HTTPHost = [], op_Backend = lr,
                   op_PreferredPort = preferredPort, op_TTLSeconds = 0, op_Manual = False, op_Socket = []\<rparr> w of
             (w', Inl err) \<Rightarrow> (w', net_Close (lr # lns) lr, Inl (Some err))
           | (w', Inr h) \<Rightarrow> (w', lr # lns, Inr \<lparr>lh_Listener = lr, lh_Registration = Some h\<rparr>)))"

definition Listener_Close ::
  "'w server \<Rightarrow> ('w \<times> registrationHandle \<Rightarrow> 'w \<times> registrationHandle) \<Rightarrow> ListenerHandle \<Rightarrow> string list \<Rightarrow> 'w
     \<Rightarrow> 'w \<times> string list \<times> ListenerHandle" where
  "Listener_Close srv settle l lns w =
     (let lns' = net_Close lns (lh_Listener l) in
      case lh_Registration l of
        None \<Rightarrow> (w, lns', l)
      | Some h \<Rightarrow> (case handle_Close srv settle h w of (w', h') \<Rightarrow> (w', lns', l\<lparr>lh_Registration := Some h'\<rparr>)))"

subsection \<open>Reference definitions\<close>

definition response_ok :: "RegisterResponse \<Rightarrow> bool" where
  "response_ok x \<longleftrightarrow>
     list_all valid_utf8 [rx_RegistrationID x, rx_LeaseToken x, rx_Name x, fd_Host (rx_Frontend x), fd_URL (rx_Frontend x),
       rx_ExpiresAt x] \<and> int64 (rx_TTLSeconds x)"

text \<open>A concrete registration.\<close>

definition sample_client :: client_env where
  "sample_client = \<lparr>ce_UserHomeDir = None, ce_TempDir = ''/tmp'', ce_parse = (\<lambda>_. None), ce_round = (\<lambda>x. x)\<rparr>"

definition sample_opts :: RegistrationOptions where
  "sample_opts = \<lparr>op_Name = ''db'', op_Kind = [], op_AppProtocol = [], op_HTTPHost = [], op_Backend = ''127.0.0.1:5432'',
     op_PreferredPort = 16000, op_TTLSeconds = 3, op_Manual = False, op_Socket = ''/s''\<rparr>"

definition sample_api_at :: "gotime \<Rightarrow> api_env" where
  "sample_api_at now = \<lparr>ae_reg = sample_reg now 1, ae_now = now, ae_message = (\<lambda>_. []), ae_moved = 301\<rparr>"

section \<open>Lemmas\<close>

subsection \<open>Identifiers, tokens and times are plain text\<close>

lemma is_alnum_byte: "is_alnum c \<Longrightarrow> 32 < byte c \<and> byte c < 128"
  by (auto simp: is_alnum_def)

lemma valid_utf8_alnum: "list_all is_alnum s \<Longrightarrow> valid_utf8 s"
  by (rule valid_utf8_ascii) (auto simp: list_all_iff dest: is_alnum_byte)

lemma base36_alnum: "list_all is_alnum (base36 n)"
proof (induction n rule: base36.induct)
  case (1 n)
  have "d < 36 \<Longrightarrow> is_alnum (base36_digit d)" for d by (auto simp: is_alnum_def base36_digit_def)
  then show ?case using 1 by (subst base36.simps) (simp del: base36.simps)
qed

lemma bits_val_less: "bits_val bs < 2 ^ length bs"
  by (induction bs) auto

lemma base32_alnum: "list_all is_alnum (base32_bits bs)"
proof -
  have d: "d < 32 \<Longrightarrow> is_alnum (base32_digit d)" for d by (auto simp: is_alnum_def base32_digit_def)
  have b: "length bs = 5 \<Longrightarrow> is_alnum (base32_digit (bits_val bs))" for bs
    using d [of "bits_val bs"] bits_val_less [of bs] by simp
  show ?thesis by (induction bs rule: base32_bits.induct) (simp_all add: b del: bits_val.simps)
qed

lemma newID_alnum: "list_all is_alnum (newID ms buf)" "newID ms buf \<noteq> []"
proof -
  show "list_all is_alnum (newID ms buf)" by (simp add: newID_def base36_alnum base32_alnum del: base36.simps)
  have "base36 ms \<noteq> []" by (subst base36.simps) (simp del: base36.simps)
  then show "newID ms buf \<noteq> []" by (simp add: newID_def del: base36.simps)
qed

lemma alnum_plain_seg:
  assumes "list_all is_alnum s" "s \<noteq> []"
  shows "plain_seg s"
  using assms by (auto simp: plain_seg_def plain_char_def list_all_iff is_alnum_def)

lemma hex_alnum: "list_all is_alnum (hex_EncodeToString bs)"
proof -
  have "n < 16 \<Longrightarrow> is_alnum (hex_digit n)" for n by (auto simp: is_alnum_def hex_digit_def)
  then show ?thesis using byte_less by (auto simp: hex_EncodeToString_def list_all_iff less_mult_imp_div_less)
qed

lemma bearer_alnum:
  assumes "list_all is_alnum token"
  shows "bearerToken \<lparr>hq_Method = m, hq_Path = p, hq_Authorization = (if token \<noteq> [] then ''Bearer '' @ token else []), hq_Body = b\<rparr> = token"
proof -
  have "TrimSpace token = token"
    using assms by (intro TrimSpace_tidy) (auto simp: list_all_iff dest: is_alnum_byte)
  then show ?thesis by (simp add: bearerToken_def HasPrefix_def)
qed

lemma digits_ascii: "c \<in> set (Itoa i) \<Longrightarrow> byte c < 128"
proof -
  have "c \<in> set (nat_digits n) \<Longrightarrow> byte c < 128" for n
    using nat_digits_all_digits [of n] by (auto simp: list_all_iff is_digit_def)
  then show "c \<in> set (Itoa i) \<Longrightarrow> byte c < 128" by (auto simp: Itoa_def split: if_splits)
qed

lemma time_Format_utf8: "valid_utf8 (time_Format t)"
proof -
  have pad: "c \<in> set (pad w n) \<Longrightarrow> byte c < 128" for c w n
    by (auto simp: pad_def Let_def dest: digits_ascii)
  show ?thesis
    unfolding time_Format_def Let_def
    by (rule valid_utf8_ascii) (auto split: prod.split dest: pad)
qed

subsection \<open>The wire\<close>

lemma dec_enc_FrontendDTO:
  assumes "valid_utf8 (fd_Host f)" "valid_utf8 (fd_URL f)"
  shows "dec_FrontendDTO FrontendDTO0 (enc_FrontendDTO f) = (if int64 (fd_Port f) then Some f else None)"
proof (cases "int64 (fd_Port f)")
  case True
  then show ?thesis using assms
    by (cases f) (simp add: dec_FrontendDTO_def enc_FrontendDTO_def dec_struct_def set_FrontendDTO_def FrontendDTO0_def omit_str_def)
next
  case False
  then have "dec_int 0 (JInt (fd_Port f)) = None" by (simp add: dec_int_def)
  with False show ?thesis using assms
    by (simp add: dec_FrontendDTO_def enc_FrontendDTO_def dec_struct_def set_FrontendDTO_def FrontendDTO0_def)
qed

lemma dec_enc_RegisterResponse:
  assumes "response_ok x"
  shows "dec_RegisterResponse (enc_RegisterResponse x) = (if int64 (fd_Port (rx_Frontend x)) then Some x else None)"
proof -
  let ?u = set_RegisterResponse and ?f = RegisterResponse_fields
  obtain i k n f e t where x: "x = \<lparr>rx_RegistrationID = i, rx_LeaseToken = k, rx_Name = n, rx_Frontend = f,
      rx_ExpiresAt = e, rx_TTLSeconds = t\<rparr>" by (cases x)
  have v: "valid_utf8 i" "valid_utf8 k" "valid_utf8 n" "valid_utf8 (fd_Host f)" "valid_utf8 (fd_URL f)" "valid_utf8 e" "int64 t"
    using assms by (simp_all add: response_ok_def x)
  note u = set_RegisterResponse_def RegisterResponse_fields_def
  let ?r1 = "RegisterResponse0\<lparr>rx_RegistrationID := i\<rparr>" let ?r2 = "?r1\<lparr>rx_LeaseToken := k\<rparr>"
  let ?r3 = "?r2\<lparr>rx_Name := n\<rparr>" let ?r4 = "?r3\<lparr>rx_Frontend := f\<rparr>" let ?r5 = "?r4\<lparr>rx_ExpiresAt := e\<rparr>"
  let ?r6 = "?r5\<lparr>rx_TTLSeconds := t\<rparr>"
  have 1: "dec_members ?f False ?u ([(''registration_id'', js i)] @ ms) RegisterResponse0 = dec_members ?f False ?u ms ?r1" for ms
    by (rule dec_single) (simp_all add: u v)
  have 2: "dec_members ?f False ?u (omit_str ''lease_token'' k @ ms) ?r1 = dec_members ?f False ?u ms ?r2" for ms
    by (rule dec_omit_str) (simp_all add: u v RegisterResponse0_def)
  have 3: "dec_members ?f False ?u ([(''name'', js n)] @ ms) ?r2 = dec_members ?f False ?u ms ?r3" for ms
    by (rule dec_single) (simp_all add: u v)
  have fr: "dec_FrontendDTO (rx_Frontend ?r3) (enc_FrontendDTO f) = (if int64 (fd_Port f) then Some f else None)"
    using dec_enc_FrontendDTO [OF v(4,5)] by (simp add: RegisterResponse0_def)
  have 4: "dec_members ?f False ?u ([(''frontend'', enc_FrontendDTO f)] @ ms) ?r3 =
      (if int64 (fd_Port f) then dec_members ?f False ?u ms ?r4 else None)" for ms
    using fr by (simp add: u)
  have 5: "dec_members ?f False ?u (omit_str ''expires_at'' e @ ms) ?r4 = dec_members ?f False ?u ms ?r5" for ms
    by (rule dec_omit_str) (simp_all add: u v RegisterResponse0_def)
  have 6: "dec_members ?f False ?u (omit_int ''ttl_seconds'' t @ []) ?r5 = dec_members ?f False ?u [] ?r6"
    by (rule dec_omit_int) (simp_all add: u dec_int_JInt [OF v(7)] RegisterResponse0_def)
  have "dec_members ?f False ?u ([(''registration_id'', js i)] @ omit_str ''lease_token'' k @ [(''name'', js n)] @
      [(''frontend'', enc_FrontendDTO f)] @ omit_str ''expires_at'' e @ omit_int ''ttl_seconds'' t @ []) RegisterResponse0 =
      (if int64 (fd_Port f) then Some ?r6 else None)"
    by (simp only: 1 2 3 4 5 6 dec_members.simps)
  then show ?thesis
    by (simp add: dec_RegisterResponse_def dec_struct_def enc_RegisterResponse_def x RegisterResponse0_def)
qed

subsection \<open>Registering with the daemon\<close>

lemma writeError_status: "hr_Status (writeError m c) \<ge> 400"
  by (simp add: writeError_def writeJSON_def Let_def statusForCode_def mget0_def)

lemma handle_register_over:
  "handle_register C (daemon_server A) h d =
     (case handleRegister A \<lparr>hq_Method = ''POST'', hq_Path = ''/v1/registrations'', hq_Authorization = [],
                             hq_Body = Doc (enc_RegisterRequest (rh_baseReq h))\<rparr> d of
        (d', resp) \<Rightarrow>
          if hr_Status resp < 200 \<or> hr_Status resp \<ge> 300 then (d', h, Some (decodeError (hr_Status resp) (hr_Body resp)))
          else (case hr_Body resp of
                  Empty \<Rightarrow> (d', adopt C RegisterResponse0 h, None)
                | Garbage _ \<Rightarrow> (d', h, Some Undecodable)
                | Doc j \<Rightarrow> (case dec_RegisterResponse j of None \<Rightarrow> (d', h, Some Undecodable) | Some x \<Rightarrow> (d', adopt C x h, None))))"
proof -
  let ?ss = "[''v1'', ''registrations'']"
  have p: "list_all plain_seg ?ss" by (simp add: plain_seg_def plain_char_def is_alnum_def)
  have r: "first_route routes ''POST'' ?ss = Matched HRegister []"
    by (simp add: routes_def method_ok_def)
  show ?thesis
    using Client_do_over [OF p _ r, of A "[]" "Some (enc_RegisterRequest (rh_baseReq h))" "Some dec_RegisterResponse" RegisterResponse0 d]
    by (simp add: handle_register_def Do_def split: prod.split content.split option.split)
qed

lemma handle_register_cases:
  assumes "wire_ok (rh_baseReq h)" "rg_Source (rh_baseReq h) = src" "src \<in> {SourceProcess, SourceManual}"
    "handle_register C (daemon_server A) h d = (d', h', r)"
  obtains (refused) c m where "Register (ae_reg A) (register_params (rh_baseReq h) src) d = (d', Inl c)" "h' = h"
      "r = Some (decodeError (hr_Status (writeError m c)) (hr_Body (writeError m c)))"
  | (granted) res where "Register (ae_reg A) (register_params (rh_baseReq h) src) d = (d', Inr res)"
      "case dec_RegisterResponse (enc_RegisterResponse (register_response res)) of
         Some x \<Rightarrow> h' = adopt C x h \<and> r = None | None \<Rightarrow> h' = h \<and> r = Some Undecodable"
proof -
  have src: "(if rg_Source (rh_baseReq h) = [] then SourceProcess else rg_Source (rh_baseReq h)) = src"
    using assms(2,3) by auto
  note eq = assms(4) [unfolded handle_register_over handleRegister_def http_request.simps decode_enc_RegisterRequest [OF assms(1)]
      option.case Let_def src]
  have ok: "\<not> (src \<noteq> SourceProcess \<and> src \<noteq> SourceManual)" using assms(3) by auto
  obtain x where R: "Register (ae_reg A) (register_params (rh_baseReq h) src) d = (d', x)"
    using eq ok by (auto split: prod.split_asm sum.split_asm if_split_asm content.split_asm option.split_asm)
  show thesis
  proof (cases x)
    case (Inl c)
    have "hr_Status (writeError (ae_message A) c) \<ge> 300" using writeError_status [of "ae_message A" c] by simp
    then have "h' = h \<and> r = Some (decodeError (hr_Status (writeError (ae_message A) c)) (hr_Body (writeError (ae_message A) c)))"
      using eq ok R Inl by (simp add: writeError_def writeJSON_def Let_def)
    then show thesis using R Inl refused by blast
  next
    case (Inr res)
    then show thesis using eq ok R granted [of res]
      by (auto simp: writeJSON_def split: option.split_asm)
  qed
qed

lemma reg_frontend_alloc:
  "reg_frontend R p kind hostname d = (d1, r) \<Longrightarrow> rm_alloc (dm_Runtime d1) = rm_alloc (dm_Runtime d)"
proof -
  obtain m w e where E: "EnsureTCPRuntime (re_io R) (re_bindable R) (rp_Name p) (rp_PreferredPort p)
      (dm_Runtime d) (dm_world d) = (m, w, e)" using prod_cases3 by blast
  then have "rm_alloc m = rm_alloc (dm_Runtime d)" by (cases rule: EnsureTCPRuntime_cases) auto
  then show "reg_frontend R p kind hostname d = (d1, r) \<Longrightarrow> ?thesis"
    using E by (auto simp: reg_frontend_def split: if_splits sum.splits alloc_error.splits)
qed



lemma registered_response:
  assumes "dm_inv G d" "Register R p d = (d', Inr res)" "pl_source (reg_plan R p d) \<noteq> SourceDocker"
    "pl_kind (reg_plan R p d) = KindTCP" "rp_RegistrationID p = []" "valid_utf8 (rp_Name p)" "valid_utf8 (al_host (rm_alloc (dm_Runtime d)))"
  shows "response_ok (register_response res)" and "fe_URL (rr_Frontend res) = []"
    and "rr_RegistrationID res = newID (re_ms R) (re_id_bytes R)" and "list_all is_alnum (rr_LeaseToken res)"
    and "\<exists>rec. Registry_Resolve (dm_Registry d') (rp_Name p) = Some rec \<and> rec = plan_record R p (reg_plan R p d) (rr_Frontend res)"
    and "\<exists>e. Lease_Get (dm_Lease d') (rr_RegistrationID res) = Some e \<and> le_Name e = rp_Name p \<and> le_Token e = rr_LeaseToken res \<and>
      le_TTL e = pl_ttl (reg_plan R p d) \<and> le_ExpiresAt e = re_lease_now R + le_TTL e \<and>
      rr_ExpiresAt res = Some (le_ExpiresAt e) \<and> rr_TTLSeconds res = le_TTL e div Second"
proof -
  let ?pl = "reg_plan R p d"
  obtain fe d1 token l e where c: "reg_reject R p d = None"
      "reg_frontend R p (pl_kind ?pl) (pl_hostname ?pl) (retired R p d) = (d1, Inr fe)"
      "NewToken (re_token_bytes R) = Some token"
      "AddWithTTL (re_lease_now R) (dm_Lease d1) (pl_regID ?pl) (rp_Name p) (pl_ownerKey ?pl) token (pl_ttl ?pl) = (l, e)"
      "d' = (reg_publish R p ?pl fe d1)\<lparr>dm_Lease := l\<rparr>"
      "res = \<lparr>rr_RegistrationID = pl_regID ?pl, rr_LeaseToken = token, rr_Name = rp_Name p, rr_Frontend = fe,
        rr_ExpiresAt = Some (le_ExpiresAt e), rr_TTLSeconds = pl_ttl ?pl div Second\<rparr>"
    using assms(2,3) by (cases rule: Register_cases) auto
  have inv: "rm_inv (dm_Runtime (retired R p d)) (dm_world (retired R p d))" using assms(1) by (simp add: dm_inv_def)
  have k: "pl_kind ?pl \<noteq> KindHTTP" using assms(4) by simp
  obtain rt where rt: "Runtime_Get (dm_Runtime d1) (rp_Name p) = Some rt" "rt_Frontend rt = fe"
    using reg_frontend_runtime(3) [OF c(2) inv k refl] by blast
  then have "rt_ok (dm_Runtime d1) (dm_world d1) (rp_Name p) rt"
    using reg_frontend_runtime(1) [OF c(2) inv] by (auto simp: rm_inv_def list_all_iff Runtime_Get_def dest: mget_in)
  then have host: "fe_Host fe = al_host (rm_alloc (dm_Runtime d))" and url: "fe_URL fe = []"
    using rt(2) reg_frontend_alloc [OF c(2)] by (simp_all add: rt_ok_def)
  have ttl: "MinLeaseTTL \<le> pl_ttl ?pl" "pl_ttl ?pl \<le> MaxLeaseTTL" using reg_reject_None(4) [OF c(1) assms(3)] by simp_all
  have rid: "pl_regID ?pl = newID (re_ms R) (re_id_bytes R)" using assms(5) by (simp add: reg_plan_def Let_def)
  have tok: "list_all is_alnum token" using c(3) by (auto simp: NewToken_def hex_alnum split: option.splits)
  have "pl_ttl ?pl div Second \<ge> 0" "pl_ttl ?pl div Second \<le> 3600" using ttl by auto
  then have i: "int64 (pl_ttl ?pl div Second)" by simp
  show "response_ok (register_response res)"
    using host url assms(6,7) newID_alnum(1) tok i
    by (simp add: response_ok_def register_response_def c(6) frontendDTO_def rid valid_utf8_alnum time_Format_utf8)
  show "fe_URL (rr_Frontend res) = []" "rr_RegistrationID res = newID (re_ms R) (re_id_bytes R)" "list_all is_alnum (rr_LeaseToken res)"
    using url rid tok by (simp_all add: c(6))
  show "\<exists>rec. Registry_Resolve (dm_Registry d') (rp_Name p) = Some rec \<and> rec = plan_record R p ?pl (rr_Frontend res)"
    by (simp add: c(5,6) Registry_Resolve_mget)
  show "\<exists>e. Lease_Get (dm_Lease d') (rr_RegistrationID res) = Some e \<and> le_Name e = rp_Name p \<and> le_Token e = rr_LeaseToken res \<and>
      le_TTL e = pl_ttl ?pl \<and> le_ExpiresAt e = re_lease_now R + le_TTL e \<and>
      rr_ExpiresAt res = Some (le_ExpiresAt e) \<and> rr_TTLSeconds res = le_TTL e div Second"
    using c(4) ttl by (auto simp: c(5,6) AddWithTTL_def Let_def Lease_Get_def)
qed

lemma heartbeatInterval_third:
  assumes "rh_ttl h = n * Second" "3 \<le> n"
  shows "Second \<le> heartbeatInterval h" "3 * heartbeatInterval h \<le> rh_ttl h"
proof -
  have "3 * (x div 3) \<le> x" for x :: int by presburger
  then show "Second \<le> heartbeatInterval h" "3 * heartbeatInterval h \<le> rh_ttl h"
    using assms by (simp_all add: heartbeatInterval_def go_div_def Let_def abs_if sgn_if)
qed

text \<open>The handle that a granted registration leaves.\<close>

lemma handle_register_granted:
  assumes "dm_inv G d" and "wire_ok (rh_baseReq h)" "rg_Source (rh_baseReq h) \<in> {SourceProcess, SourceManual}"
    and "rg_Kind (rh_baseReq h) = KindTCP" and "valid_utf8 (al_host (rm_alloc (dm_Runtime d)))"
    and "handle_register C (daemon_server A) h d = (d', h', None)"
  shows "\<exists>rec e. Registry_Resolve (dm_Registry d') (rg_Name (rh_baseReq h)) = Some rec \<and> sr_Status rec = StatusReady \<and>
      sr_Kind rec = KindTCP \<and> sr_Source rec = rg_Source (rh_baseReq h) \<and>
      sr_Backend rec = Some \<lparr>be_Host = bd_Host (rg_Backend (rh_baseReq h)), be_Port = bd_Port (rg_Backend (rh_baseReq h))\<rparr> \<and>
      sr_ProducerID rec = rh_regID h' \<and> Endpoint h' = Frontend_Addr (sr_Frontend rec) \<and>
      Lease_Get (dm_Lease d') (rh_regID h') = Some e \<and> le_Name e = rg_Name (rh_baseReq h) \<and> le_Token e = rh_token h' \<and>
      le_ExpiresAt e = re_lease_now (ae_reg A) + le_TTL e \<and> rh_ttl h' = le_TTL e div Second * Second \<and>
      Second \<le> heartbeatInterval h' \<and> 3 * heartbeatInterval h' \<le> le_TTL e \<and>
      (0 \<le> le_ExpiresAt e \<longrightarrow> fst (year_of (le_ExpiresAt e div Second div 86400)) \<le> 9999 \<longrightarrow>
         rh_expires h' = le_ExpiresAt e div Second * Second) \<and>
      plain_seg (rh_regID h') \<and> list_all is_alnum (rh_token h')"
proof -
  let ?b = "rh_baseReq h" let ?p = "register_params ?b (rg_Source ?b)" let ?R = "ae_reg A" let ?pl = "reg_plan ?R ?p d"
  obtain res x where R: "Register ?R ?p d = (d', Inr res)" and h': "h' = adopt C x h"
      and x: "dec_RegisterResponse (enc_RegisterResponse (register_response res)) = Some x"
    by (cases rule: handle_register_cases [OF assms(2) refl assms(3,6)]) (auto split: option.splits)
  have src: "rg_Source ?b = SourceProcess \<or> rg_Source ?b = SourceManual" using assms(3) by auto
  note pl = api_plan [OF src, of ?R ?b d]
  have nd: "pl_source ?pl \<noteq> SourceDocker" using src pl(1) by auto
  have k: "pl_kind ?pl = KindTCP" using assms(4) by (simp add: reg_plan_def register_params_def Let_def)
  have p: "rp_RegistrationID ?p = []" "rp_Name ?p = rg_Name ?b" "valid_utf8 (rp_Name ?p)"
    "rp_Backend ?p = \<lparr>be_Host = bd_Host (rg_Backend ?b), be_Port = bd_Port (rg_Backend ?b)\<rparr>"
    using assms(2) by (simp_all add: register_params_def wire_ok_def)
  note g = registered_response [OF assms(1) R nd k p(1,3) assms(5)]
  have xx: "x = register_response res" using dec_enc_RegisterResponse [OF g(1)] x by (simp split: if_splits)
  obtain e where e: "Lease_Get (dm_Lease d') (rr_RegistrationID res) = Some e" "le_Name e = rg_Name ?b"
      "le_Token e = rr_LeaseToken res" "le_TTL e = pl_ttl ?pl" "le_ExpiresAt e = re_lease_now ?R + le_TTL e"
      "rr_ExpiresAt res = Some (le_ExpiresAt e)" "rr_TTLSeconds res = le_TTL e div Second"
    using g(6) p(2) by auto
  have "reg_reject ?R ?p d = None" using R by (cases rule: Register_cases) auto
  from reg_reject_None(4) [OF this nd] have "3000000000 \<le> le_TTL e" "le_TTL e \<le> 3600000000000" using e(4) by simp_all
  then have t: "3 \<le> le_TTL e div Second" "le_TTL e div Second \<le> 3600"
    using zdiv_mono1 [of 3000000000 "le_TTL e" Second] zdiv_mono1 [of "le_TTL e" 3600000000000 Second] by simp_all
  have ttl: "rh_ttl h' = le_TTL e div Second * Second"
    using t by (simp add: h' adopt_def xx register_response_def e(7))
  have le: "le_TTL e div Second * Second \<le> le_TTL e"
    using minus_mod_eq_div_mult [of "le_TTL e" Second] pos_mod_sign [of Second "le_TTL e"] by linarith
  have ex: "rh_expires h' = le_ExpiresAt e div Second * Second"
    if "0 \<le> le_ExpiresAt e" "fst (year_of (le_ExpiresAt e div Second div 86400)) \<le> 9999"
  proof -
    have "time_Format (le_ExpiresAt e) \<noteq> []" by (simp add: time_Format_def Let_def split: prod.split)
    then show ?thesis using time_Parse_Format [OF that] by (simp add: h' adopt_def xx register_response_def e(6))
  qed
  have h: "rh_regID h' = rr_RegistrationID res" "rh_token h' = rr_LeaseToken res"
      "Endpoint h' = Frontend_Addr (rr_Frontend res)"
    using g(2) by (simp_all add: h' adopt_def xx register_response_def frontendDTO_def Endpoint_def frontendEndpoint_def Frontend_Addr_def)
  have seg: "plain_seg (rh_regID h')" using h(1) g(3) newID_alnum alnum_plain_seg by simp
  have rec: "Registry_Resolve (dm_Registry d') (rg_Name ?b) = Some (plan_record ?R ?p ?pl (rr_Frontend res))" using g(5) p(2) by simp
  have i: "Second \<le> heartbeatInterval h'" "3 * heartbeatInterval h' \<le> le_TTL e"
    using heartbeatInterval_third [OF ttl t(1)] ttl le by simp_all
  show ?thesis
    by (rule exI [of _ "plan_record ?R ?p ?pl (rr_Frontend res)"], rule exI [of _ e])
       (use rec pl g(3,4) h e k p(4) ttl i ex seg in simp)
qed

lemma fresh_handle_base [simp]: "rh_baseReq (fresh_handle C opts host port) = base_request opts host port"
  by (simp add: fresh_handle_def Let_def)

lemma Client_Register_granted:
  assumes "dm_inv G d" and "Client_Register C (daemon_server A) opts d = (d', Inr h)"
    and "op_Kind opts = [] \<or> op_Kind opts = KindTCP" and "valid_utf8 (al_host (rm_alloc (dm_Runtime d)))"
    and "SplitHostPort (op_Backend opts) = Some (host, portStr)" and "Atoi portStr = Some port"
    and "wire_ok (base_request opts host port)"
  shows "\<exists>rec e. Registry_Resolve (dm_Registry d') (op_Name opts) = Some rec \<and> sr_Status rec = StatusReady \<and>
      sr_Backend rec = Some \<lparr>be_Host = host, be_Port = port\<rparr> \<and> sr_ProducerID rec = rh_regID h \<and>
      Endpoint h = Frontend_Addr (sr_Frontend rec) \<and>
      Lease_Get (dm_Lease d') (rh_regID h) = Some e \<and> le_Name e = op_Name opts \<and> le_Token e = rh_token h \<and>
      le_ExpiresAt e = re_lease_now (ae_reg A) + le_TTL e \<and> rh_ttl h = le_TTL e div Second * Second \<and>
      Second \<le> heartbeatInterval h \<and> 3 * heartbeatInterval h \<le> le_TTL e \<and>
      (0 \<le> le_ExpiresAt e \<longrightarrow> fst (year_of (le_ExpiresAt e div Second div 86400)) \<le> 9999 \<longrightarrow>
         rh_expires h = le_ExpiresAt e div Second * Second) \<and>
      plain_seg (rh_regID h) \<and> list_all is_alnum (rh_token h)"
proof -
  let ?h0 = "fresh_handle C opts host port"
  have r: "handle_register C (daemon_server A) ?h0 d = (d', h, None)"
    using assms(2,5,6) by (auto simp: Client_Register_def split: if_splits prod.splits option.splits)
  have base: "wire_ok (rh_baseReq ?h0)" "rg_Source (rh_baseReq ?h0) \<in> {SourceProcess, SourceManual}"
      "rg_Kind (rh_baseReq ?h0) = KindTCP"
    using assms(3,7) by (auto simp: base_request_def)
  have f: "rg_Name (base_request opts host port) = op_Name opts" "rg_Backend (base_request opts host port) = \<lparr>bd_Host = host, bd_Port = port\<rparr>"
    by (simp_all add: base_request_def)
  from handle_register_granted [OF assms(1) base assms(4) r, unfolded fresh_handle_base f BackendDTO.simps] show ?thesis by blast
qed

text \<open>A registration of the sample service.\<close>

lemma sample_split: "SplitHostPort (op_Backend sample_opts) = Some (''127.0.0.1'', ''5432'')" "Atoi ''5432'' = Some 5432"
  by (simp add: sample_opts_def) code_simp+

lemma sample_wire: "wire_ok (base_request sample_opts ''127.0.0.1'' 5432)"
  by (simp add: wire_ok_def base_request_def sample_opts_def valid_utf8_ascii)

lemma sample_host: "valid_utf8 (al_host (rm_alloc (dm_Runtime sample_daemon)))"
  by (simp add: sample_daemon_def NewRuntimeManager_def NewAllocator_def valid_utf8_ascii)

lemma sample_handle_register:
  assumes b: "rh_baseReq h0 = base_request sample_opts ''127.0.0.1'' 5432"
  shows "\<exists>h. handle_register sample_client (daemon_server (sample_api_at 5)) h0 sample_daemon = (sample_registered 5 3, h, None)"
proof -
  let ?R = "sample_reg 5 1" and ?p = "tcp_params ''db'' 16000 3"
  have p: "register_params (rh_baseReq h0) ''process'' = ?p"
    by (simp add: b base_request_def sample_opts_def register_params_def tcp_params_def sample_backend_def)
  have src: "rg_Source (rh_baseReq h0) = ''process''" by (simp add: b base_request_def sample_opts_def)
  obtain d' res rec where R: "Register ?R ?p sample_daemon = (d', Inr res)"
      and sv: "services (dm_Registry d') = mput ''db'' rec (services (dm_Registry sample_daemon))" and port: "fe_Port (sr_Frontend rec) = 16000"
    using sample_Register [OF db_valid _ _ sample_fresh(1-3) _ sample_can_bind, of 3 5 1] by auto
  have inv: "dm_inv sample_go sample_daemon" using daemon.reach_inv [OF sample_daemon_reach] by simp
  have pl: "pl_source (reg_plan ?R ?p sample_daemon) \<noteq> SourceDocker" "pl_kind (reg_plan ?R ?p sample_daemon) = KindTCP"
      "rp_RegistrationID ?p = []" "valid_utf8 (rp_Name ?p)"
    by (simp_all add: reg_plan_def tcp_params_def Let_def valid_utf8_ascii)
  note g = registered_response [OF inv R pl sample_host]
  have "fe_Port (rr_Frontend res) = 16000"
    using g(5) sv port by (auto simp: Registry_Resolve_mget tcp_params_def)
  then have dec: "dec_RegisterResponse (enc_RegisterResponse (register_response res)) = Some (register_response res)"
    using dec_enc_RegisterResponse [OF g(1)] by (simp add: register_response_def frontendDTO_def)
  obtain d2 h r where reg: "handle_register sample_client (daemon_server (sample_api_at 5)) h0 sample_daemon = (d2, h, r)"
    by (meson prod_cases3)
  have w: "wire_ok (rh_baseReq h0)" "''process'' \<in> {SourceProcess, SourceManual}" using sample_wire b by simp_all
  have "r = None \<and> d2 = sample_registered 5 3"
    by (cases rule: handle_register_cases [OF w(1) src w(2) reg])
       (use R dec p in \<open>auto simp: sample_api_at_def sample_registered_def split: option.splits\<close>)
  then show ?thesis using reg by simp
qed

lemma sample_client_Register:
  "\<exists>h. Client_Register sample_client (daemon_server (sample_api_at 5)) sample_opts sample_daemon = (sample_registered 5 3, Inr h)"
proof -
  have "op_Name sample_opts \<noteq> []" "op_Backend sample_opts \<noteq> []" by (simp_all add: sample_opts_def)
  then show ?thesis
    using sample_handle_register [of "fresh_handle sample_client sample_opts ''127.0.0.1'' 5432"]
    by (auto simp: Client_Register_def sample_split)
qed

text \<open>C30: Registering through the library publishes the service. When \<open>Register\<close> against a
  daemon returns a handle for a TCP service, the daemon has a ready record of that name with
  the backend that was given, the handle holds the identity and the token of its lease, and
  its endpoint is the address of the frontend; and the heartbeat interval derived from the
  announced TTL is at least a second and at most a third of the lease.\<close>

theorem client_publishes:
  assumes "reach sys_init (sys_step G) (d, P)" and "Client_Register C (daemon_server A) opts d = (d', Inr h)"
    and "op_Kind opts = [] \<or> op_Kind opts = KindTCP" and "valid_utf8 (al_host (rm_alloc (dm_Runtime d)))"
    and "SplitHostPort (op_Backend opts) = Some (host, portStr)" and "Atoi portStr = Some port"
    and "wire_ok (base_request opts host port)"
  shows "\<exists>rec e. Registry_Resolve (dm_Registry d') (op_Name opts) = Some rec \<and> sr_Status rec = StatusReady \<and>
      sr_Backend rec = Some \<lparr>be_Host = host, be_Port = port\<rparr> \<and> sr_ProducerID rec = rh_regID h \<and>
      Endpoint h = Frontend_Addr (sr_Frontend rec) \<and>
      Lease_Get (dm_Lease d') (rh_regID h) = Some e \<and> le_Name e = op_Name opts \<and> le_Token e = rh_token h \<and>
      le_ExpiresAt e = re_lease_now (ae_reg A) + le_TTL e \<and> rh_ttl h = le_TTL e div Second * Second \<and>
      Second \<le> heartbeatInterval h \<and> 3 * heartbeatInterval h \<le> le_TTL e \<and>
      (0 \<le> le_ExpiresAt e \<longrightarrow> fst (year_of (le_ExpiresAt e div Second div 86400)) \<le> 9999 \<longrightarrow>
         ri_ExpiresAt (Info h) = le_ExpiresAt e div Second * Second)"
proof -
  have "dm_inv G d" using daemon.reach_inv [OF assms(1)] by simp
  from Client_Register_granted [OF this assms(2-7)] show ?thesis by (simp add: Info_def) blast
qed

theorem client_publishes_witness:
  "\<exists>h e. Client_Register sample_client (daemon_server (sample_api_at 5)) sample_opts sample_daemon = (sample_registered 5 3, Inr h) \<and>
     Lease_Get (dm_Lease (sample_registered 5 3)) (rh_regID h) = Some e \<and> le_Token e = rh_token h \<and>
     3 * heartbeatInterval h \<le> le_TTL e"
proof -
  obtain h where h: "Client_Register sample_client (daemon_server (sample_api_at 5)) sample_opts sample_daemon = (sample_registered 5 3, Inr h)"
    using sample_client_Register by blast
  have k: "op_Kind sample_opts = [] \<or> op_Kind sample_opts = KindTCP" by (simp add: sample_opts_def)
  from client_publishes [OF sample_daemon_reach h k sample_host sample_split sample_wire] h show ?thesis by blast
qed

end
