(* ===== verification/Client_Heartbeats.thy ===== *)
theory Client_Heartbeats
  imports Client
begin

text \<open>
  The client library's heartbeat loop and \<open>Close\<close> (\<open>pkg/devmesh/client.go\<close>, defined in theory
  \<open>Client\<close>) against a server. Interface \<open>lease_server\<close> states what the loop relies on: a
  heartbeat in time is answered, an unknown identity is answered 404, a deletion deletes. The
  daemon's API provides it, and the properties of the loop with the daemon follow.
\<close>

section \<open>Definitions\<close>

text \<open>
  What the loop needs to know of the server: the token, the duration and the expiry of the
  lease of an identity.
\<close>

type_synonym lease_view = "string \<times> duration \<times> gotime"

definition daemon_lease :: "Daemon \<Rightarrow> string \<Rightarrow> lease_view option" where
  "daemon_lease d rid = map_option (\<lambda>e. (le_Token e, le_TTL e, le_ExpiresAt e)) (Lease_Get (dm_Lease d) rid)"

text \<open>
  A run in which every heartbeat reaches the server before the lease expires, and in which
  nobody else touches the lease. Each turn comes with the server's environment; \<open>clock\<close>
  reads its time.
\<close>

fun punctual ::
  "('e \<Rightarrow> 'w server) \<Rightarrow> ('e \<Rightarrow> gotime) \<Rightarrow> ('w \<Rightarrow> string \<Rightarrow> lease_view option) \<Rightarrow> client_env
     \<Rightarrow> ('e \<times> 'w turn) list \<Rightarrow> registrationHandle \<Rightarrow> duration \<Rightarrow> 'w \<Rightarrow> bool" where
  "punctual serve clock lease C [] h backoff w = True"
| "punctual serve clock lease C ((e, t) # ts) h backoff w =
     (let w0 = tn_meanwhile t w in
      \<not> tn_canceled t \<and> tn_beat t = serve e \<and> lease w0 (rh_regID h) = lease w (rh_regID h) \<and>
      (case lease w (rh_regID h) of None \<Rightarrow> False | Some (_, _, expires) \<Rightarrow> clock e < expires) \<and>
      (case heartbeat_turn C t h backoff w0 of
         (w1, h1, b1, _) \<Rightarrow> punctual serve clock lease C ts h1 b1 w1))"

text \<open>Nobody answers.\<close>

definition down :: "'w server" where
  "down q w = (w, NoAnswer)"

text \<open>Rounding to a \<open>float64\<close> has a relative error of at most one in \<open>2 ^ 52\<close>.\<close>

definition float_rounding :: "(rat \<Rightarrow> rat) \<Rightarrow> bool" where
  "float_rounding rnd \<longleftrightarrow> (\<forall>x. \<bar>rnd x - x\<bar> \<le> \<bar>x\<bar> / 2 ^ 52)"

section \<open>Lemmas\<close>

subsection \<open>Heartbeats\<close>

text \<open>
  The interface of the heartbeat loop: a heartbeat in time is answered and renews the lease,
  one for an unknown identity is answered with 404, and a deletion removes the lease.
\<close>

locale lease_server =
  fixes serve :: "'e \<Rightarrow> 'w server"
    and clock :: "'e \<Rightarrow> gotime"
    and lease :: "'w \<Rightarrow> string \<Rightarrow> lease_view option"
  assumes beat_in_time:
      "lease w rid = Some (token, ttl, expires) \<Longrightarrow> plain_seg rid \<Longrightarrow> list_all is_alnum token \<Longrightarrow> clock e < expires \<Longrightarrow>
       \<exists>w' s. DoAuth (serve e) ''POST'' (heartbeat_path rid) token None (Some dec_HeartbeatResponse) [] w = (w', Inr s) \<and>
         lease w' rid = Some (token, ttl, clock e + ttl)"
    and beat_unknown:
      "lease w rid = None \<Longrightarrow> plain_seg rid \<Longrightarrow> list_all is_alnum token \<Longrightarrow>
       \<exists>c m. DoAuth (serve e) ''POST'' (heartbeat_path rid) token None (Some dec_HeartbeatResponse) [] w = (w, Inl (ApiError 404 c m))"
    and delete_held:
      "lease w rid = Some (token, ttl, expires) \<Longrightarrow> plain_seg rid \<Longrightarrow> list_all is_alnum token \<Longrightarrow>
       lease (fst (DoAuth (serve e) ''DELETE'' (''/v1/registrations/'' @ rid) token None None () w)) rid = None"
begin

lemma turn_in_time:
  assumes "lease w (rh_regID h) = Some (rh_token h, ttl, expires)" "plain_seg (rh_regID h)" "list_all is_alnum (rh_token h)"
    "tn_beat t = serve e" "clock e < expires"
  shows "\<exists>w' x. heartbeat_turn C t h backoff w = (w', h\<lparr>rh_expires := x\<rparr>, firstBackoff, heartbeatInterval h) \<and>
    lease w' (rh_regID h) = Some (rh_token h, ttl, clock e + ttl)"
proof -
  obtain w' s where b: "DoAuth (serve e) ''POST'' (heartbeat_path (rh_regID h)) (rh_token h) None (Some dec_HeartbeatResponse) [] w = (w', Inr s)"
      and l: "lease w' (rh_regID h) = Some (rh_token h, ttl, clock e + ttl)"
    using beat_in_time [OF assms(1-3,5)] by blast
  define x where "x = (case time_Parse (ce_parse C) s of Some x \<Rightarrow> x | None \<Rightarrow> rh_expires h)"
  have "(case time_Parse (ce_parse C) s of Some x \<Rightarrow> h\<lparr>rh_expires := x\<rparr> | None \<Rightarrow> h) = h\<lparr>rh_expires := x\<rparr>"
    by (simp add: x_def split: option.split)
  then have "heartbeat_turn C t h backoff w = (w', h\<lparr>rh_expires := x\<rparr>, firstBackoff, heartbeatInterval h)"
    using b assms(4) by (simp add: heartbeat_turn_def heartbeatInterval_def Let_def)
  with l show ?thesis by blast
qed

lemma punctual_keeps:
  assumes "lease w (rh_regID h) = Some (rh_token h, ttl, expires)" "plain_seg (rh_regID h)" "list_all is_alnum (rh_token h)"
    "punctual serve clock lease C ts h backoff w" "heartbeatLoop C (map snd ts) h backoff w = (w', h', waits)"
  shows "\<exists>x expires'. h' = h\<lparr>rh_expires := x\<rparr> \<and> lease w' (rh_regID h) = Some (rh_token h, ttl, expires') \<and>
    waits = replicate (length ts) (heartbeatInterval h)"
  using assms
proof (induction ts arbitrary: w h expires backoff waits)
  case Nil
  then show ?case by (intro exI [of _ "rh_expires h"] exI [of _ expires]) simp
next
  case (Cons et ts)
  obtain e t where et: "et = (e, t)" by fastforce
  let ?w0 = "tn_meanwhile t w"
  have p: "\<not> tn_canceled t" "tn_beat t = serve e" "lease ?w0 (rh_regID h) = Some (rh_token h, ttl, expires)" "clock e < expires"
    using Cons.prems(1,4) by (simp_all add: et Let_def)
  obtain w1 x where turn: "heartbeat_turn C t h backoff ?w0 = (w1, h\<lparr>rh_expires := x\<rparr>, firstBackoff, heartbeatInterval h)"
      and l: "lease w1 (rh_regID h) = Some (rh_token h, ttl, clock e + ttl)"
    using turn_in_time [OF p(3) Cons.prems(2,3) p(2,4)] by blast
  obtain ws where ws: "heartbeatLoop C (map snd ts) (h\<lparr>rh_expires := x\<rparr>) firstBackoff w1 = (w', h', ws)" "waits = heartbeatInterval h # ws"
    using Cons.prems(5) p(1) turn by (auto simp: et split: prod.splits)
  have "punctual serve clock lease C ts (h\<lparr>rh_expires := x\<rparr>) firstBackoff w1"
    using Cons.prems(4) turn by (simp add: et Let_def)
  from Cons.IH [of w1 "h\<lparr>rh_expires := x\<rparr>", OF _ _ _ this ws(1)] l Cons.prems(2,3)
  obtain y expires' where "h' = h\<lparr>rh_expires := y\<rparr>" "lease w' (rh_regID h) = Some (rh_token h, ttl, expires')"
      "ws = replicate (length ts) (heartbeatInterval (h\<lparr>rh_expires := x\<rparr>))" by auto
  then show ?case using ws(2) by (auto simp: heartbeatInterval_def)
qed

lemma turn_lost:
  assumes "lease w (rh_regID h) = None" "plain_seg (rh_regID h)" "list_all is_alnum (rh_token h)" "tn_beat t = serve e"
  shows "heartbeat_turn C t h backoff w =
    (case handle_register C (tn_again t) h w of
       (w', h', None) \<Rightarrow> (w', h', firstBackoff, heartbeatInterval h')
     | (w', h', Some _) \<Rightarrow>
         (w', h', (if 2 * backoff > 5 * Second then 5 * Second else 2 * backoff), jitter (ce_round C) (tn_rand t) backoff))"
proof -
  obtain c m where "DoAuth (serve e) ''POST'' (heartbeat_path (rh_regID h)) (rh_token h) None (Some dec_HeartbeatResponse) [] w =
      (w, Inl (ApiError 404 c m))" using beat_unknown [OF assms(1-3)] by blast
  then show ?thesis using assms(4)
    by (simp add: heartbeat_turn_def asTransportError_def split: prod.split option.split)
qed

lemma close_deletes:
  assumes "\<not> rh_closed h" "settle (w, h\<lparr>rh_closed := True\<rparr>) = (w1, h1)"
    "lease w1 (rh_regID h1) = Some (rh_token h1, ttl, expires)" "plain_seg (rh_regID h1)" "list_all is_alnum (rh_token h1)"
    "rh_token h1 \<noteq> []" "handle_Close (serve e) settle h w = (w', h')"
  shows "h' = h1 \<and> lease w' (rh_regID h1) = None"
proof -
  have "rh_regID h1 \<noteq> []" using assms(4) by (simp add: plain_seg_def)
  then show ?thesis using assms delete_held [OF assms(3-5)] by (auto simp: handle_Close_def)
qed

end

lemma heartbeat_path_of: "heartbeat_path rid = path_of [''v1'', ''registrations'', rid, ''heartbeat'']"
  by (simp add: heartbeat_path_def)

lemma api_segs: "plain_seg ''v1''" "plain_seg ''registrations''" "plain_seg ''heartbeat''" "plain_seg ''services''"
  "plain_seg ''inspect''" "plain_seg ''health''"
  by (simp_all add: plain_seg_def plain_char_def is_alnum_def)

lemma Renew_answers:
  assumes "plain_seg rid" "list_all is_alnum token"
  shows "DoAuth (daemon_server A) ''POST'' (heartbeat_path rid) token None (Some dec_HeartbeatResponse) [] d =
    (case Heartbeat (ae_now A) rid token d of
       (d', Inl c) \<Rightarrow> (d', Inl (decodeError (hr_Status (writeError (ae_message A) c)) (hr_Body (writeError (ae_message A) c))))
     | (d', Inr expires) \<Rightarrow> (d', Inr (time_Format expires)))"
proof -
  let ?ss = "[''v1'', ''registrations'', rid, ''heartbeat'']"
  have p: "list_all plain_seg ?ss" using assms(1) by (simp add: api_segs)
  have "rid \<noteq> ''/''" using plain_seg_no_slash [OF assms(1)] by auto
  then have r: "first_route routes ''POST'' ?ss = Matched HHeartbeat [rid]" by (simp add: routes_def method_ok_def)
  have js: "js (time_Format x) = JStr (time_Format x)" for x by (rule js_valid [OF time_Format_utf8])
  have st: "300 \<le> hr_Status (writeError (ae_message A) c)" for c using writeError_status [of "ae_message A" c] by simp
  show ?thesis
    unfolding DoAuth_def heartbeat_path_of
    using Client_do_over [OF p _ r, of A token None "Some dec_HeartbeatResponse" "[]" d] st
    by (auto simp: handleHeartbeat_def bearer_alnum [OF assms(2)] writeJSON_def dec_HeartbeatResponse_def enc_HeartbeatResponse_def
        dec_struct_def js split: prod.splits sum.splits)
qed

lemma Delete_answers:
  assumes "plain_seg rid" "list_all is_alnum token"
  shows "fst (DoAuth (daemon_server A) ''DELETE'' (''/v1/registrations/'' @ rid) token None None () d) =
    fst (DeleteRegistration (ae_now A) rid token d)"
proof -
  let ?ss = "[''v1'', ''registrations'', rid]"
  have p: "list_all plain_seg ?ss" using assms(1) by (simp add: api_segs)
  have "rid \<noteq> ''/''" using plain_seg_no_slash [OF assms(1)] by auto
  then have r: "first_route routes ''DELETE'' ?ss = Matched HDelete [rid]" by (simp add: routes_def method_ok_def)
  have path: "''/v1/registrations/'' @ rid = path_of ?ss" by simp
  show ?thesis
    unfolding DoAuth_def path
    using Client_do_over [OF p _ r, of A token None None "()" d]
    by (simp add: handleDelete_def bearer_alnum [OF assms(2)] split: prod.split option.split)
qed

lemma decode_404: "\<exists>c m. decodeError (hr_Status (writeError msg CodeRegistrationNotFound)) b = ApiError 404 c m"
  using decodeError_status [of 404 b] by (simp add: writeError_def writeJSON_def Let_def mget0_def statusForCode_def)

interpretation daemon_api: lease_server daemon_server ae_now daemon_lease
proof
  fix d :: Daemon and rid token ttl expires and A :: api_env
  assume l: "daemon_lease d rid = Some (token, ttl, expires)" and ok: "plain_seg rid" "list_all is_alnum token"
  then obtain e where e: "Lease_Get (dm_Lease d) rid = Some e" "le_Token e = token" "le_TTL e = ttl" "le_ExpiresAt e = expires"
    by (auto simp: daemon_lease_def)
  show "\<exists>w' s. DoAuth (daemon_server A) ''POST'' (heartbeat_path rid) token None (Some dec_HeartbeatResponse) [] d = (w', Inr s) \<and>
      daemon_lease w' rid = Some (token, ttl, ae_now A + ttl)" if "ae_now A < expires"
  proof -
    have "lease_live (ae_now A) e" using that e(4) by (simp add: lease_live_def)
    from Renew_ok [OF e(1) this] e show ?thesis
      by (auto simp: Renew_answers [OF ok] Heartbeat_def daemon_lease_def Lease_Get_def)
  qed
  show "daemon_lease (fst (DoAuth (daemon_server A) ''DELETE'' (''/v1/registrations/'' @ rid) token None None () d)) rid = None"
    unfolding Delete_answers [OF ok] using e by (simp add: DeleteRegistration_def Lease_Delete_cases daemon_lease_def Lease_Get_Remove)
next
  fix d :: Daemon and rid token and A :: api_env
  assume l: "daemon_lease d rid = None" and ok: "plain_seg rid" "list_all is_alnum token"
  then have "Heartbeat (ae_now A) rid token d = (d, Inl CodeRegistrationNotFound)"
    by (simp add: daemon_lease_def Heartbeat_def Renew_not_found Lease_Get_def)
  then show "\<exists>c m. DoAuth (daemon_server A) ''POST'' (heartbeat_path rid) token None (Some dec_HeartbeatResponse) [] d =
      (d, Inl (ApiError 404 c m))"
    using decode_404 by (simp add: Renew_answers [OF ok])
qed



subsection \<open>Recovery\<close>



subsection \<open>Backoff\<close>

lemma rounding_pos:
  assumes "float_rounding rnd" "0 \<le> x" "x \<le> m"
  shows "x - m * (1 / 1000000000000000) \<le> rnd x" "rnd x \<le> x + m * (1 / 1000000000000000)" "0 \<le> rnd x"
proof -
  have e: "\<bar>rnd x - x\<bar> \<le> x / 2 ^ 52" using assms(1) [unfolded float_rounding_def, rule_format, of x] assms(2) by simp
  moreover have "x / 2 ^ 52 \<le> m * (1 / 1000000000000000)" using assms(2,3) by simp
  ultimately show "x - m * (1 / 1000000000000000) \<le> rnd x" "rnd x \<le> x + m * (1 / 1000000000000000)" by linarith+
  have "x / 2 ^ 52 \<le> x" using assms(2) by simp
  then show "0 \<le> rnd x" using e by linarith
qed

lemma jitter_bounds:
  assumes r: "float_rounding rnd" and u: "0 \<le> u" "u \<le> 1" and d: "0 \<le> d" "d \<le> 5 * Second"
  shows "4 * d - 10 \<le> 5 * jitter rnd u d" "5 * jitter rnd u d \<le> 6 * d + 5"
proof -
  define a where "a = rnd (4 / 5)"
  define b where "b = rnd (2 / 5)"
  define c where "c = rnd (b * u)"
  define f where "f = rnd (a + c)"
  define q where "q = (of_int d :: rat)"
  define D where "D = rnd q"
  define x where "x = rnd (D * f)"
  have "(of_int 0 :: rat) \<le> q" "q \<le> of_int (5 * Second)" unfolding q_def using d by (simp_all only: of_int_le_iff)
  then have q: "0 \<le> q" "q \<le> 5000000000" by simp_all
  have A: "4 / 5 - 1 / 1000000000000000 \<le> a" "a \<le> 4 / 5 + 1 / 1000000000000000"
    using rounding_pos [OF r, of "4 / 5" 1] unfolding a_def by simp_all
  have B: "0 \<le> b" "b \<le> 2 / 5 + 1 / 1000000000000000" using rounding_pos [OF r, of "2 / 5" 1] unfolding b_def by simp_all
  have bu: "0 \<le> b * u" "b * u \<le> b" using B(1) u by (simp_all add: mult_left_le)
  then have "b * u \<le> 1" using B(2) by linarith
  then have C: "0 \<le> c" "c \<le> 2 / 5 + 2 / 1000000000000000"
    using rounding_pos [OF r bu(1), of 1] bu(2) B(2) unfolding c_def by linarith+
  have "0 \<le> a + c" "a + c \<le> 2" using A C by linarith+
  note F = rounding_pos [OF r this, folded f_def]
  have f: "799999999999997 / 1000000000000000 \<le> f" "f \<le> 1200000000000005 / 1000000000000000" using F A C by linarith+
  note D = rounding_pos [OF r q, folded D_def]
  have "D * (799999999999997 / 1000000000000000) \<le> D * f" using f(1) D(3) by (rule mult_left_mono)
  moreover have "D * f \<le> D * (1200000000000005 / 1000000000000000)" using f(2) D(3) by (rule mult_left_mono)
  ultimately have Df: "4 / 5 * q - 1 / 100 \<le> D * f" "D * f \<le> 6 / 5 * q + 1 / 100" using D q by linarith+
  have "0 \<le> D * f" using D(3) F(3) by simp
  moreover have "D * f \<le> 7000000000" using Df(2) q(2) by linarith
  ultimately have X: "D * f - 1 / 100 \<le> x" "x \<le> D * f + 1 / 100" "0 \<le> x"
    using rounding_pos [OF r, of "D * f" 7000000000] unfolding x_def by linarith+
  have j: "jitter rnd u d = \<lfloor>x\<rfloor>"
    using X(3) by (simp add: jitter_def Let_def a_def b_def c_def f_def D_def x_def q_def)
  have "of_int \<lfloor>x\<rfloor> \<le> x" "x < of_int \<lfloor>x\<rfloor> + 1" by linarith+
  then have "4 * q - 10 \<le> 5 * of_int \<lfloor>x\<rfloor>" "5 * of_int \<lfloor>x\<rfloor> \<le> 6 * q + 5" using X Df by linarith+
  then have "(of_int (4 * d - 10) :: rat) \<le> of_int (5 * \<lfloor>x\<rfloor>)" "(of_int (5 * \<lfloor>x\<rfloor>) :: rat) \<le> of_int (6 * d + 5)"
    by (simp_all add: q_def)
  then show "4 * d - 10 \<le> 5 * jitter rnd u d" "5 * jitter rnd u d \<le> 6 * d + 5" unfolding j by (simp_all only: of_int_le_iff)
qed

lemma outage_turn:
  assumes "tn_beat t = down"
  shows "heartbeat_turn C t h backoff w =
    (w, h, (if 2 * backoff > 5 * Second then 5 * Second else 2 * backoff), jitter (ce_round C) (tn_rand t) backoff)"
  using assms by (auto simp: heartbeat_turn_def DoAuth_def Client_do_def down_def asTransportError_def split: option.split)

lemma outage_loop:
  assumes "float_rounding (ce_round C)" "\<forall>t \<in> set ts. tn_beat t = down \<and> \<not> tn_canceled t \<and> 0 \<le> tn_rand t \<and> tn_rand t \<le> 1"
    "heartbeatLoop C ts h (min (firstBackoff * 2 ^ m) (5 * Second)) w = (w', h', waits)"
  shows "h' = h \<and> length waits = length ts \<and>
    (\<forall>k < length ts. let b = min (firstBackoff * 2 ^ (m + k)) (5 * Second) in 4 * b - 10 \<le> 5 * waits ! k \<and> 5 * waits ! k \<le> 6 * b + 5)"
  using assms(2,3)
proof (induction ts arbitrary: m w waits)
  case (Cons t ts)
  let ?b = "min (firstBackoff * 2 ^ m) (5 * Second)"
  have t: "tn_beat t = down" "\<not> tn_canceled t" "0 \<le> tn_rand t" "tn_rand t \<le> 1" using Cons.prems(1) by simp_all
  have nxt: "(if 2 * ?b > 5 * Second then 5 * Second else 2 * ?b) = min (firstBackoff * 2 ^ Suc m) (5 * Second)" by auto
  obtain ws where ws: "heartbeatLoop C ts h (min (firstBackoff * 2 ^ Suc m) (5 * Second)) (tn_meanwhile t w) = (w', h', ws)"
      "waits = jitter (ce_round C) (tn_rand t) ?b # ws"
    using Cons.prems(2) t(2) unfolding heartbeatLoop.simps outage_turn [OF t(1)] nxt by (auto split: prod.splits)
  have IH: "h' = h" "length ws = length ts"
      "\<And>k. k < length ts \<Longrightarrow> let b = min (firstBackoff * 2 ^ (Suc m + k)) (5 * Second) in 4 * b - 10 \<le> 5 * ws ! k \<and> 5 * ws ! k \<le> 6 * b + 5"
    using Cons.IH [OF _ ws(1)] Cons.prems(1) by auto
  have b: "0 \<le> ?b" "?b \<le> 5 * Second" by simp_all
  show ?case
    using IH jitter_bounds [OF assms(1) t(3,4) b] ws(2) by (auto simp: less_Suc_eq_0_disj Let_def)
qed simp

text \<open>C33: Retrying during an outage. While the daemon does not answer, the handle stays as it is, and
  the waits between the attempts follow the schedule of 100 ms, doubled each time up to five
  seconds, each spread by at most 20 % (up to two nanoseconds of rounding): the first retry
  comes within about 120 ms, and a daemon that is back is noticed within about six seconds.\<close>

theorem outage_retry_schedule:
  assumes "float_rounding (ce_round C)"
    and "\<forall>t \<in> set ts. tn_beat t = down \<and> \<not> tn_canceled t \<and> 0 \<le> tn_rand t \<and> tn_rand t \<le> 1"
    and "heartbeatLoop C ts h firstBackoff w = (w', h', waits)"
  shows "h' = h \<and> length waits = length ts \<and>
    (\<forall>k < length ts. let b = min (firstBackoff * 2 ^ k) (5 * Second) in 4 * b - 10 \<le> 5 * waits ! k \<and> 5 * waits ! k \<le> 6 * b + 5)"
proof -
  have "heartbeatLoop C ts h (min (firstBackoff * 2 ^ 0) (5 * Second)) w = (w', h', waits)" using assms(3) by simp
  from outage_loop [OF assms(1,2) this] show ?thesis by simp
qed

theorem outage_retry_schedule_witness:
  "\<exists>waits. heartbeatLoop sample_client
      [\<lparr>tn_canceled = False, tn_meanwhile = (\<lambda>_. ()), tn_beat = down, tn_again = down, tn_rand = 1 / 2\<rparr>]
      (fresh_handle sample_client sample_opts ''127.0.0.1'' 5432) firstBackoff () =
      ((), fresh_handle sample_client sample_opts ''127.0.0.1'' 5432, waits) \<and>
    length waits = 1 \<and> 5 * waits ! 0 \<le> 6 * firstBackoff + 5"
proof -
  let ?ts = "[\<lparr>tn_canceled = False, tn_meanwhile = (\<lambda>_. ()), tn_beat = down, tn_again = down, tn_rand = 1 / 2\<rparr>]"
  let ?h = "fresh_handle sample_client sample_opts ''127.0.0.1'' 5432"
  have r: "float_rounding (ce_round sample_client)" by (simp add: float_rounding_def sample_client_def)
  have t: "\<forall>t \<in> set ?ts. tn_beat t = down \<and> \<not> tn_canceled t \<and> 0 \<le> tn_rand t \<and> tn_rand t \<le> 1" by simp
  obtain w h' waits where l: "heartbeatLoop sample_client ?ts ?h firstBackoff () = (w, h', waits)" by (meson prod_cases3)
  from outage_retry_schedule [OF r t l] have "h' = ?h" "length waits = 1" "5 * waits ! 0 \<le> 6 * firstBackoff + 5"
    by (simp_all add: Let_def)
  then show ?thesis using l by (intro exI [of _ waits]) simp
qed

subsection \<open>Closing\<close>

text \<open>C34: Closing unregisters the latest identity. Whatever the heartbeat loop still did after it
  was told to stop (it may have registered anew), \<open>Close\<close> deletes the identity the handle has
  then: the daemon holds its lease no longer, and the service it published is unavailable and
  has no backend. Closing again does nothing, whatever the server.\<close>

theorem close_ends_publication:
  assumes "\<not> rh_closed h" and "settle (d, h\<lparr>rh_closed := True\<rparr>) = (d1, h1)" and "reach sys_init (sys_step G) (d1, P)"
    and "plain_seg (rh_regID h1)" and "list_all is_alnum (rh_token h1)" and "rh_token h1 \<noteq> []"
    and "Lease_Get (dm_Lease d1) (rh_regID h1) = Some e" and "le_Token e = rh_token h1"
    and "handle_Close (daemon_server A) settle h d = (d2, h2)"
  shows "h2 = h1 \<and> Lease_Get (dm_Lease d2) (rh_regID h1) = None \<and>
    (\<forall>rec. Registry_Resolve (dm_Registry d1) (le_Name e) = Some rec \<longrightarrow> sr_ProducerID rec = rh_regID h1 \<longrightarrow>
       Registry_Resolve (dm_Registry d2) (le_Name e) =
         Some (rec\<lparr>sr_Backend := None, sr_Status := StatusUnavailable, sr_UpdatedAt := ae_now A\<rparr>)) \<and>
    (rh_closed h2 \<longrightarrow> handle_Close srv settle' h2 w = (w, h2))"
proof -
  have l: "daemon_lease d1 (rh_regID h1) = Some (rh_token h1, le_TTL e, le_ExpiresAt e)" using assms(7,8) by (simp add: daemon_lease_def)
  note c = daemon_api.close_deletes [OF assms(1,2) l assms(4-6,9)]
  have wf: "lease_wf (dm_Lease d1)" using daemon.reach_inv [OF assms(3)] by (simp add: dm_inv_def)
  have k: "le_RegistrationID e = rh_regID h1" using lease_wf_mget [OF wf] assms(7) by (simp add: Lease_Get_def entry_ok_def)
  have "rh_regID h1 \<noteq> []" using assms(4) by (simp add: plain_seg_def)
  then have "d2 = fst (DeleteRegistration (ae_now A) (rh_regID h1) (rh_token h1) d1)"
    using assms(1,2,6,9) unfolding handle_Close_def Delete_answers [OF assms(4,5), symmetric] by auto
  then have "d2 = fst (endPublication (ae_now A) (le_Name e) (rh_regID h1) (d1\<lparr>dm_Lease := Lease_Remove (dm_Lease d1) (rh_regID h1)\<rparr>))"
    using assms(7,8) k by (simp add: DeleteRegistration_def Lease_Delete_cases)
  then show ?thesis using c by (auto simp: daemon_lease_def Registry_Resolve_mget ClearBackendIf_mget handle_Close_def)
qed

theorem close_ends_publication_witness:
  "\<exists>h d2. \<not> rh_closed h \<and> handle_Close (daemon_server (sample_api_at 7)) (\<lambda>s. s) h (sample_registered 5 3) = (d2, h\<lparr>rh_closed := True\<rparr>) \<and>
     Lease_Get (dm_Lease (sample_registered 5 3)) (rh_regID h) \<noteq> None \<and> Lease_Get (dm_Lease d2) (rh_regID h) = None \<and>
     handle_Close down (\<lambda>s. s) (h\<lparr>rh_closed := True\<rparr>) () = ((), h\<lparr>rh_closed := True\<rparr>)"
proof -
  let ?d = "sample_registered 5 3"
  define h where "h = (fresh_handle sample_client sample_opts ''127.0.0.1'' 5432)\<lparr>rh_regID := newID 1 [], rh_token := hex_EncodeToString ''k''\<rparr>"
  obtain e where e: "Lease_Get (dm_Lease ?d) (newID 1 []) = Some e" "le_Token e = hex_EncodeToString ''k''"
    using sample_registered(2) [of 3 5] by (auto simp: Lease_Get_def AddWithTTL_def Let_def)
  obtain d2 h2 where c: "handle_Close (daemon_server (sample_api_at 7)) (\<lambda>s. s) h ?d = (d2, h2)" by fastforce
  have o: "\<not> rh_closed h" by (simp add: h_def fresh_handle_def Let_def)
  have ne: "hex_EncodeToString ''k'' \<noteq> []" by (simp add: hex_EncodeToString_def)
  have ok: "plain_seg (rh_regID (h\<lparr>rh_closed := True\<rparr>))" "list_all is_alnum (rh_token (h\<lparr>rh_closed := True\<rparr>))"
      "rh_token (h\<lparr>rh_closed := True\<rparr>) \<noteq> []"
      "Lease_Get (dm_Lease ?d) (rh_regID (h\<lparr>rh_closed := True\<rparr>)) = Some e" "le_Token e = rh_token (h\<lparr>rh_closed := True\<rparr>)"
    using alnum_plain_seg [OF newID_alnum] hex_alnum e ne by (simp_all add: h_def)
  have s: "(\<lambda>s. s) (?d, h\<lparr>rh_closed := True\<rparr>) = (?d, h\<lparr>rh_closed := True\<rparr>)" by simp
  from close_ends_publication [OF o s sample_registered_reach ok c, of down "\<lambda>s. s" "()"] c o ok(4) show ?thesis by auto
qed

subsection \<open>A heartbeat that comes too late\<close>

lemma late_turn:
  assumes "Registry_Resolve (dm_Registry d) name = Some rec" "sr_Status rec = StatusReady"
    "\<forall>e. Lease_Get (dm_Lease d) (rh_regID h) = Some e \<longrightarrow> le_ExpiresAt e \<le> ae_now A1"
    "plain_seg (rh_regID h)" "list_all is_alnum (rh_token h)"
    "wire_ok (rh_baseReq h)" "rg_Source (rh_baseReq h) \<in> {SourceProcess, SourceManual}" "rg_Name (rh_baseReq h) = name"
    "rg_Source (rh_baseReq h) @ '':'' @ newID (re_ms (ae_reg A2)) (re_id_bytes (ae_reg A2)) \<noteq> sr_OwnerKey rec"
    "tn_beat t = daemon_server A1" "tn_again t = daemon_server A2" "heartbeat_turn C t h backoff d = (d', h', b', wait)"
  shows "h' = h \<and> Registry_Resolve (dm_Registry d') name = Some rec \<and> Lease_Get (dm_Lease d') (rh_regID h) = None"
proof -
  let ?b = "rh_baseReq h" let ?p = "register_params ?b (rg_Source ?b)"
  define d1 where "d1 = d\<lparr>dm_Lease := Lease_Remove (dm_Lease d) (rh_regID h)\<rparr>"
  have "\<exists>d0. Heartbeat (ae_now A1) (rh_regID h) (rh_token h) d = (d0, Inl CodeRegistrationNotFound) \<and>
      dm_Registry d0 = dm_Registry d \<and> Lease_Get (dm_Lease d0) (rh_regID h) = None"
  proof (cases "Lease_Get (dm_Lease d) (rh_regID h)")
    case None
    then show ?thesis by (simp add: Heartbeat_def Renew_not_found)
  next
    case (Some e)
    then have "\<not> lease_live (ae_now A1) e" using assms(3) by (simp add: lease_live_def)
    with Some show ?thesis by (simp add: Heartbeat_def Renew_expired)
  qed
  then obtain d0 where d0: "Heartbeat (ae_now A1) (rh_regID h) (rh_token h) d = (d0, Inl CodeRegistrationNotFound)"
      "dm_Registry d0 = dm_Registry d" "Lease_Get (dm_Lease d0) (rh_regID h) = None" by blast
  obtain c m where "decodeError (hr_Status (writeError (ae_message A1) CodeRegistrationNotFound))
      (hr_Body (writeError (ae_message A1) CodeRegistrationNotFound)) = ApiError 404 c m" using decode_404 by blast
  then have beat: "DoAuth (tn_beat t) ''POST'' (heartbeat_path (rh_regID h)) (rh_token h) None (Some dec_HeartbeatResponse) [] d =
      (d0, Inl (ApiError 404 c m))"
    using d0(1) assms(10) by (simp add: Renew_answers [OF assms(4,5)])
  obtain d2 h2 r where reg: "handle_register C (daemon_server A2) h d0 = (d2, h2, r)" by (meson prod_cases3)
  have src: "rg_Source ?b = SourceProcess \<or> rg_Source ?b = SourceManual" using assms(7) by auto
  have p: "rp_Name ?p = name" using assms(8) by (simp add: register_params_def)
  have "CheckOwnership (dm_Registry d0) (rp_Name ?p) (pl_ownerKey (reg_plan (ae_reg A2) ?p d0)) \<noteq> None"
    using assms(1,2,9) d0(2) by (simp add: CheckOwnership_None_iff p Registry_Resolve_mget api_plan [OF src])
  then obtain c' where rej: "reg_reject (ae_reg A2) ?p d0 = Some c'" using reg_reject_None(7) [of "ae_reg A2" ?p d0] by (cases "reg_reject (ae_reg A2) ?p d0") auto
  have "Register (ae_reg A2) ?p d0 = (d0, Inl c')" by (simp add: Register_def registerLocked_plan rej)
  then have "h2 = h \<and> d2 = d0 \<and> r \<noteq> None"
    by (cases rule: handle_register_cases [OF assms(6) refl assms(7) reg]) auto
  then have "h' = h \<and> d' = d0"
    using assms(12) beat reg by (auto simp: heartbeat_turn_def asTransportError_def assms(11) split: option.splits)
  then show ?thesis using d0(2,3) assms(1) by simp
qed

text \<open>A client that is late once never comes back. When a heartbeat reaches the daemon after the
  lease has expired and before the sweeper has taken it, the client's own registration is in
  its way: every later turn is answered 404 and then refused as a conflict with the record
  of the client's former identity, which stays ready; the handle keeps the dead identity.\<close>

theorem late_client_never_recovers:
  assumes "Registry_Resolve (dm_Registry d) name = Some rec" and "sr_Status rec = StatusReady"
    and "Lease_Get (dm_Lease d) (rh_regID h) = Some e" and "plain_seg (rh_regID h)" and "list_all is_alnum (rh_token h)"
    and "wire_ok (rh_baseReq h)" and "rg_Source (rh_baseReq h) \<in> {SourceProcess, SourceManual}" and "rg_Name (rh_baseReq h) = name"
    and "\<forall>t \<in> set ts. \<exists>A1 A2. tn_beat t = daemon_server A1 \<and> tn_again t = daemon_server A2 \<and> le_ExpiresAt e \<le> ae_now A1 \<and>
      tn_meanwhile t = (\<lambda>d. d) \<and>
      rg_Source (rh_baseReq h) @ '':'' @ newID (re_ms (ae_reg A2)) (re_id_bytes (ae_reg A2)) \<noteq> sr_OwnerKey rec"
    and "heartbeatLoop C ts h backoff d = (d', h', waits)"
  shows "h' = h \<and> Registry_Resolve (dm_Registry d') name = Some rec"
proof -
  have "\<forall>e'. Lease_Get (dm_Lease d) (rh_regID h) = Some e' \<longrightarrow> e' = e" using assms(3) by simp
  then show ?thesis using assms(1,9,10)
  proof (induction ts arbitrary: d backoff waits)
    case (Cons t ts)
    obtain A1 A2 where A: "tn_beat t = daemon_server A1" "tn_again t = daemon_server A2" "le_ExpiresAt e \<le> ae_now A1"
        "tn_meanwhile t = (\<lambda>d. d)"
        "rg_Source (rh_baseReq h) @ '':'' @ newID (re_ms (ae_reg A2)) (re_id_bytes (ae_reg A2)) \<noteq> sr_OwnerKey rec"
      using Cons.prems(3) by auto
    have late: "\<forall>e'. Lease_Get (dm_Lease d) (rh_regID h) = Some e' \<longrightarrow> le_ExpiresAt e' \<le> ae_now A1" using Cons.prems(1) A(3) by auto
    show ?case
    proof (cases "tn_canceled t")
      case False
      obtain d1 h1 b1 wt where turn: "heartbeat_turn C t h backoff d = (d1, h1, b1, wt)" by (meson prod_cases4)
      note k = late_turn [OF Cons.prems(2) assms(2) late assms(4-8) A(5,1,2) turn]
      obtain ws where "heartbeatLoop C ts h b1 d1 = (d', h', ws)"
        using Cons.prems(4) False turn k by (auto simp: A(4) split: prod.splits)
      then show ?thesis using Cons.IH [of d1 b1 ws] Cons.prems(3) k by simp
    qed (use Cons.prems A(4) in simp)
  qed simp
qed

end
