(* ===== verification/Go_Duration.thy ===== *)
theory Go_Duration
  imports Complex_Main Go_Std
begin

text \<open>
  \<open>time.ParseDuration\<close>, component by component, with the overflow checks on 64-bit unsigned
  integers. The fraction of a component is computed in \<open>float64\<close>; its rounding is a parameter.
\<close>

section \<open>Definitions\<close>

definition digit_int :: "char \<Rightarrow> int" where
  "digit_int c = int (byte c) - 48"

fun leadingInt :: "int \<Rightarrow> string \<Rightarrow> (int \<times> string) option" where
  "leadingInt x [] = Some (x, [])"
| "leadingInt x (c # cs) =
     (if \<not> is_digit c then Some (x, c # cs)
      else if x > 2 ^ 63 div 10 then None
      else if x * 10 + digit_int c > 2 ^ 63 then None
      else leadingInt (x * 10 + digit_int c) cs)"

text \<open>The digits after the point as far as they fit, and the power of ten they are scaled by.\<close>

fun leadingFraction :: "bool \<Rightarrow> int \<Rightarrow> int \<Rightarrow> string \<Rightarrow> int \<times> int \<times> string" where
  "leadingFraction overflow x scale [] = (x, scale, [])"
| "leadingFraction overflow x scale (c # cs) =
     (if \<not> is_digit c then (x, scale, c # cs)
      else if overflow \<or> x > (2 ^ 63 - 1) div 10 \<or> x * 10 + digit_int c > 2 ^ 63
      then leadingFraction True x scale cs
      else leadingFraction False (x * 10 + digit_int c) (scale * 10) cs)"

definition unitMap :: "(string \<times> int) list" where
  "unitMap =
     [(''ns'', 1), (''us'', 1000), ([CHR 0xC2, CHR 0xB5, CHR ''s''], 1000), ([CHR 0xCE, CHR 0xBC, CHR ''s''], 1000),
      (''ms'', 1000000), (''s'', 1000000000), (''m'', 60000000000), (''h'', 3600000000000)]"

definition unit_char :: "char \<Rightarrow> bool" where
  "unit_char c \<longleftrightarrow> c \<noteq> CHR ''.'' \<and> \<not> is_digit c"

definition with_fraction :: "(rat \<Rightarrow> rat) \<Rightarrow> int \<Rightarrow> int \<Rightarrow> int \<Rightarrow> int \<Rightarrow> int" where
  "with_fraction rnd v f scale unit =
     (if f > 0 then v + \<lfloor>rnd (rnd (of_int f) * rnd (rnd (of_int unit) / rnd (of_int scale)))\<rfloor> else v)"

text \<open>One component: its value in nanoseconds and the rest of the string.\<close>

definition duration_item :: "(rat \<Rightarrow> rat) \<Rightarrow> string \<Rightarrow> (int \<times> string) option" where
  "duration_item rnd s =
     (if s = [] \<or> \<not> (hd s = CHR ''.'' \<or> is_digit (hd s)) then None
      else
        (case leadingInt 0 s of
           None \<Rightarrow> None
         | Some (v, s1) \<Rightarrow>
             (let pre = (length s \<noteq> length s1);
                  (f, scale, s2, post) =
                    (if s1 \<noteq> [] \<and> hd s1 = CHR ''.''
                     then (case leadingFraction False 0 1 (tl s1) of
                             (f, scale, r) \<Rightarrow> (f, scale, r, length (tl s1) \<noteq> length r))
                     else (0, 1, s1, False)) in
              if \<not> pre \<and> \<not> post then None
              else if takeWhile unit_char s2 = [] then None
              else
                (case map_of unitMap (takeWhile unit_char s2) of
                   None \<Rightarrow> None
                 | Some unit \<Rightarrow>
                     if v > 2 ^ 63 div unit then None
                     else
                       (let v' = with_fraction rnd (v * unit) f scale unit in
                        if v' > 2 ^ 63 then None else Some (v', dropWhile unit_char s2))))))"

lemma leadingInt_length: "leadingInt x s = Some (v, r) \<Longrightarrow> length r \<le> length s"
  by (induction x s rule: leadingInt.induct) (auto split: if_splits)

lemma leadingFraction_length: "leadingFraction b x sc s = (f, sc', r) \<Longrightarrow> length r \<le> length s"
  by (induction b x sc s rule: leadingFraction.induct) (auto split: if_splits)

lemma dropWhile_shorter: "takeWhile P s \<noteq> [] \<Longrightarrow> length (dropWhile P s) < length s"
  by (cases s) (auto simp: less_Suc_eq_le length_dropWhile_le split: if_splits)

lemma duration_item_shorter:
  assumes "duration_item rnd s = Some (v, r)"
  shows "length r < length s"
proof -
  obtain v1 s1 where l: "leadingInt 0 s = Some (v1, s1)" using assms by (auto simp: duration_item_def split: if_splits option.splits)
  show ?thesis
  proof (cases "s1 \<noteq> [] \<and> hd s1 = CHR ''.''")
    case True
    obtain f sc r1 where fr: "leadingFraction False 0 1 (tl s1) = (f, sc, r1)" by (meson prod_cases3)
    have "takeWhile unit_char r1 \<noteq> []" "r = dropWhile unit_char r1"
      using assms l True fr by (auto simp: duration_item_def Let_def split: if_splits option.splits)
    then have "length r < length r1" using dropWhile_shorter by simp
    then show ?thesis using leadingInt_length [OF l] leadingFraction_length [OF fr] by simp
  next
    case False
    then have "takeWhile unit_char s1 \<noteq> []" "r = dropWhile unit_char s1"
      using assms l by (auto simp: duration_item_def Let_def split: if_splits option.splits)
    then show ?thesis using dropWhile_shorter leadingInt_length [OF l] by fastforce
  qed
qed

text \<open>The sum of the components wraps at 64 bits before it is compared.\<close>

function duration_sum :: "(rat \<Rightarrow> rat) \<Rightarrow> int \<Rightarrow> string \<Rightarrow> int option" where
  "duration_sum rnd d s =
     (if s = [] then Some d
      else
        (case duration_item rnd s of
           None \<Rightarrow> None
         | Some (v, r) \<Rightarrow>
             (let d' = (d + v) mod 2 ^ 64 in if d' > 2 ^ 63 then None else duration_sum rnd d' r)))"
  by pat_completeness auto
termination
  by (relation "measure (\<lambda>(_, _, s). length s)") (auto simp: duration_item_shorter)

declare duration_sum.simps [simp del]

definition ParseDuration :: "(rat \<Rightarrow> rat) \<Rightarrow> string \<Rightarrow> duration option" where
  "ParseDuration rnd orig =
     (let signed = (orig \<noteq> [] \<and> (hd orig = CHR ''-'' \<or> hd orig = CHR ''+''));
          neg = (orig \<noteq> [] \<and> hd orig = CHR ''-''); s = (if signed then tl orig else orig) in
      if s = ''0'' then Some 0
      else if s = [] then None
      else
        (case duration_sum rnd 0 s of
           None \<Rightarrow> None
         | Some d \<Rightarrow> if neg then Some (- d) else if d > 2 ^ 63 - 1 then None else Some d))"

section \<open>Lemmas\<close>

lemma digits_val_grows: "digits_val n ds = Some m \<Longrightarrow> n \<le> m"
proof (induction ds arbitrary: n)
  case (Cons c cs)
  then have "10 * n + digit_val c \<le> m" by (auto split: if_splits)
  then show ?case by simp
qed simp

lemma leadingInt_digits:
  assumes "digits_val n ds = Some m" "int m \<le> 2 ^ 63" "r = [] \<or> \<not> is_digit (hd r)"
  shows "leadingInt (int n) (ds @ r) = Some (int m, r)"
  using assms
proof (induction ds arbitrary: n)
  case Nil
  then show ?case by (cases r) auto
next
  case (Cons c cs)
  have c: "is_digit c" "digits_val (10 * n + digit_val c) cs = Some m" using Cons.prems(1) by (auto split: if_splits)
  have d: "int (digit_val c) = digit_int c" using c(1) by (simp add: digit_val_def digit_int_def is_digit_def)
  have "10 * n + digit_val c \<le> m" using digits_val_grows [OF c(2)] .
  then have "int n * 10 + digit_int c \<le> int m" using d by linarith
  moreover have "0 \<le> digit_int c" using d by linarith
  moreover have "int n \<le> 2 ^ 63 div 10" using calculation Cons.prems(2) by simp
  ultimately show ?case using Cons.IH [OF c(2) Cons.prems(2,3)] c(1) d Cons.prems(2) by (simp add: algebra_simps)
qed

text \<open>A whole number of seconds, as it is written on the command line.\<close>

lemma ParseDuration_seconds:
  assumes "0 \<le> n" "n \<le> 9223372036"
  shows "ParseDuration rnd (Itoa n @ ''s'') = Some (n * Second)"
proof -
  have i: "Itoa n = nat_digits (nat n)" using assms(1) by (simp add: Itoa_def)
  have ne: "Itoa n \<noteq> []" by (simp add: i)
  have h: "is_digit (hd (Itoa n))" using nat_digits_all_digits [of "nat n"] ne by (simp add: i list_all_iff)
  then have nh: "hd (Itoa n) \<noteq> CHR ''-''" "hd (Itoa n) \<noteq> CHR ''+''" by auto
  have "leadingInt (int 0) (nat_digits (nat n) @ ''s'') = Some (int (nat n), ''s'')"
    by (rule leadingInt_digits [OF digits_val_nat_digits]) (use assms in \<open>auto simp: is_digit_def\<close>)
  then have l: "leadingInt 0 (Itoa n @ ''s'') = Some (n, ''s'')" using assms(1) by (simp add: i)
  have u: "unit_char CHR ''s''" by (simp add: unit_char_def is_digit_def)
  have "duration_item rnd (Itoa n @ ''s'') = Some (n * Second, [])"
    using assms h ne by (simp add: duration_item_def l u unitMap_def with_fraction_def)
  then have "duration_sum rnd 0 (Itoa n @ ''s'') = Some (n * Second)"
    using assms by (simp add: duration_sum.simps [of rnd 0] duration_sum.simps [of rnd _ "[]"] Let_def)
  moreover have "Itoa n @ ''s'' \<noteq> ''0''" by (cases "Itoa n") auto
  ultimately show ?thesis using assms nh ne by (simp add: ParseDuration_def Let_def)
qed

end
