(* ===== verification/Serve.thy ===== *)
theory Serve
  imports Transport Go_Duration
begin

text \<open>
  \<open>cmd/devmeshd/cmds/serve.go\<close>: the daemon's command. Glazed decodes flags, environment and
  config file into the settings, which are a parameter here; from there on the command is
  modelled to the end: the configuration, the checks, the daemon, its socket, serving and the
  orderly shutdown. What the daemon's clients do while it serves is a parameter of \<open>serve_Run\<close>,
  and so is what other processes do to the socket path while it shuts down.
\<close>

section \<open>Definitions\<close>

record ServeSettings =
  ss_Config :: string
  ss_Socket :: string
  ss_TCPFrontendHost :: string
  ss_TCPFrontendMin :: int
  ss_TCPFrontendMax :: int
  ss_RuntimeIdleTTL :: string        \<comment> \<open>never read, and no flag sets it\<close>
  ss_LeaseTTL :: string
  ss_ShutdownTimeout :: string
  ss_StatePath :: string
  ss_DockerEnabled :: bool
  ss_DockerAllowNonLoopbackPublishedPorts :: bool
  ss_HTTPEnabled :: bool
  ss_HTTPAddr :: string
  ss_HTTPSAddr :: string
  ss_HTTPBaseDomain :: string
  ss_HTTPCertFile :: string
  ss_HTTPKeyFile :: string

text \<open>The defaults of the flags; the durations are \<open>String()\<close> of the defaults, whole seconds.\<close>

definition NewServeCommand :: ServeSettings where
  "NewServeCommand =
     \<lparr>ss_Config = [], ss_Socket = [], ss_TCPFrontendHost = cf_TCPFrontendHost Default,
      ss_TCPFrontendMin = cf_TCPFrontendMin Default, ss_TCPFrontendMax = cf_TCPFrontendMax Default,
      ss_RuntimeIdleTTL = [], ss_LeaseTTL = Itoa (cf_LeaseTTL Default div Second) @ ''s'',
      ss_ShutdownTimeout = Itoa (cf_ShutdownTimeout Default div Second) @ ''s'', ss_StatePath = [],
      ss_DockerEnabled = dk_Enabled (cf_Docker Default),
      ss_DockerAllowNonLoopbackPublishedPorts = dk_AllowNonLoopbackPublishedPorts (cf_Docker Default),
      ss_HTTPEnabled = hc_Enabled (cf_HTTP Default), ss_HTTPAddr = hc_HTTPAddr (cf_HTTP Default),
      ss_HTTPSAddr = hc_HTTPSAddr (cf_HTTP Default), ss_HTTPBaseDomain = hc_BaseDomain (cf_HTTP Default),
      ss_HTTPCertFile = [], ss_HTTPKeyFile = []\<rparr>"

text \<open>
  \<open>flag\<close> is what \<open>GetString\<close> gives (\<open>None\<close>: an error), \<open>env\<close> what the pre-parse of the environment
  gives.
\<close>

definition resolveConfigPath :: "string option \<Rightarrow> string option \<Rightarrow> string option" where
  "resolveConfigPath flag env =
     (case flag of Some path \<Rightarrow> if path \<noteq> [] then Some path else env | None \<Rightarrow> env)"

text \<open>
  The sources of the settings in the order in which \<open>ParserConfig\<close> hands them to Glazed, where an
  earlier one wins; \<open>None\<close> is the error of \<open>resolveConfigPath\<close>.
\<close>

datatype settings_source = FromCobra | FromArgs | FromEnv string | FromFile string | FromDefaults

definition ParserConfig :: "string option \<Rightarrow> string option \<Rightarrow> settings_source list option" where
  "ParserConfig flag env =
     (case resolveConfigPath flag env of
        None \<Rightarrow> None
      | Some path \<Rightarrow>
          Some ([FromCobra, FromArgs, FromEnv ''DEVMESH''] @ (if path \<noteq> [] then [FromFile path] else []) @ [FromDefaults]))"

definition parseDuration :: "(rat \<Rightarrow> rat) \<Rightarrow> string \<Rightarrow> duration \<Rightarrow> duration option" where
  "parseDuration rnd s def = (if s = [] then Some def else ParseDuration rnd s)"

datatype serve_error =
    LeaseTTLInvalid
  | ShutdownTimeoutInvalid
  | ConfigRejected config_error
  | NewFailed new_error
  | ListenFailed listen_error
  | ServeFailed
  | ShutdownFailed state_error

record serve_env =
  sv_UserHomeDir :: "string option"
  sv_UserConfigDir :: "string option"
  sv_TempDir :: string
  sv_round :: "rat \<Rightarrow> rat"
  sv_new :: new_env
  sv_sock :: sock_env
  sv_pid :: nat
  sv_docker_ok :: bool
  sv_life :: "Daemon \<Rightarrow> Daemon"                       \<comment> \<open>what happens while the daemon serves\<close>
  sv_serve_fails :: bool                             \<comment> \<open>\<open>Serve\<close> returns an error before a signal comes\<close>
  sv_io :: io_env                                    \<comment> \<open>the disk during the shutdown\<close>
  sv_others :: "node option \<Rightarrow> node option"           \<comment> \<open>others at the socket path during the shutdown\<close>

record host =
  ho_files :: fs
  ho_listeners :: "string list"
  ho_socket :: "node option"                         \<comment> \<open>what is at the configured socket path\<close>

definition configFromSettings :: "serve_env \<Rightarrow> ServeSettings \<Rightarrow> (serve_error, Config) result" where
  "configFromSettings E s =
     (case parseDuration (sv_round E) (ss_LeaseTTL s) (cf_LeaseTTL Default) of
        None \<Rightarrow> Inl LeaseTTLInvalid
      | Some leaseTTL \<Rightarrow>
          (case parseDuration (sv_round E) (ss_ShutdownTimeout s) (cf_ShutdownTimeout Default) of
             None \<Rightarrow> Inl ShutdownTimeoutInvalid
           | Some shutdownTimeout \<Rightarrow>
               Inr \<lparr>cf_Socket = (if ss_Socket s = [] then DefaultSocketPath (sv_UserHomeDir E) (sv_TempDir E) else ss_Socket s),
                    cf_TCPFrontendHost = ss_TCPFrontendHost s, cf_TCPFrontendMin = ss_TCPFrontendMin s,
                    cf_TCPFrontendMax = ss_TCPFrontendMax s, cf_LeaseTTL = leaseTTL, cf_ShutdownTimeout = shutdownTimeout,
                    cf_StatePath = (if ss_StatePath s = [] then DefaultStatePath (sv_UserConfigDir E) (sv_UserHomeDir E)
                                    else ss_StatePath s),
                    cf_Docker = \<lparr>dk_Enabled = ss_DockerEnabled s,
                      dk_AllowNonLoopbackPublishedPorts = ss_DockerAllowNonLoopbackPublishedPorts s\<rparr>,
                    cf_HTTP = \<lparr>hc_Enabled = ss_HTTPEnabled s, hc_HTTPAddr = ss_HTTPAddr s, hc_HTTPSAddr = ss_HTTPSAddr s,
                      hc_BaseDomain = ss_HTTPBaseDomain s, hc_CertFile = ss_HTTPCertFile s, hc_KeyFile = ss_HTTPKeyFile s\<rparr>\<rparr>))"

text \<open>
  Serving and the shutdown. When \<open>Serve\<close> fails it closes the socket's listener itself, on a signal
  \<open>httpSrv.Shutdown\<close> does: in both cases that unlinks the path before the daemon shuts down. The
  deferred \<open>RemoveSocket\<close> runs when the daemon has shut down.
\<close>

definition serve_until_end :: "serve_env \<Rightarrow> Daemon \<Rightarrow> host \<times> serve_error option" where
  "serve_until_end E d =
     (case Shutdown (sv_io E) (sv_life E (Start (sv_docker_ok E) d)) of
        (d', err) \<Rightarrow>
          (\<lparr>ho_files = wd_files (dm_world d'), ho_listeners = wd_listeners (dm_world d'),
            ho_socket = RemoveSocket (sv_sock E) (sv_others E None)\<rparr>,
           if sv_serve_fails E then Some ServeFailed else map_option ShutdownFailed err))"

definition serve_Run :: "serve_env \<Rightarrow> ServeSettings \<Rightarrow> host \<Rightarrow> host \<times> serve_error option" where
  "serve_Run E s H =
     (case configFromSettings E s of
        Inl err \<Rightarrow> (H, Some err)
      | Inr cfg \<Rightarrow>
          (case Config_Validate cfg of
             Some err \<Rightarrow> (H, Some (ConfigRejected err))
           | None \<Rightarrow>
               (case Daemon_New (sv_new E) cfg (ho_files H) (ho_listeners H) of
                  (files, lns, Inl err) \<Rightarrow> (H\<lparr>ho_files := files, ho_listeners := lns\<rparr>, Some (NewFailed err))
                | (files, lns, Inr d) \<Rightarrow>
                    (case Listen (sv_sock E) (sv_pid E) (ho_socket H) of
                       (sock, Inl err) \<Rightarrow> (\<lparr>ho_files = files, ho_listeners = lns, ho_socket = sock\<rparr>, Some (ListenFailed err))
                     | (sock, Inr _) \<Rightarrow> serve_until_end E d))))"

subsection \<open>What a daemon holds\<close>

text \<open>The sockets a daemon owns, and that it holds just these besides the \<open>L\<close> of others.\<close>

definition own_sockets :: "Daemon \<Rightarrow> string set" where
  "own_sockets d = rt_listener ` snd ` set (rm_runtimes (dm_Runtime d)) \<union> set_option (dm_httpListener d) \<union>
     set_option (dm_httpsListener d)"

definition proxies :: "Daemon \<Rightarrow> string option \<times> string option \<times> bool" where
  "proxies d = (dm_httpListener d, dm_httpsListener d, dm_started d)"

definition holds :: "string set \<Rightarrow> Daemon \<Rightarrow> bool" where
  "holds L d \<longleftrightarrow> set (wd_listeners (dm_world d)) = L \<union> own_sockets d \<and> L \<inter> own_sockets d = {}"

definition stores :: "string \<Rightarrow> Daemon \<Rightarrow> bool" where
  "stores path d \<longleftrightarrow>
     (let a = rm_alloc (dm_Runtime d) in 1 \<le> al_min a \<and> al_min a \<le> al_max a \<and> al_max a \<le> 65535) \<and>
     (\<exists>st. wd_state (dm_world d) = Some st \<and> store_wf st \<and> st_path st = path)"

text \<open>A Go \<open>int\<close> in a registration.\<close>

fun ev_int64 :: "event \<Rightarrow> bool" where
  "ev_int64 (EvRegister R p) \<longleftrightarrow> int64 (rp_PreferredPort p)"
| "ev_int64 _ \<longleftrightarrow> True"

text \<open>The daemon at the end of its life, when it is told to shut down.\<close>

definition served :: "serve_env \<Rightarrow> ServeSettings \<Rightarrow> host \<Rightarrow> Daemon option" where
  "served E s H =
     (case configFromSettings E s of
        Inl err \<Rightarrow> None
      | Inr cfg \<Rightarrow>
          (case Daemon_New (sv_new E) cfg (ho_files H) (ho_listeners H) of
             (files, lns, Inl err) \<Rightarrow> None
           | (files, lns, Inr d) \<Rightarrow> Some (sv_life E (Start (sv_docker_ok E) d))))"

definition sample_serve :: "event list \<Rightarrow> (node option \<Rightarrow> node option) \<Rightarrow> serve_env" where
  "sample_serve evs others =
     \<lparr>sv_UserHomeDir = Some ''/h'', sv_UserConfigDir = None, sv_TempDir = ''/tmp'', sv_round = (\<lambda>x. x), sv_new = sample_new,
      sv_sock = \<lparr>se_mkdir = True, se_lstat = True, se_dial = True, se_remove = True, se_bind = True, se_chmod = True\<rparr>,
      sv_pid = 1, sv_docker_ok = False, sv_life = (\<lambda>d. fst (run evs (d, []))), sv_serve_fails = False, sv_io = calm,
      sv_others = others\<rparr>"

definition sample_life :: "event list" where
  "sample_life = [EvRegister (sample_reg 5 1) ((tcp_params ''web'' 0 3)\<lparr>rp_Kind := ''http'', rp_HTTPHost := ''web.test''\<rparr>),
     EvSweep 9, EvHeartbeat 10 ''r'' ''t'']"

definition sample_state :: Store where
  "sample_state = \<lparr>st_path = ''/h/.config/devmesh/state.json'', st_m = \<lparr>md_Version = 1, md_TCPPorts = Some []\<rparr>, st_dirty = False\<rparr>"

definition sample_host :: host where
  "sample_host = \<lparr>ho_files = Map.empty, ho_listeners = [''127.0.0.1:16000''], ho_socket = Some (Socket None True)\<rparr>"

section \<open>Lemmas\<close>

subsection \<open>Configuration\<close>

lemma default_settings:
  "configFromSettings E NewServeCommand =
     Inr (Default\<lparr>cf_Socket := DefaultSocketPath (sv_UserHomeDir E) (sv_TempDir E),
                  cf_StatePath := DefaultStatePath (sv_UserConfigDir E) (sv_UserHomeDir E)\<rparr>)"
  using ParseDuration_seconds [of 15 "sv_round E"] ParseDuration_seconds [of 5 "sv_round E"]
  by (simp add: configFromSettings_def NewServeCommand_def parseDuration_def Default_def)

lemma default_settings_valid: "Config_Validate (Default\<lparr>cf_Socket := p, cf_StatePath := q\<rparr>) = None"
  using Default_valid by (simp add: Config_Validate_def Default_def split: if_splits)

lemma bad_durations:
  assumes "ss_LeaseTTL s \<noteq> [] \<and> ParseDuration (sv_round E) (ss_LeaseTTL s) = None \<or>
    ss_ShutdownTimeout s \<noteq> [] \<and> ParseDuration (sv_round E) (ss_ShutdownTimeout s) = None"
  shows "\<exists>err \<in> {LeaseTTLInvalid, ShutdownTimeoutInvalid}. configFromSettings E s = Inl err"
  using assms by (auto simp: configFromSettings_def parseDuration_def split: option.split)

lemma serve_Run_config: "configFromSettings E s = Inl err \<Longrightarrow> serve_Run E s H = (H, Some err)"
  by (simp add: serve_Run_def)

text \<open>Configuration from the command line. The flags' own defaults, printed and parsed back,
  give exactly the default configuration with the two paths filled in, and that is valid. A
  duration that does not parse is an error, never the default: \<open>serve\<close> then ends before it
  touches the disk, a port or the socket.\<close>

theorem serve_configuration:
  "(\<exists>cfg. configFromSettings E NewServeCommand = Inr cfg \<and> Config_Validate cfg = None \<and>
      cfg = Default\<lparr>cf_Socket := DefaultSocketPath (sv_UserHomeDir E) (sv_TempDir E),
                    cf_StatePath := DefaultStatePath (sv_UserConfigDir E) (sv_UserHomeDir E)\<rparr>) \<and>
   (ss_LeaseTTL s \<noteq> [] \<and> ParseDuration (sv_round E) (ss_LeaseTTL s) = None \<or>
    ss_ShutdownTimeout s \<noteq> [] \<and> ParseDuration (sv_round E) (ss_ShutdownTimeout s) = None \<longrightarrow>
      (\<exists>err. serve_Run E s H = (H, Some err) \<and> err \<in> {LeaseTTLInvalid, ShutdownTimeoutInvalid}))"
  using default_settings default_settings_valid bad_durations serve_Run_config by blast

subsection \<open>What a daemon holds\<close>

lemma reg_frontend_sockets:
  assumes "reg_frontend R p kind hostname d = (d1, r)"
  shows "proxies d1 = proxies d"
    and "dm_Runtime d1 = dm_Runtime d \<and> dm_world d1 = dm_world d \<or>
      (\<exists>x. EnsureTCPRuntime (re_io R) (re_bindable R) (rp_Name p) (rp_PreferredPort p) (dm_Runtime d) (dm_world d) =
         (dm_Runtime d1, dm_world d1, x))"
  using assms
  by (auto simp: reg_frontend_def proxies_def split: if_splits prod.splits sum.splits alloc_error.splits)

lemma proxies_keep [simp]:
  "proxies (retired R p d) = proxies d" "proxies (reg_publish R p pl fe d) = proxies d" "proxies (d\<lparr>dm_Lease := l\<rparr>) = proxies d"
  "proxies (fst (endPublication now name pid d)) = proxies d" "proxies (fst (Heartbeat now rid token d)) = proxies d"
  by (auto simp: proxies_def retired_def reg_retire_def reg_publish_def endPublication_def Heartbeat_def
      split: option.splits prod.splits sum.splits lease_error.splits)

lemma Register_sockets:
  assumes "Register R p d = (d', r)"
  shows "proxies d' = proxies d \<and>
    (dm_Runtime d' = dm_Runtime d \<and> dm_world d' = dm_world d \<or>
     (\<exists>x. EnsureTCPRuntime (re_io R) (re_bindable R) (rp_Name p) (rp_PreferredPort p) (dm_Runtime d) (dm_world d) =
        (dm_Runtime d', dm_world d', x)))"
  using assms
proof (cases rule: Register_cases)
  case (unallocated c d1)
  then show ?thesis using reg_frontend_sockets [OF unallocated(3)] by simp
next
  case (no_token fe d1)
  then show ?thesis using reg_frontend_sockets [OF no_token(2)] by simp
next
  case (docker fe d1)
  then show ?thesis using reg_frontend_sockets [OF docker(2)] by simp
next
  case (leased fe d1 token l e)
  then show ?thesis using reg_frontend_sockets [OF leased(2)] by simp
qed simp

lemma event_sockets:
  assumes "apply_ev ev (d, P) = (d', P')"
  shows "proxies d' = proxies d \<and>
    (dm_Runtime d' = dm_Runtime d \<and> dm_world d' = dm_world d \<or>
     (\<exists>R p x. ev = EvRegister R p \<and>
        EnsureTCPRuntime (re_io R) (re_bindable R) (rp_Name p) (rp_PreferredPort p) (dm_Runtime d) (dm_world d) =
          (dm_Runtime d', dm_world d', x)))"
proof (cases ev)
  case (EvRegister R p)
  then show ?thesis using assms Register_sockets [of R p d d' "snd (Register R p d)"] by auto
qed (use assms in \<open>auto simp: ForgetDockerPublication_def split: option.splits prod.splits if_splits\<close>)

lemma holds_Ensure:
  assumes "holds L d" "EnsureTCPRuntime E bindable name preferred (dm_Runtime d) (dm_world d) = (dm_Runtime d', dm_world d', x)"
    and "proxies d' = proxies d"
  shows "holds L d'"
  using assms(2)
proof (cases rule: EnsureTCPRuntime_cases)
  case (created p rt)
  have new: "rt_listener rt \<notin> set (wd_listeners (dm_world d))" using created(4,5) by (simp add: can_bind_def)
  have "own_sockets d' = insert (rt_listener rt) (own_sockets d)"
    using assms(3) created(1,3) by (auto simp: own_sockets_def proxies_def mput_new)
  with assms(1) created(7) new show ?thesis by (auto simp: holds_def)
qed (use assms in \<open>auto simp: holds_def own_sockets_def proxies_def\<close>)

lemma int64_Port: "store_wf st \<Longrightarrow> int64 (Port st name)"
  by (auto simp: store_wf_def Port_def mget0_def list_all_iff split: option.splits dest!: mget_in)

lemma stores_SetPort:
  assumes "store_wf st" "int64 port" "SetPort E files st name port = (files', st', err)"
  shows "store_wf st' \<and> st_path st' = st_path st"
  using assms(3) by (cases rule: SetPort_cases) (use assms(1,2) in \<open>auto intro: store_wf_put\<close>)

lemma stores_Allocate:
  assumes "1 \<le> al_min a" "al_min a \<le> al_max a" "al_max a \<le> 65535" "int64 preferred"
    and "wd_state w = Some st" "store_wf st" "Allocate E bindable a name preferred w = (w', r)"
  shows "\<exists>st'. wd_state w' = Some st' \<and> store_wf st' \<and> st_path st' = st_path st"
proof -
  have cand: "int64 p" if "p \<in> set (candidates a name (remembered_port w name) preferred)" for p
    using that assms(1-6) int64_Port [of st name] by (auto simp: set_candidates remembered_port_def)
  from assms(7) [unfolded Allocate_first] show ?thesis
  proof (cases rule: alloc_first_cases)
    case (unpersisted p st2 err)
    then show ?thesis using assms(5,6) stores_SetPort [OF _ cand [OF unpersisted(1)] unpersisted(6)] by auto
  next
    case (bound p)
    then show ?thesis using assms(5,6) stores_SetPort [OF _ cand [OF bound(2)]] by fastforce
  qed (use assms(5,6) in simp)
qed

lemma stores_Ensure:
  assumes "stores path d" "int64 preferred"
    and "EnsureTCPRuntime E bindable name preferred (dm_Runtime d) (dm_world d) = (dm_Runtime d', dm_world d', x)"
  shows "stores path d'"
proof -
  obtain st where st: "wd_state (dm_world d) = Some st" "store_wf st" "st_path st = path"
    using assms(1) by (auto simp: stores_def)
  have alloc: "\<exists>st'. wd_state (dm_world d') = Some st' \<and> store_wf st' \<and> st_path st' = path"
    if "Allocate E bindable (rm_alloc (dm_Runtime d)) name preferred (dm_world d) = (dm_world d', r)" for r
    using stores_Allocate [OF _ _ _ assms(2) st(1,2) that] assms(1) st(3) by (simp add: stores_def Let_def)
  from assms(3) show ?thesis
    by (cases rule: EnsureTCPRuntime_cases) (use assms(1) alloc in \<open>auto simp: stores_def\<close>)
qed

lemma run_holds:
  assumes "holds L (fst s)" "stores path (fst s)" "\<forall>ev \<in> set evs. ev_int64 ev"
  shows "holds L (fst (run evs s)) \<and> stores path (fst (run evs s)) \<and> proxies (fst (run evs s)) = proxies (fst s)"
  using assms
proof (induction evs arbitrary: s)
  case Nil
  then show ?case by (simp add: run_def)
next
  case (Cons ev evs)
  obtain d' P' where a: "apply_ev ev (fst s, snd s) = (d', P')" by fastforce
  note ev = event_sockets [OF a]
  have "holds L d' \<and> stores path d'"
  proof (cases "dm_Runtime d' = dm_Runtime (fst s) \<and> dm_world d' = dm_world (fst s)")
    case True
    with ev Cons.prems show ?thesis by (simp add: holds_def stores_def own_sockets_def proxies_def)
  next
    case False
    then obtain R p x where R: "ev = EvRegister R p" "EnsureTCPRuntime (re_io R) (re_bindable R) (rp_Name p)
      (rp_PreferredPort p) (dm_Runtime (fst s)) (dm_world (fst s)) = (dm_Runtime d', dm_world d', x)"
      using ev by blast
    then show ?thesis using Cons.prems holds_Ensure [OF _ R(2)] stores_Ensure [OF _ _ R(2)] ev by simp
  qed
  with Cons.IH [of "(d', P')"] Cons.prems(3) a ev show ?case by (simp add: run_def)
qed

subsection \<open>A daemon's life\<close>

lemma bind_sockets:
  assumes "bindProxyListeners bindable d = (d', err)" "dm_httpListener d = None" "dm_httpsListener d = None"
    "rm_runtimes (dm_Runtime d) = []"
  shows "holds (set (wd_listeners (dm_world d))) d'"
  using assms
  by (auto simp: bindProxyListeners_def Let_def net_Listen_def net_Close_def holds_def own_sockets_def
      split: if_splits option.splits)

lemma New_holds:
  assumes "Daemon_New N cfg files lns = (files', lns', Inr d)"
  shows "holds (set lns) d \<and> (\<exists>path. stores path d) \<and> lns' = wd_listeners (dm_world d)"
proof -
  have "lns' = wd_listeners (dm_world d)"
    using assms by (auto simp: Daemon_New_def Let_def split: option.splits sum.splits prod.splits if_splits)
  with assms show ?thesis
  proof (cases rule: Daemon_New_cases)
    case (1 st scheme port cfg d0)
    have "rm_runtimes (dm_Runtime d0) = []" using 1 by (simp add: NewRuntimeManager_def)
    with bind_sockets [OF 1(3)] 1 have "holds (set lns) d" by simp
    moreover have "dm_Runtime d = dm_Runtime d0 \<and> wd_state (dm_world d) = Some st"
      using 1 by (auto simp: bindProxyListeners_def Let_def split: if_splits option.splits)
    then have "stores (cf_StatePath cfg) d"
      using 1 Load_wf [OF 1(2)]
      by (auto simp: stores_def NewRuntimeManager_def NewAllocator_def Config_Validate_def split: if_splits)
    ultimately show ?thesis using \<open>lns' = _\<close> by blast
  qed
qed

lemma bind_failed_releases:
  assumes "bindProxyListeners bindable d = (d', Some err)" "dm_httpListener d = None"
  shows "set (wd_listeners (dm_world d')) = set (wd_listeners (dm_world d))"
  using assms by (auto simp: bindProxyListeners_def Let_def net_Listen_def net_Close_def split: if_splits option.splits)

lemma New_failed_releases:
  assumes "Daemon_New N cfg files lns = (files', lns', Inl err)"
  shows "set lns' = set lns"
proof -
  have "lns' = lns \<or> (\<exists>d0 d. bindProxyListeners (ne_bindable N) d0 = (d, Some err) \<and> lns' = wd_listeners (dm_world d) \<and>
      wd_listeners (dm_world d0) = lns \<and> dm_httpListener d0 = None)"
    using assms unfolding Daemon_New_def Let_def
    apply (simp split: option.split_asm sum.split_asm prod.split_asm)
    apply (intro disjI2 exI conjI, assumption, simp_all)
    done
  then show ?thesis using bind_failed_releases by blast
qed

lemma Start_keeps [simp]:
  "holds L (Start ok d) = holds L d" "stores path (Start ok d) = stores path d" "snd (snd (proxies (Start ok d)))"
  by (simp_all add: Start_def StartDockerWatcher_def SetDockerStatus_def holds_def own_sockets_def stores_def proxies_def)

lemma set_close_opt: "set (close_opt lo lns) = set lns - set_option lo"
  by (auto simp: close_opt_def net_Close_def split: option.splits)

lemma Shutdown_cases:
  assumes "wd_state (dm_world d) = Some st" "Shutdown E d = (d', err)"
  obtains m w1 w2 st' where "Runtime_Shutdown (dm_Runtime d) w1 = (m, w2)" "dm_Runtime d' = m"
    "wd_listeners (dm_world d') = wd_listeners w2" "Save E (wd_files (dm_world d)) st = (wd_files (dm_world d'), st', err)"
    "wd_listeners w1 = (if dm_started d then close_opt (dm_httpsListener d) (close_opt (dm_httpListener d) (wd_listeners (dm_world d)))
                        else wd_listeners (dm_world d))"
proof -
  define w1 where "w1 = (if dm_started d then (dm_world d)\<lparr>wd_listeners := close_opt (dm_httpsListener d)
      (close_opt (dm_httpListener d) (wd_listeners (dm_world d)))\<rparr> else dm_world d)"
  have w1: "wd_state w1 = Some st" "wd_files w1 = wd_files (dm_world d)" using assms(1) by (simp_all add: w1_def)
  obtain m w2 where R: "Runtime_Shutdown (dm_Runtime d) w1 = (m, w2)" by fastforce
  have "wd_state (fold close_listener rts w) = wd_state w \<and> wd_files (fold close_listener rts w) = wd_files w" for rts w
    by (induction rts arbitrary: w) (simp_all add: close_listener_def)
  with R w1 have keep: "wd_state w2 = Some st" "wd_files w2 = wd_files (dm_world d)"
    by (auto simp: Runtime_Shutdown_def Let_def)
  obtain f st' e where S: "Save E (wd_files (dm_world d)) st = (f, st', e)" by (metis prod_cases3)
  have "d' = d\<lparr>dm_Runtime := m, dm_world := w2\<lparr>wd_files := f, wd_state := Some st'\<rparr>\<rparr>" "err = e"
    using assms(2) [unfolded Shutdown_def Let_def, folded w1_def, unfolded R] keep S by auto
  with R S show thesis by (intro that [of w1 m w2 st']) (simp_all add: w1_def)
qed

lemma Shutdown_releases:
  assumes "holds L d" "dm_started d" "wd_state (dm_world d) = Some st" "Shutdown E d = (d', err)"
  shows "set (wd_listeners (dm_world d')) = L \<and> (\<exists>st'. Save E (wd_files (dm_world d)) st = (wd_files (dm_world d'), st', err))"
  using assms(3,4)
proof (cases rule: Shutdown_cases)
  case (1 m w1 w2 st')
  have "set (wd_listeners w2) = set (wd_listeners (dm_world d)) - own_sockets d"
    using Shutdown_closes(2) [OF 1(1)] 1(5) assms(2) by (auto simp: set_close_opt own_sockets_def)
  with 1(3,4) assms(1) show ?thesis by (auto simp: holds_def)
qed

lemma serve_Run_ends:
  assumes "serve_Run E s H = (H', err)" "\<nexists>e. err = Some (ListenFailed e)"
  obtains (early) "set (ho_listeners H') = set (ho_listeners H)" "err \<noteq> None"
  | (served) d d' save_err where "served E s H = Some (sv_life E (Start (sv_docker_ok E) d))" "holds (set (ho_listeners H)) d"
      "\<exists>path. stores path d" "Shutdown (sv_io E) (sv_life E (Start (sv_docker_ok E) d)) = (d', save_err)"
      "ho_files H' = wd_files (dm_world d')" "ho_listeners H' = wd_listeners (dm_world d')"
      "ho_socket H' = RemoveSocket (sv_sock E) (sv_others E None)" "err = None \<longrightarrow> save_err = None"
proof (cases "configFromSettings E s")
  case (Inl e)
  with assms(1) show thesis by (intro early) (auto simp: serve_Run_def)
next
  case (Inr cfg)
  show thesis
  proof (cases "Config_Validate cfg")
    case (Some e)
    with Inr assms(1) show thesis by (intro early) (auto simp: serve_Run_def)
  next
    case None
    obtain files lns r where N: "Daemon_New (sv_new E) cfg (ho_files H) (ho_listeners H) = (files, lns, r)"
      by (metis prod_cases3)
    show thesis
    proof (cases r)
      case (Inl e)
      have "ho_listeners H' = lns \<and> err \<noteq> None"
        using assms(1) [unfolded serve_Run_def Inr None N Inl sum.case option.case prod.case] by auto
      then show thesis using New_failed_releases [OF N [unfolded Inl]] by (intro early) simp_all
    next
      case d: (Inr d)
      note cases = assms(1) [unfolded serve_Run_def Inr None N d sum.case option.case prod.case]
      from cases assms(2) have "serve_until_end E d = (H', err)" by (auto split: prod.splits sum.splits)
      moreover obtain d' save_err where S: "Shutdown (sv_io E) (sv_life E (Start (sv_docker_ok E) d)) = (d', save_err)"
        by fastforce
      moreover have "served E s H = Some (sv_life E (Start (sv_docker_ok E) d))" by (simp add: served_def Inr N d)
      ultimately show thesis
        using New_holds [of "sv_new E" cfg "ho_files H" "ho_listeners H" files lns d] N d
        by (intro served [of d d' save_err]) (auto simp: serve_until_end_def split: if_splits)
    qed
  qed
qed

text \<open>C35: A whole life of the daemon, from the command line to the end of the process. Whatever
  registrations, heartbeats, deletions and expiries it serves, at the end exactly the ports it
  opened are closed again and no other; only a failure to listen on the socket returns with the
  proxies still bound. After a successful shutdown the socket path is removed and the state file
  makes the next daemon remember the port of every service as this one did.\<close>

theorem serve_lifecycle:
  assumes "sv_life E = (\<lambda>d. fst (run evs (d, [])))" "\<forall>ev \<in> set evs. ev_int64 ev"
    and "serve_Run E s H = (H', err)" "\<nexists>e. err = Some (ListenFailed e)"
  shows "set (ho_listeners H') = set (ho_listeners H) \<and>
    (err = None \<longrightarrow>
      (\<exists>d st. served E s H = Some d \<and> wd_state (dm_world d) = Some st \<and>
        (sv_others E None = None \<longrightarrow> ho_socket H' = None) \<and>
        (fresh_tmp (sv_io E) (wd_files (dm_world d)) st \<longrightarrow>
          (\<forall>E2. \<not> io_ReadErr E2 \<longrightarrow> \<not> io_BackupErr E2 \<longrightarrow>
            (\<exists>files' st'. Load E2 (ho_files H') (st_path st) = (files', Inr st') \<and> Port st' = Port st)))))"
  using assms(3,4)
proof (cases rule: serve_Run_ends)
  case early
  then show ?thesis by blast
next
  case (served d d' save_err)
  let ?d = "fst (run evs (Start (sv_docker_ok E) d, []))"
  obtain path where "stores path (Start (sv_docker_ok E) d)" using served(3) by auto
  with run_holds [of "set (ho_listeners H)" "(Start (sv_docker_ok E) d, [])" path evs] served(2) assms(2)
  have h: "holds (set (ho_listeners H)) ?d" "stores path ?d" "proxies ?d = proxies (Start (sv_docker_ok E) d)" by auto
  then have started: "dm_started ?d" using Start_keeps(3) [of "sv_docker_ok E" d] by (simp add: proxies_def)
  obtain st where st: "wd_state (dm_world ?d) = Some st" "store_wf st" using h(2) by (auto simp: stores_def)
  have S: "Shutdown (sv_io E) ?d = (d', save_err)" using served(4) assms(1) by simp
  from Shutdown_releases [OF h(1) started st(1) S] obtain st' where
    rel: "set (wd_listeners (dm_world d')) = set (ho_listeners H)"
      "Save (sv_io E) (wd_files (dm_world ?d)) st = (wd_files (dm_world d'), st', save_err)" by blast
  have "\<exists>files' st'. Load E2 (ho_files H') (st_path st) = (files', Inr st') \<and> Port st' = Port st"
    if "fresh_tmp (sv_io E) (wd_files (dm_world ?d)) st" "err = None" "\<not> io_ReadErr E2" "\<not> io_BackupErr E2" for E2
  proof -
    have sv: "Save (sv_io E) (wd_files (dm_world ?d)) st = (wd_files (dm_world d'), st', None)" using rel(2) that(2) served(8) by simp
    from Save_ok [OF st(2) that(1) sv] have "reloads (wd_files (dm_world d')) st'" "Port st' = Port st"
      by (auto simp: store_inv_def)
    moreover have "st_path st' = st_path st" using sv by (auto simp: Save_def split: prod.splits option.splits)
    ultimately show ?thesis using Load_any_env [OF _ that(3,4), of "wd_files (dm_world d')" st'] served(5) by simp
  qed
  then show ?thesis
    using rel(1) served(1,6,7) st(1) assms(1) by (auto simp: RemoveSocket_def)
qed

lemma sample_serve_new:
  "\<exists>d cfg. configFromSettings (sample_serve evs others) NewServeCommand = Inr cfg \<and> Config_Validate cfg = None \<and>
     Daemon_New sample_new cfg Map.empty lns = (Map.empty, lns, Inr d) \<and> dm_world d = \<lparr>wd_files = Map.empty, wd_state = Some sample_state, wd_listeners = lns\<rparr>"
proof -
  let ?E = "sample_serve evs others"
  define cfg where "cfg = Default\<lparr>cf_Socket := DefaultSocketPath (sv_UserHomeDir ?E) (sv_TempDir ?E),
    cf_StatePath := DefaultStatePath (sv_UserConfigDir ?E) (sv_UserHomeDir ?E)\<rparr>"
  have v: "Config_Validate cfg = None" using default_settings_valid by (simp add: cfg_def)
  moreover have "listenerPort ''127.0.0.1:8088'' = Some 8088" by code_simp
  moreover have p: "DefaultStatePath None (Some ''/h'') = ''/h/.config/devmesh/state.json''" by code_simp
  ultimately have "\<exists>d. Daemon_New sample_new cfg Map.empty lns = (Map.empty, lns, Inr d) \<and> dm_world d = \<lparr>wd_files = Map.empty, wd_state = Some sample_state, wd_listeners = lns\<rparr>"
    by (simp add: Daemon_New_def cfg_def sample_serve_def sample_new_def Default_def Load_def calm_def loadTLS_def bindProxyListeners_def
        Let_def sample_state_def)
  with v default_settings [of ?E] show ?thesis unfolding cfg_def by blast
qed

lemma Register_http_world:
  assumes "rp_Kind p = KindHTTP"
  shows "dm_world (fst (Register R p d)) = dm_world d"
proof -
  obtain d' r where R: "Register R p d = (d', r)" by fastforce
  have k: "pl_kind (reg_plan R p d) = KindHTTP" using assms by (simp add: reg_plan_def Let_def)
  from R have "dm_world d' = dm_world d"
    by (cases rule: Register_cases) (use k in \<open>auto simp: reg_frontend_def\<close>)
  with R show ?thesis by simp
qed

lemma sample_life_world: "dm_world (fst (run sample_life (d, P))) = dm_world d"
  by (simp add: run_def sample_life_def Register_http_world split: prod.split)

lemma sample_serve_run:
  obtains d H' where "serve_Run (sample_serve sample_life others) NewServeCommand sample_host = (H', None)"
    "served (sample_serve sample_life others) NewServeCommand sample_host = Some d"
    "wd_state (dm_world d) = Some sample_state" "wd_files (dm_world d) = Map.empty"
    "ho_socket H' = RemoveSocket (sv_sock (sample_serve sample_life others)) (others None)"
proof -
  let ?E = "sample_serve sample_life others"
  obtain d cfg where N: "configFromSettings ?E NewServeCommand = Inr cfg" "Config_Validate cfg = None"
    "Daemon_New sample_new cfg Map.empty [''127.0.0.1:16000''] = (Map.empty, [''127.0.0.1:16000''], Inr d)"
    "dm_world d = \<lparr>wd_files = Map.empty, wd_state = Some sample_state, wd_listeners = [''127.0.0.1:16000'']\<rparr>"
    using sample_serve_new by blast
  let ?d = "sv_life ?E (Start (sv_docker_ok ?E) d)"
  have w: "dm_world ?d = dm_world d"
    by (simp add: sample_serve_def sample_life_world Start_def StartDockerWatcher_def SetDockerStatus_def)
  obtain d' err where S': "Shutdown calm ?d = (d', err)" by fastforce
  have "snd (saveLocked calm Map.empty sample_state) = None"
    by (rule saveLocked_calm) (simp_all add: fresh_tmp_def calm_def sample_state_def)
  then have "snd (snd (Save calm Map.empty sample_state)) = None" by (auto simp: Save_def split: prod.split option.split)
  moreover have "wd_state (dm_world ?d) = Some sample_state" using w N(4) by simp
  then obtain st' where "Save calm (wd_files (dm_world ?d)) sample_state = (wd_files (dm_world d'), st', err)"
    using Shutdown_cases [OF _ S'] by metis
  then have "Save calm Map.empty sample_state = (wd_files (dm_world d'), st', err)" using w N(4) by simp
  ultimately have "err = None" by simp
  with S' have S: "Shutdown calm ?d = (d', None)" by simp
  have "Listen (sv_sock ?E) 1 (Some (Socket None True)) = (Some (Socket (Some 1) True), Inr ())"
    by (simp add: Listen_def bind_socket_def sample_serve_def)
  then have "\<exists>H'. serve_Run ?E NewServeCommand sample_host = (H', None) \<and> ho_socket H' = RemoveSocket (sv_sock ?E) (others None)"
    using N S by (simp add: serve_Run_def sample_host_def serve_until_end_def) (simp add: sample_serve_def)
  moreover have "served ?E NewServeCommand sample_host = Some ?d"
    using N by (simp add: served_def sample_host_def) (simp add: sample_serve_def)
  ultimately show thesis using that [of _ ?d] w N(4) by auto
qed

theorem serve_lifecycle_witness:
  "\<exists>H' files' st'. serve_Run (sample_serve sample_life (\<lambda>n. n)) NewServeCommand sample_host = (H', None) \<and>
     set (ho_listeners H') = {''127.0.0.1:16000''} \<and> ho_socket H' = None \<and>
     Load calm (ho_files H') ''/h/.config/devmesh/state.json'' = (files', Inr st') \<and> Port st' ''web'' = 0"
proof -
  let ?E = "sample_serve sample_life (\<lambda>n. n)"
  obtain d H' where r: "serve_Run ?E NewServeCommand sample_host = (H', None)" "served ?E NewServeCommand sample_host = Some d"
    "wd_state (dm_world d) = Some sample_state" "wd_files (dm_world d) = Map.empty"
    using sample_serve_run by metis
  have life: "sv_life ?E = (\<lambda>d. fst (run sample_life (d, [])))" and others: "sv_others ?E None = None" and io: "sv_io ?E = calm"
    by (simp_all add: sample_serve_def)
  have "\<forall>ev \<in> set sample_life. ev_int64 ev" by (simp add: sample_life_def tcp_params_def)
  from serve_lifecycle [OF life this r(1)] r(2-4) others io
  have "set (ho_listeners H') = set (ho_listeners sample_host)" "ho_socket H' = None"
    "fresh_tmp calm Map.empty sample_state \<Longrightarrow> \<not> io_ReadErr calm \<Longrightarrow> \<not> io_BackupErr calm \<Longrightarrow>
      \<exists>files' st'. Load calm (ho_files H') (st_path sample_state) = (files', Inr st') \<and> Port st' = Port sample_state"
    by auto
  moreover have "fresh_tmp calm Map.empty sample_state" "\<not> io_ReadErr calm" "\<not> io_BackupErr calm"
    "Port sample_state ''web'' = 0" "st_path sample_state = ''/h/.config/devmesh/state.json''"
    by (simp_all add: fresh_tmp_def calm_def sample_state_def Port_def ports_of_def)
  ultimately show ?thesis using r(1) by (metis empty_set host.select_convs(2) list.simps(15) sample_host_def)
qed

text \<open>C36: The deferred \<open>RemoveSocket\<close> does not look whose socket it removes. Closing the listener has
  already unlinked the daemon's own socket; when another daemon starts listening at the path
  before the old one has finished its shutdown, the old one removes the new daemon's socket and
  still reports success. The new daemon serves a socket no client can reach.\<close>

theorem shutdown_removes_successor:
  assumes "serve_Run E s H = (H', None)" "se_remove (sv_sock E)"
    and "Listen E2 pid2 None = (node, Inr ())" "sv_others E = (\<lambda>at_path. fst (Listen E2 pid2 at_path))"
  shows "sv_others E None = Some (Socket (Some pid2) True) \<and> ho_socket H' = None"
proof -
  have "node = Some (Socket (Some pid2) True)"
    using assms(3) by (auto simp: Listen_def bind_socket_def split: if_splits)
  moreover from assms(1) have "ho_socket H' = RemoveSocket (sv_sock E) (sv_others E None)"
    by (cases rule: serve_Run_ends) auto
  ultimately show ?thesis using assms by (simp add: RemoveSocket_def)
qed

theorem shutdown_removes_successor_witness:
  "\<exists>H'. serve_Run (sample_serve sample_life (\<lambda>n. fst (Listen (sv_sock (sample_serve [] id)) 2 n))) NewServeCommand sample_host = (H', None) \<and>
     ho_socket H' = None"
proof -
  let ?L = "\<lambda>n. fst (Listen (sv_sock (sample_serve [] id)) 2 n)"
  obtain H' where r: "serve_Run (sample_serve sample_life ?L) NewServeCommand sample_host = (H', None)"
    using sample_serve_run by metis
  have "Listen (sv_sock (sample_serve [] id)) 2 None = (Some (Socket (Some 2) True), Inr ())"
    by (simp add: Listen_def bind_socket_def sample_serve_def)
  from shutdown_removes_successor [OF r _ this] r show ?thesis by (simp add: sample_serve_def)
qed

end
