(* ===== verification/Cli.thy ===== *)
theory Cli
  imports Client Docker_Inspect Go_Duration
begin

text \<open>
  \<open>cmd/devmesh/cmds\<close>: the command-line client. Every command gets its decoded settings (Glazed's
  parsing is a parameter), talks to the daemon through the transport client and emits rows.
  \<open>net\<close> gives the server that a client with these settings reaches; \<open>gp\<close> says whether Glazed's
  processor accepts a row after those it has already got. Texts of errors are parameters where
  they are shown in a row and left out elsewhere.
\<close>

section \<open>Definitions\<close>

subsection \<open>Decoding the answers (internal/api/dto.go)\<close>

definition ServiceDTO0 :: ServiceDTO where
  "ServiceDTO0 = \<lparr>sd_Name = [], sd_Kind = [], sd_AppProtocol = [], sd_Status = [], sd_Frontend = FrontendDTO0\<rparr>"

definition ServiceDTO_fields :: "string list" where
  "ServiceDTO_fields = [''name'', ''kind'', ''app_protocol'', ''status'', ''frontend'']"

definition set_ServiceDTO :: "string \<Rightarrow> json \<Rightarrow> ServiceDTO \<Rightarrow> ServiceDTO option" where
  "set_ServiceDTO f j s =
     (if f = ''name'' then map_option (\<lambda>v. s\<lparr>sd_Name := v\<rparr>) (dec_string (sd_Name s) j)
      else if f = ''kind'' then map_option (\<lambda>v. s\<lparr>sd_Kind := v\<rparr>) (dec_string (sd_Kind s) j)
      else if f = ''app_protocol'' then map_option (\<lambda>v. s\<lparr>sd_AppProtocol := v\<rparr>) (dec_string (sd_AppProtocol s) j)
      else if f = ''status'' then map_option (\<lambda>v. s\<lparr>sd_Status := v\<rparr>) (dec_string (sd_Status s) j)
      else map_option (\<lambda>v. s\<lparr>sd_Frontend := v\<rparr>) (dec_FrontendDTO (sd_Frontend s) j))"

definition dec_ServiceDTO :: "ServiceDTO \<Rightarrow> json \<Rightarrow> ServiceDTO option" where
  "dec_ServiceDTO = dec_struct ServiceDTO_fields False set_ServiceDTO"

text \<open>
  A slice is its backing array and its length: \<open>encoding/json\<close> decodes an array into the elements
  the slice already has room for, and into zero values beyond.
\<close>

fun dec_elems :: "('a \<Rightarrow> json \<Rightarrow> 'a option) \<Rightarrow> 'a \<Rightarrow> 'a list \<Rightarrow> json list \<Rightarrow> 'a list option" where
  "dec_elems dec z old [] = Some old"
| "dec_elems dec z old (j # arr) =
     (case dec (case old of [] \<Rightarrow> z | x # _ \<Rightarrow> x) j of
        None \<Rightarrow> None
      | Some v \<Rightarrow> map_option (\<lambda>vs. v # vs) (dec_elems dec z (tl old) arr))"

definition dec_slice :: "('a \<Rightarrow> json \<Rightarrow> 'a option) \<Rightarrow> 'a \<Rightarrow> 'a list \<times> nat \<Rightarrow> json \<Rightarrow> ('a list \<times> nat) option" where
  "dec_slice dec z old j =
     (case j of
        JNull \<Rightarrow> Some ([], 0)
      | JArr arr \<Rightarrow> if arr = [] then Some ([], 0) else map_option (\<lambda>vs. (vs, length arr)) (dec_elems dec z (fst old) arr)
      | _ \<Rightarrow> None)"

definition dec_ListResponse :: "json \<Rightarrow> ServiceDTO list option" where
  "dec_ListResponse j =
     map_option (\<lambda>(vs, n). take n vs)
       (dec_struct [''services''] False (\<lambda>_ j old. dec_slice dec_ServiceDTO ServiceDTO0 old j) ([], 0) j)"

definition dec_HealthResponse :: "json \<Rightarrow> HealthResponse option" where
  "dec_HealthResponse =
     dec_struct [''status'', ''version'', ''docker''] False
       (\<lambda>f j h. if f = ''status'' then map_option (\<lambda>v. h\<lparr>he_Status := v\<rparr>) (dec_string (he_Status h) j)
                else if f = ''version'' then map_option (\<lambda>v. h\<lparr>he_Version := v\<rparr>) (dec_string (he_Version h) j)
                else map_option (\<lambda>v. h\<lparr>he_Docker := v\<rparr>) (dec_string (he_Docker h) j))
       \<lparr>he_Status = [], he_Version = [], he_Docker = []\<rparr>"

definition InspectDTO0 :: InspectDTO where
  "InspectDTO0 =
     \<lparr>it_Name = [], it_Kind = [], it_AppProtocol = [], it_Status = [], it_Frontend = FrontendDTO0, it_Backend = None,
      it_Source = [], it_OwnerKey = [], it_ProducerID = [], it_DockerContainerID = [], it_Hostname = []\<rparr>"

definition InspectDTO_fields :: "string list" where
  "InspectDTO_fields =
     [''name'', ''kind'', ''app_protocol'', ''status'', ''frontend'', ''backend'', ''source'', ''owner_key'', ''producer_id'',
      ''docker_container_id'', ''hostname'']"

text \<open>\<open>null\<close> clears a pointer; an object is decoded into what it points to, or into a new zero value.\<close>

definition dec_BackendPtr :: "BackendDTO option \<Rightarrow> json \<Rightarrow> BackendDTO option option" where
  "dec_BackendPtr old j =
     (if j = JNull then Some None
      else map_option Some (dec_BackendDTO False (case old of None \<Rightarrow> \<lparr>bd_Host = [], bd_Port = 0\<rparr> | Some b \<Rightarrow> b) j))"

definition set_InspectDTO :: "string \<Rightarrow> json \<Rightarrow> InspectDTO \<Rightarrow> InspectDTO option" where
  "set_InspectDTO f j s =
     (if f = ''name'' then map_option (\<lambda>v. s\<lparr>it_Name := v\<rparr>) (dec_string (it_Name s) j)
      else if f = ''kind'' then map_option (\<lambda>v. s\<lparr>it_Kind := v\<rparr>) (dec_string (it_Kind s) j)
      else if f = ''app_protocol'' then map_option (\<lambda>v. s\<lparr>it_AppProtocol := v\<rparr>) (dec_string (it_AppProtocol s) j)
      else if f = ''status'' then map_option (\<lambda>v. s\<lparr>it_Status := v\<rparr>) (dec_string (it_Status s) j)
      else if f = ''frontend'' then map_option (\<lambda>v. s\<lparr>it_Frontend := v\<rparr>) (dec_FrontendDTO (it_Frontend s) j)
      else if f = ''backend'' then map_option (\<lambda>v. s\<lparr>it_Backend := v\<rparr>) (dec_BackendPtr (it_Backend s) j)
      else if f = ''source'' then map_option (\<lambda>v. s\<lparr>it_Source := v\<rparr>) (dec_string (it_Source s) j)
      else if f = ''owner_key'' then map_option (\<lambda>v. s\<lparr>it_OwnerKey := v\<rparr>) (dec_string (it_OwnerKey s) j)
      else if f = ''producer_id'' then map_option (\<lambda>v. s\<lparr>it_ProducerID := v\<rparr>) (dec_string (it_ProducerID s) j)
      else if f = ''docker_container_id''
      then map_option (\<lambda>v. s\<lparr>it_DockerContainerID := v\<rparr>) (dec_string (it_DockerContainerID s) j)
      else map_option (\<lambda>v. s\<lparr>it_Hostname := v\<rparr>) (dec_string (it_Hostname s) j))"

definition dec_InspectDTO :: "json \<Rightarrow> InspectDTO option" where
  "dec_InspectDTO = dec_struct InspectDTO_fields False set_InspectDTO InspectDTO0"

subsection \<open>Connection settings (daemonconn)\<close>

record conn_settings =
  dc_Socket :: string
  dc_Timeout :: string

record cli_env =
  cl_UserHomeDir :: "string option"
  cl_TempDir :: string
  cl_round :: "rat \<Rightarrow> rat"

definition Settings_Client :: "cli_env \<Rightarrow> conn_settings \<Rightarrow> Client" where
  "Settings_Client V s =
     (let timeout = (if dc_Timeout s \<noteq> []
                     then (case ParseDuration (cl_round V) (dc_Timeout s) of Some d \<Rightarrow> d | None \<Rightarrow> 5 * Second)
                     else 5 * Second);
          socket = (if dc_Socket s = [] then DefaultSocketPath (cl_UserHomeDir V) (cl_TempDir V) else dc_Socket s) in
      NewClient socket timeout)"

subsection \<open>Results\<close>

type_synonym row = "(string \<times> string) list"

datatype cli_error =
    RequestError transport_error
  | WaitInvalid
  | NoBackend
  | Interrupted
  | RowRejected
  | ChecksFailed
  | BackendAddressInvalid
  | RegistrationFailed register_error

datatype shown = Rows "row list" | Line string

text \<open>What a command has written and how it ends.\<close>

type_synonym cli_result = "shown \<times> cli_error option"

definition AddRow :: "(row list \<Rightarrow> row \<Rightarrow> bool) \<Rightarrow> row \<Rightarrow> row list \<Rightarrow> row list \<times> cli_error option" where
  "AddRow gp r rows = (if gp rows r then (rows @ [r], None) else (rows, Some RowRejected))"

definition one_row :: "(row list \<Rightarrow> row \<Rightarrow> bool) \<Rightarrow> row \<Rightarrow> cli_result" where
  "one_row gp r = (case AddRow gp r [] of (rows, err) \<Rightarrow> (Rows rows, err))"

definition fails :: "cli_error \<Rightarrow> cli_result" where
  "fails e = (Rows [], Some e)"

subsection \<open>services list\<close>

definition services_Endpoint :: "string \<Rightarrow> int \<Rightarrow> string" where
  "services_Endpoint host port = (if port = 0 then [] else JoinHostPort host (Itoa port))"

definition EndpointOf :: "FrontendDTO \<Rightarrow> string" where
  "EndpointOf f = (if fd_URL f \<noteq> [] then fd_URL f else services_Endpoint (fd_Host f) (fd_Port f))"

record ListSettings =
  ls_NameFilter :: string
  ls_Status :: string

definition list_row :: "ServiceDTO \<Rightarrow> row" where
  "list_row svc =
     [(''name'', sd_Name svc), (''kind'', sd_Kind svc), (''app_protocol'', sd_AppProtocol svc), (''status'', sd_Status svc),
      (''endpoint'', EndpointOf (sd_Frontend svc))]"

fun list_loop :: "(row list \<Rightarrow> row \<Rightarrow> bool) \<Rightarrow> ListSettings \<Rightarrow> ServiceDTO list \<Rightarrow> row list \<Rightarrow> row list \<times> cli_error option" where
  "list_loop gp s [] rows = (rows, None)"
| "list_loop gp s (svc # svcs) rows =
     (if ls_NameFilter s \<noteq> [] \<and> \<not> Contains (sd_Name svc) (ls_NameFilter s) then list_loop gp s svcs rows
      else if ls_Status s \<noteq> [] \<and> sd_Status svc \<noteq> ls_Status s then list_loop gp s svcs rows
      else (case AddRow gp (list_row svc) rows of
              (rows', Some err) \<Rightarrow> (rows', Some err)
            | (rows', None) \<Rightarrow> list_loop gp s svcs rows'))"

definition list_Run ::
  "cli_env \<Rightarrow> (Client \<Rightarrow> 'w server) \<Rightarrow> (row list \<Rightarrow> row \<Rightarrow> bool) \<Rightarrow> conn_settings \<Rightarrow> ListSettings \<Rightarrow> 'w \<Rightarrow> 'w \<times> cli_result" where
  "list_Run V net gp ds s w =
     (case Do (net (Settings_Client V ds)) ''GET'' ''/v1/services'' None (Some dec_ListResponse) [] w of
        (w', Inl err) \<Rightarrow> (w', fails (RequestError err))
      | (w', Inr svcs) \<Rightarrow> (w', case list_loop gp s svcs [] of (rows, err) \<Rightarrow> (Rows rows, err)))"

subsection \<open>services inspect\<close>

definition inspect_row :: "InspectDTO \<Rightarrow> row" where
  "inspect_row svc =
     [(''name'', it_Name svc), (''kind'', it_Kind svc), (''status'', it_Status svc), (''frontend'', EndpointOf (it_Frontend svc)),
      (''backend'', case it_Backend svc of None \<Rightarrow> [] | Some b \<Rightarrow> services_Endpoint (bd_Host b) (bd_Port b)),
      (''source'', it_Source svc), (''owner_key'', it_OwnerKey svc), (''producer_id'', it_ProducerID svc),
      (''docker_container_id'', it_DockerContainerID svc)]"

definition inspect_Run ::
  "cli_env \<Rightarrow> (Client \<Rightarrow> 'w server) \<Rightarrow> (row list \<Rightarrow> row \<Rightarrow> bool) \<Rightarrow> conn_settings \<Rightarrow> string \<Rightarrow> 'w \<Rightarrow> 'w \<times> cli_result" where
  "inspect_Run V net gp ds name w =
     (case Do (net (Settings_Client V ds)) ''GET'' (''/v1/services/'' @ name @ ''/inspect'') None (Some dec_InspectDTO) InspectDTO0 w of
        (w', Inl err) \<Rightarrow> (w', fails (RequestError err))
      | (w', Inr svc) \<Rightarrow> (w', one_row gp (inspect_row svc)))"

subsection \<open>health\<close>

definition health_Run ::
  "cli_env \<Rightarrow> (Client \<Rightarrow> 'w server) \<Rightarrow> (row list \<Rightarrow> row \<Rightarrow> bool) \<Rightarrow> conn_settings \<Rightarrow> 'w \<Rightarrow> 'w \<times> cli_result" where
  "health_Run V net gp ds w =
     (case Do (net (Settings_Client V ds)) ''GET'' ''/v1/health'' None (Some dec_HealthResponse)
             \<lparr>he_Status = [], he_Version = [], he_Docker = []\<rparr> w of
        (w', Inl err) \<Rightarrow> (w', fails (RequestError err))
      | (w', Inr h) \<Rightarrow>
          (w', one_row gp [(''status'', he_Status h), (''version'', he_Version h), (''docker'', he_Docker h)]))"

subsection \<open>services resolve\<close>

record ResolveSettings =
  rs_Name :: string
  rs_Raw :: bool
  rs_Wait :: string

definition retryInterval :: duration where
  "retryInterval = 250 * Millisecond"

definition retryableLookupError :: "transport_error \<Rightarrow> bool" where
  "retryableLookupError err = (case err of ApiError status _ _ \<Rightarrow> status = 404 \<or> status \<ge> 500 | _ \<Rightarrow> True)"

text \<open>
  One round of the loop: what happened since the last one, who answers, the clock after the
  answer, and whether the context ends in the sleep.
\<close>

record 'w attempt =
  ap_meanwhile :: "'w \<Rightarrow> 'w"
  ap_server :: "'w server"
  ap_now :: gotime
  ap_cancelled :: bool

definition resolve_row :: "ServiceDTO \<Rightarrow> string \<Rightarrow> row" where
  "resolve_row svc endpoint =
     [(''name'', sd_Name svc), (''kind'', sd_Kind svc), (''status'', sd_Status svc), (''endpoint'', endpoint)]"

text \<open>What a round does with the answer: \<open>None\<close> is \<open>continue\<close>.\<close>

definition resolve_round ::
  "(row list \<Rightarrow> row \<Rightarrow> bool) \<Rightarrow> bool \<Rightarrow> duration \<Rightarrow> gotime \<Rightarrow> gotime \<Rightarrow> bool \<Rightarrow> (transport_error, ServiceDTO) result
     \<Rightarrow> cli_result option" where
  "resolve_round gp raw wait deadline now cancelled r =
     (case r of
        Inr svc \<Rightarrow>
          (let endpoint = (if fd_URL (sd_Frontend svc) \<noteq> [] then fd_URL (sd_Frontend svc)
                           else services_Endpoint (fd_Host (sd_Frontend svc)) (fd_Port (sd_Frontend svc))) in
           if sd_Status svc = ''ready'' \<or> (wait = 0 \<and> \<not> raw) then
             if raw then
               if sd_Status svc \<noteq> ''ready'' then Some (fails NoBackend) else Some (Line endpoint, None)
             else Some (one_row gp (resolve_row svc endpoint))
           else if wait > 0 \<and> deadline - now > 0 then
             if cancelled then Some (fails Interrupted) else None
           else if raw then Some (fails NoBackend)
           else Some (one_row gp (resolve_row svc endpoint)))
      | Inl err \<Rightarrow>
          if wait > 0 \<and> deadline - now > 0 \<and> retryableLookupError err then
            if cancelled then Some (fails Interrupted) else None
          else Some (fails (RequestError err)))"

text \<open>The loop over the rounds that there were; without a result it is still running.\<close>

fun resolve_loop ::
  "(row list \<Rightarrow> row \<Rightarrow> bool) \<Rightarrow> string \<Rightarrow> bool \<Rightarrow> duration \<Rightarrow> gotime \<Rightarrow> 'w attempt list \<Rightarrow> 'w \<Rightarrow> 'w \<times> cli_result option" where
  "resolve_loop gp name raw wait deadline [] w = (w, None)"
| "resolve_loop gp name raw wait deadline (a # as) w =
     (case Do (ap_server a) ''GET'' (''/v1/services/'' @ name) None (Some (dec_ServiceDTO ServiceDTO0)) ServiceDTO0
             (ap_meanwhile a w) of
        (w', r) \<Rightarrow>
          (case resolve_round gp raw wait deadline (ap_now a) (ap_cancelled a) r of
             Some res \<Rightarrow> (w', Some res)
           | None \<Rightarrow> resolve_loop gp name raw wait deadline as w'))"

definition resolve_Run ::
  "cli_env \<Rightarrow> (row list \<Rightarrow> row \<Rightarrow> bool) \<Rightarrow> ResolveSettings \<Rightarrow> gotime \<Rightarrow> 'w attempt list \<Rightarrow> 'w \<Rightarrow> 'w \<times> cli_result option" where
  "resolve_Run V gp s start as w =
     (case (if rs_Wait s \<noteq> [] then ParseDuration (cl_round V) (rs_Wait s) else Some 0) of
        None \<Rightarrow> (w, Some (fails WaitInvalid))
      | Some wait \<Rightarrow> resolve_loop gp (rs_Name s) (rs_Raw s) wait (start + wait) as w)"

subsection \<open>doctor\<close>

record Check =
  ck_Name :: string
  ck_Status :: string
  ck_Detail :: string

record doctor_env =
  de_error_text :: "transport_error \<Rightarrow> string"
  de_NewClient :: "(string, probe_env) result"     \<comment> \<open>\<open>dockerwatch.NewClient\<close> and what Docker answers\<close>
  de_probe_text :: "probe_error \<Rightarrow> string"
  de_probe_detail :: "ProbeResult \<Rightarrow> string"
  de_loopback :: "(string, string) result"         \<comment> \<open>the error or the address of \<open>net.Listen\<close>\<close>
  de_MkdirAll :: "string option"
  de_CreateTemp :: "string option"

text \<open>\<open>filepath.Dir\<close>: the path up to its last slash, cleaned.\<close>

definition filepath_Dir :: "string \<Rightarrow> string" where
  "filepath_Dir path = filepath_Clean (rev (dropWhile (\<lambda>c. c \<noteq> CHR ''/'') (rev path)))"

definition mk_check :: "string \<Rightarrow> string \<Rightarrow> string \<Rightarrow> Check" where
  "mk_check name status detail = \<lparr>ck_Name = name, ck_Status = status, ck_Detail = detail\<rparr>"

definition probeDockerPublication :: "doctor_env \<Rightarrow> Check list" where
  "probeDockerPublication D =
     (case de_NewClient D of
        Inl err \<Rightarrow> [mk_check ''docker-publication-probe'' ''fail'' err]
      | Inr Q \<Rightarrow>
          (case snd (ProbeLoopbackPublication Q) of
             Inl err \<Rightarrow> [mk_check ''docker-publication-probe'' ''fail'' (de_probe_text D err)]
           | Inr res \<Rightarrow>
               if pr_Skipped res then [mk_check ''docker-publication-probe'' ''skip'' (de_probe_detail D res)]
               else if pr_Supported res then [mk_check ''docker-publication-probe'' ''ok'' (de_probe_detail D res)]
               else [mk_check ''docker-publication-probe'' ''fail''
                       (de_probe_detail D res @ ''; devmesh will not auto-register containers exposed beyond loopback'')]))"

definition docker_check :: "string \<Rightarrow> Check" where
  "docker_check docker =
     (if docker = ''connected'' then mk_check ''docker'' ''ok'' ''connected''
      else if docker = ''disabled'' then mk_check ''docker'' ''skip'' ''disabled by configuration''
      else mk_check ''docker'' ''fail'' (''status: '' @ docker))"

definition runChecks :: "doctor_env \<Rightarrow> 'w server \<Rightarrow> string \<Rightarrow> 'w \<Rightarrow> 'w \<times> Check list" where
  "runChecks D srv socket w =
     (case Do srv ''GET'' ''/v1/health'' None (Some dec_HealthResponse) \<lparr>he_Status = [], he_Version = [], he_Docker = []\<rparr> w of
        (w', health) \<Rightarrow>
          (w',
           (case health of
              Inl err \<Rightarrow> [mk_check ''daemon-reachable'' ''fail'' (de_error_text D err)]
            | Inr h \<Rightarrow>
                [mk_check ''daemon-reachable'' ''ok'' (''version '' @ he_Version h), docker_check (he_Docker h)] @
                (if he_Docker h \<noteq> ''disabled'' then probeDockerPublication D else [])) @
           [case de_loopback D of
              Inl err \<Rightarrow> mk_check ''loopback-bind'' ''fail'' err
            | Inr addr \<Rightarrow> mk_check ''loopback-bind'' ''ok'' (''bound '' @ addr)] @
           [case de_MkdirAll D of
              Some err \<Rightarrow> mk_check ''socket-dir'' ''fail'' err
            | None \<Rightarrow>
                (case de_CreateTemp D of
                   Some err \<Rightarrow> mk_check ''socket-dir'' ''fail'' err
                 | None \<Rightarrow> mk_check ''socket-dir'' ''ok'' (filepath_Dir socket @ '' writable''))]))"

definition check_row :: "Check \<Rightarrow> row" where
  "check_row c = [(''check'', ck_Name c), (''status'', ck_Status c), (''detail'', ck_Detail c)]"

fun doctor_loop :: "(row list \<Rightarrow> row \<Rightarrow> bool) \<Rightarrow> bool \<Rightarrow> Check list \<Rightarrow> row list \<Rightarrow> row list \<times> cli_error option" where
  "doctor_loop gp failed [] rows = (rows, if failed then Some ChecksFailed else None)"
| "doctor_loop gp failed (c # cs) rows =
     (case AddRow gp (check_row c) rows of
        (rows', Some err) \<Rightarrow> (rows', Some err)
      | (rows', None) \<Rightarrow> doctor_loop gp (failed \<or> ck_Status c = ''fail'') cs rows')"

definition doctor_Run ::
  "cli_env \<Rightarrow> doctor_env \<Rightarrow> (Client \<Rightarrow> 'w server) \<Rightarrow> (row list \<Rightarrow> row \<Rightarrow> bool) \<Rightarrow> conn_settings \<Rightarrow> 'w \<Rightarrow> 'w \<times> cli_result" where
  "doctor_Run V D net gp ds w =
     (let socket = (if dc_Socket ds = [] then DefaultSocketPath (cl_UserHomeDir V) (cl_TempDir V) else dc_Socket ds) in
      case runChecks D (net (Settings_Client V ds)) socket w of
        (w', checks) \<Rightarrow> (w', case doctor_loop gp False checks [] of (rows, err) \<Rightarrow> (Rows rows, err)))"

subsection \<open>register\<close>

record register_settings =
  gs_Name :: string
  gs_Kind :: string
  gs_AppProtocol :: string
  gs_Backend :: string
  gs_HTTPHost :: string
  gs_PreferredPort :: int
  gs_TTLSeconds :: int
  gs_Once :: bool

definition once_request :: "register_settings \<Rightarrow> string \<Rightarrow> int \<Rightarrow> RegisterRequest" where
  "once_request s host port =
     \<lparr>rg_Name = gs_Name s, rg_Kind = gs_Kind s, rg_AppProtocol = gs_AppProtocol s, rg_Source = ''manual'',
      rg_Backend = \<lparr>bd_Host = host, bd_Port = port\<rparr>,
      rg_PreferredPort = (if gs_PreferredPort s \<noteq> 0 then gs_PreferredPort s else 0),
      rg_TTLSeconds = gs_TTLSeconds s, rg_HTTPHost = gs_HTTPHost s\<rparr>"

definition registration_row :: "string \<Rightarrow> string \<Rightarrow> string \<Rightarrow> string \<Rightarrow> row" where
  "registration_row name endpoint rid expires =
     [(''name'', name), (''endpoint'', endpoint), (''registration_id'', rid), (''expires_at'', expires)]"

definition registerOnce ::
  "'w server \<Rightarrow> register_settings \<Rightarrow> (row list \<Rightarrow> row \<Rightarrow> bool) \<Rightarrow> 'w \<Rightarrow> 'w \<times> cli_result" where
  "registerOnce srv s gp w =
     (case SplitHostPort (gs_Backend s) of
        None \<Rightarrow> (w, fails BackendAddressInvalid)
      | Some (host, portStr) \<Rightarrow>
          (case Atoi portStr of
             None \<Rightarrow> (w, fails BackendAddressInvalid)
           | Some port \<Rightarrow>
               (case Do srv ''POST'' ''/v1/registrations'' (Some (enc_RegisterRequest (once_request s host port)))
                       (Some dec_RegisterResponse) RegisterResponse0 w of
                  (w', Inl err) \<Rightarrow> (w', fails (RequestError err))
                | (w', Inr resp) \<Rightarrow>
                    (let endpoint = (if fd_URL (rx_Frontend resp) = []
                                     then JoinHostPort (fd_Host (rx_Frontend resp)) (Itoa (fd_Port (rx_Frontend resp)))
                                     else fd_URL (rx_Frontend resp)) in
                     (w', one_row gp (registration_row (rx_Name resp) endpoint (rx_RegistrationID resp) (rx_ExpiresAt resp)))))))"

definition emitRow :: "(row list \<Rightarrow> row \<Rightarrow> bool) \<Rightarrow> RegistrationInfo \<Rightarrow> cli_result" where
  "emitRow gp info =
     one_row gp (registration_row (ri_Name info) (ri_Endpoint info) (ri_RegistrationID info)
       (if ri_ExpiresAt info = zero_time then [] else time_Format (ri_ExpiresAt info)))"

definition register_options :: "register_settings \<Rightarrow> conn_settings \<Rightarrow> RegistrationOptions" where
  "register_options s ds =
     \<lparr>op_Name = gs_Name s, op_Kind = gs_Kind s, op_AppProtocol = gs_AppProtocol s, op_HTTPHost = gs_HTTPHost s,
      op_Backend = gs_Backend s, op_PreferredPort = gs_PreferredPort s, op_TTLSeconds = gs_TTLSeconds s,
      op_Manual = True, op_Socket = dc_Socket ds\<rparr>"

text \<open>The client that the library makes for these options.\<close>

definition library_client :: "client_env \<Rightarrow> conn_settings \<Rightarrow> Client" where
  "library_client C ds =
     NewClient (if dc_Socket ds = [] then DefaultSocketPath (ce_UserHomeDir C) (ce_TempDir C) else dc_Socket ds) (5 * Second)"

text \<open>
  \<open>ts\<close> are the turns of the heartbeat loop until the command is interrupted; when the row is
  rejected the deferred \<open>Close\<close> follows at once. \<open>settle\<close> is as for \<open>Close\<close>.
\<close>

definition register_Run ::
  "cli_env \<Rightarrow> client_env \<Rightarrow> (Client \<Rightarrow> 'w server) \<Rightarrow> (row list \<Rightarrow> row \<Rightarrow> bool) \<Rightarrow> conn_settings
     \<Rightarrow> register_settings \<Rightarrow> 'w turn list \<Rightarrow> 'w server \<Rightarrow> ('w \<times> registrationHandle \<Rightarrow> 'w \<times> registrationHandle)
     \<Rightarrow> 'w \<Rightarrow> 'w \<times> cli_result" where
  "register_Run V C net gp ds s ts close_srv settle w =
     (if gs_Once s then registerOnce (net (Settings_Client V ds)) s gp w
      else
        (case Client_Register C (net (library_client C ds)) (register_options s ds) w of
           (w1, Inl err) \<Rightarrow> (w1, fails (RegistrationFailed err))
         | (w1, Inr h) \<Rightarrow>
             (case emitRow gp (Info h) of
                (out, Some err) \<Rightarrow> (fst (handle_Close close_srv settle h w1), (out, Some err))
              | (out, None) \<Rightarrow>
                  (case heartbeatLoop C ts h firstBackoff w1 of
                     (w2, h2, _) \<Rightarrow> (fst (handle_Close close_srv settle h2 w2), (out, None))))))"

subsection \<open>Reference definitions\<close>

text \<open>What JSON carries of a document: bytes that are not UTF-8 are replaced.\<close>

definition wire_FrontendDTO :: "FrontendDTO \<Rightarrow> FrontendDTO" where
  "wire_FrontendDTO f = \<lparr>fd_Host = coerce_utf8 (fd_Host f), fd_Port = fd_Port f, fd_URL = coerce_utf8 (fd_URL f)\<rparr>"

definition wire_ServiceDTO :: "ServiceDTO \<Rightarrow> ServiceDTO" where
  "wire_ServiceDTO s =
     \<lparr>sd_Name = coerce_utf8 (sd_Name s), sd_Kind = coerce_utf8 (sd_Kind s), sd_AppProtocol = coerce_utf8 (sd_AppProtocol s),
      sd_Status = coerce_utf8 (sd_Status s), sd_Frontend = wire_FrontendDTO (sd_Frontend s)\<rparr>"

text \<open>A record as a client sees it.\<close>

definition seen :: "ServiceRecord \<Rightarrow> ServiceDTO" where
  "seen rec = wire_ServiceDTO (serviceDTO (infoFromRecord rec False))"

definition selected :: "ListSettings \<Rightarrow> ServiceDTO \<Rightarrow> bool" where
  "selected s svc \<longleftrightarrow> (ls_NameFilter s = [] \<or> Contains (sd_Name svc) (ls_NameFilter s)) \<and> (ls_Status s = [] \<or> sd_Status svc = ls_Status s)"

text \<open>Concrete settings; a processor that accepts every row.\<close>

definition sample_cli :: cli_env where
  "sample_cli = \<lparr>cl_UserHomeDir = None, cl_TempDir = ''/tmp'', cl_round = (\<lambda>x. x)\<rparr>"

definition sample_conn :: conn_settings where
  "sample_conn = \<lparr>dc_Socket = ''/s'', dc_Timeout = ''5s''\<rparr>"

definition sample_doctor :: doctor_env where
  "sample_doctor = \<lparr>de_error_text = (\<lambda>_. []), de_NewClient = Inl [], de_probe_text = (\<lambda>_. []), de_probe_detail = (\<lambda>_. []),
     de_loopback = Inr ''127.0.0.1:40000'', de_MkdirAll = None, de_CreateTemp = None\<rparr>"

definition sample_attempt :: "'w server \<Rightarrow> nat \<Rightarrow> 'w attempt" where
  "sample_attempt srv k = \<lparr>ap_meanwhile = (\<lambda>w. w), ap_server = srv, ap_now = int k * retryInterval, ap_cancelled = False\<rparr>"

definition sample_register :: register_settings where
  "sample_register = \<lparr>gs_Name = ''db'', gs_Kind = ''tcp'', gs_AppProtocol = [], gs_Backend = ''127.0.0.1:5432'', gs_HTTPHost = [],
     gs_PreferredPort = 0, gs_TTLSeconds = 15, gs_Once = True\<rparr>"

section \<open>Lemmas\<close>

subsection \<open>The documents\<close>

lemma coerce_Nil [simp]: "coerce_utf8 [] = []"
  by (simp add: coerce_utf8.simps)

lemma dec_wire_FrontendDTO:
  "dec_FrontendDTO FrontendDTO0 (enc_FrontendDTO f) = (if int64 (fd_Port f) then Some (wire_FrontendDTO f) else None)"
proof (cases "int64 (fd_Port f)")
  case True
  then show ?thesis
    by (simp add: dec_FrontendDTO_def enc_FrontendDTO_def dec_struct_def set_FrontendDTO_def FrontendDTO0_def omit_str_def
        js_def wire_FrontendDTO_def)
next
  case False
  then have "dec_int 0 (JInt (fd_Port f)) = None" by (simp add: dec_int_def)
  with False show ?thesis
    by (simp add: dec_FrontendDTO_def enc_FrontendDTO_def dec_struct_def set_FrontendDTO_def FrontendDTO0_def js_def)
qed

lemma dec_wire_ServiceDTO:
  "dec_ServiceDTO ServiceDTO0 (enc_ServiceDTO s) = (if int64 (fd_Port (sd_Frontend s)) then Some (wire_ServiceDTO s) else None)"
  using dec_wire_FrontendDTO [of "sd_Frontend s"]
  by (simp add: dec_ServiceDTO_def enc_ServiceDTO_def dec_struct_def set_ServiceDTO_def ServiceDTO_fields_def ServiceDTO0_def
      omit_str_def js_def wire_ServiceDTO_def)

lemma dec_elems_fresh:
  assumes "\<forall>s \<in> set ss. int64 (fd_Port (sd_Frontend s))"
  shows "dec_elems dec_ServiceDTO ServiceDTO0 [] (map enc_ServiceDTO ss) = Some (map wire_ServiceDTO ss)"
  using assms by (induction ss) (simp_all add: dec_wire_ServiceDTO)

lemma dec_wire_ListResponse:
  assumes "\<forall>s \<in> set ss. int64 (fd_Port (sd_Frontend s))"
  shows "dec_ListResponse (enc_ListResponse ss) = Some (map wire_ServiceDTO ss)"
  using dec_elems_fresh [OF assms]
  by (simp add: dec_ListResponse_def enc_ListResponse_def dec_struct_def dec_slice_def)

lemma dec_wire_HealthResponse:
  "dec_HealthResponse (enc_HealthResponse h) =
     Some \<lparr>he_Status = coerce_utf8 (he_Status h), he_Version = coerce_utf8 (he_Version h), he_Docker = coerce_utf8 (he_Docker h)\<rparr>"
  by (simp add: dec_HealthResponse_def enc_HealthResponse_def dec_struct_def js_def)

subsection \<open>Reading from the daemon\<close>

lemma seen_status: "sd_Status (seen rec) = ''ready'' \<longleftrightarrow> sr_Status rec = StatusReady"
  by (cases "sr_Status rec") (simp_all add: seen_def wire_ServiceDTO_def serviceDTO_def infoFromRecord_def coerce_utf8.simps rune_len_def)

lemma resolve_answer:
  assumes "plain_seg name"
  shows "Do (daemon_server A) ''GET'' (''/v1/services/'' @ name) None (Some (dec_ServiceDTO ServiceDTO0)) ServiceDTO0 d =
    (d, case Registry_Resolve (dm_Registry d) name of
          None \<Rightarrow> Inl (decodeError 404 (hr_Body (writeError (ae_message A) CodeServiceNotFound)))
        | Some rec \<Rightarrow> if int64 (fe_Port (sr_Frontend rec)) then Inr (seen rec) else Inl Undecodable)"
proof -
  let ?ss = "[''v1'', ''services'', name]"
  have p: "list_all plain_seg ?ss" using assms by (simp add: plain_seg_def plain_char_def is_alnum_def)
  have "name \<noteq> ''/''" using assms by (auto simp: plain_seg_def plain_char_def is_alnum_def)
  then have r: "first_route routes ''GET'' ?ss = Matched HResolve [name]"
    by (simp add: routes_def method_ok_def)
  show ?thesis
    using Client_do_over [OF p _ r, of A "[]" None "Some (dec_ServiceDTO ServiceDTO0)" ServiceDTO0 d]
    by (auto simp: Do_def handleResolve_def Daemon_Resolve_def writeJSON_def writeError_def Let_def statusForCode_def mget0_def
        dec_wire_ServiceDTO seen_def serviceDTO_def infoFromRecord_def frontendDTO_def split: option.split)
qed

lemma list_answer:
  assumes "\<forall>rec \<in> set (Registry_List (dm_Registry d)). int64 (fe_Port (sr_Frontend rec))"
  shows "Do (daemon_server A) ''GET'' ''/v1/services'' None (Some dec_ListResponse) [] d =
    (d, Inr (map seen (Registry_List (dm_Registry d))))"
proof -
  let ?ss = "[''v1'', ''services'']" let ?l = "map serviceDTO (Daemon_List d)"
  have p: "list_all plain_seg ?ss" by (simp add: plain_seg_def plain_char_def is_alnum_def)
  have r: "first_route routes ''GET'' ?ss = Matched HList []"
    by (simp add: routes_def method_ok_def)
  have "\<forall>s \<in> set ?l. int64 (fd_Port (sd_Frontend s))"
    using assms by (auto simp: Daemon_List_def serviceDTO_def infoFromRecord_def frontendDTO_def)
  from dec_wire_ListResponse [OF this] show ?thesis
    using Client_do_over [OF p _ r, of A "[]" None "Some dec_ListResponse" "[]" d]
    by (simp add: Do_def handleList_def writeJSON_def Daemon_List_def seen_def comp_def)
qed

lemma health_answer:
  "Do (daemon_server A) ''GET'' ''/v1/health'' None (Some dec_HealthResponse) z d =
    (d, Inr \<lparr>he_Status = ''ok'', he_Version = Version, he_Docker = coerce_utf8 (DockerStatus d)\<rparr>)"
proof -
  let ?ss = "[''v1'', ''health'']"
  have p: "list_all plain_seg ?ss" by (simp add: plain_seg_def plain_char_def is_alnum_def)
  have r: "first_route routes ''GET'' ?ss = Matched HHealth []"
    by (simp add: routes_def method_ok_def)
  have "valid_utf8 ''ok''" "valid_utf8 Version" by (rule valid_utf8_ascii, simp add: Version_def)+
  then show ?thesis
    using Client_do_over [OF p _ r, of A "[]" None "Some dec_HealthResponse" z d]
    by (simp add: Do_def handleHealth_def writeJSON_def dec_wire_HealthResponse valid_utf8_def)
qed

subsection \<open>services list\<close>

lemma list_loop_all:
  assumes "\<forall>rows r. gp rows r"
  shows "list_loop gp s svcs rows = (rows @ map list_row (filter (selected s) svcs), None)"
proof (induction svcs arbitrary: rows)
  case (Cons svc svcs)
  then show ?case using assms by (auto simp: selected_def AddRow_def)
qed simp

text \<open>\<open>services list\<close> shows what the registry holds: one row for every record that the filters
  select, in the order of the names, with the name, kind, protocol, status and endpoint of the
  record; and the daemon is not changed. (Of a string that is not UTF-8 it shows what JSON can
  carry.)\<close>

theorem list_shows_registry:
  assumes "\<forall>rec \<in> set (Registry_List (dm_Registry d)). int64 (fe_Port (sr_Frontend rec))" and "\<forall>rows r. gp rows r"
  shows "list_Run V (\<lambda>_. daemon_server A) gp ds s d =
    (d, Rows (map list_row (filter (selected s) (map seen (Registry_List (dm_Registry d))))), None)"
  by (simp add: list_Run_def list_answer [OF assms(1)] list_loop_all [OF assms(2)])

theorem list_shows_registry_witness:
  "\<exists>r. list_Run sample_cli (\<lambda>_. daemon_server sample_api) (\<lambda>_ _. True) sample_conn \<lparr>ls_NameFilter = [], ls_Status = ''ready''\<rparr>
     (sample_registered 5 3) = (sample_registered 5 3, Rows [r], None) \<and> (''status'', ''ready'') \<in> set r"
proof -
  obtain rec where rec: "services (dm_Registry (sample_registered 5 3)) = [(''db'', rec)]" "sr_Status rec = StatusReady"
      "fe_Port (sr_Frontend rec) = 16000"
    using sample_registered(1) [of 3 5] by auto
  have l: "Registry_List (dm_Registry (sample_registered 5 3)) = [rec]" by (simp add: Registry_List_def rec(1))
  have st: "sd_Status (seen rec) = ''ready''" using seen_status rec(2) by simp
  have p: "\<forall>rec \<in> set (Registry_List (dm_Registry (sample_registered 5 3))). int64 (fe_Port (sr_Frontend rec))" using l rec(3) by simp
  from list_shows_registry [OF p, of "\<lambda>_ _. True" sample_cli sample_api sample_conn "\<lparr>ls_NameFilter = [], ls_Status = ''ready''\<rparr>"] l st
  show ?thesis by (simp add: selected_def list_row_def)
qed

subsection \<open>services resolve\<close>

lemma resolve_round_raw:
  assumes "resolve_round gp True wait deadline now cancelled r = Some (Line out, err)"
  shows "\<exists>svc. r = Inr svc \<and> sd_Status svc = ''ready'' \<and> out = EndpointOf (sd_Frontend svc) \<and> err = None"
  using assms
  by (auto simp: resolve_round_def fails_def EndpointOf_def Let_def split: sum.splits if_splits)

lemma resolve_round_rows:
  assumes "resolve_round gp True wait deadline now cancelled r = Some (Rows rows, err)"
  shows "err \<noteq> None \<and> rows = []"
  using assms by (cases r) (auto simp: resolve_round_def fails_def Let_def split: if_splits)

lemma resolve_loop_outcome:
  assumes "resolve_loop gp name raw wait deadline as w = (w', Some res)"
  shows "\<exists>a \<in> set as. \<exists>r. resolve_round gp raw wait deadline (ap_now a) (ap_cancelled a) r = Some res"
  using assms by (induction as arbitrary: w) (auto split: prod.splits option.splits)

lemma resolve_loop_raw:
  assumes "plain_seg name" "\<forall>a \<in> set as. \<exists>A. ap_server a = daemon_server A"
    and "resolve_loop gp name True wait deadline as d = (d', Some (Line out, err))"
  shows "\<exists>rec. Registry_Resolve (dm_Registry d') name = Some rec \<and> sr_Status rec = StatusReady \<and>
    out = EndpointOf (wire_FrontendDTO (frontendDTO (sr_Frontend rec)))"
  using assms(2,3)
proof (induction as arbitrary: d)
  case (Cons a as)
  obtain A where A: "ap_server a = daemon_server A" using Cons.prems(1) by auto
  let ?d = "ap_meanwhile a d"
  note ans = resolve_answer [OF assms(1), of A ?d]
  show ?case
  proof (cases "resolve_round gp True wait deadline (ap_now a) (ap_cancelled a)
      (snd (Do (ap_server a) ''GET'' (''/v1/services/'' @ name) None (Some (dec_ServiceDTO ServiceDTO0)) ServiceDTO0 ?d))")
    case None
    then show ?thesis using Cons A ans by simp
  next
    case (Some res)
    then have d': "d' = ?d" "res = (Line out, err)" using Cons.prems(2) A ans by simp_all
    from resolve_round_raw [OF Some [unfolded d'(2)]] A ans
    obtain rec where "Registry_Resolve (dm_Registry ?d) name = Some rec" "sd_Status (seen rec) = ''ready''"
      "out = EndpointOf (sd_Frontend (seen rec))"
      by (auto split: option.splits if_splits)
    then show ?thesis using d'(1) seen_status [of rec]
      by (simp add: seen_def wire_ServiceDTO_def serviceDTO_def infoFromRecord_def)
  qed
qed simp

lemma tcp_frontend_open:
  assumes "dm_inv G d" "Registry_Resolve (dm_Registry d) name = Some rec" "sr_Kind rec = KindTCP"
  shows "Frontend_Addr (sr_Frontend rec) \<in> set (wd_listeners (dm_world d)) \<and> fe_URL (sr_Frontend rec) = []"
proof -
  have "rec_inv G d name rec" using assms(1,2) by (simp add: dm_inv_def Registry_Resolve_def)
  then obtain rt where rt: "Runtime_Get (dm_Runtime d) name = Some rt" "rt_Frontend rt = sr_Frontend rec"
    using assms(3) by (auto simp: rec_inv_def)
  then have "(name, rt) \<in> set (rm_runtimes (dm_Runtime d))" by (auto simp: Runtime_Get_def dest: mget_in)
  then have "rt_ok (dm_Runtime d) (dm_world d) name rt" using assms(1) by (auto simp: dm_inv_def rm_inv_def list_all_iff)
  then show ?thesis using rt(2) by (auto simp: rt_ok_def Runtime_Endpoint_def)
qed



subsection \<open>Waiting ends\<close>

lemma resolve_round_retry:
  "resolve_round gp raw wait deadline now cancelled r = None \<Longrightarrow> wait > 0 \<and> now < deadline \<and> \<not> cancelled"
  by (auto simp: resolve_round_def Let_def split: sum.splits if_splits)

lemma resolve_loop_running:
  "resolve_loop gp name raw wait deadline as w = (w', None) \<Longrightarrow> \<forall>a \<in> set as. wait > 0 \<and> ap_now a < deadline \<and> \<not> ap_cancelled a"
  by (induction as arbitrary: w) (auto split: prod.splits option.splits dest: resolve_round_retry)

text \<open>C38: \<open>services resolve\<close> ends. Two rounds are at least 250 ms apart; then, whatever the servers
  answer, the command returns in one of the first \<open>wait / 250 ms + 2\<close> rounds: at once when the
  wait does not parse, in the first round when there is no wait, otherwise at the latest in the
  first round that ends at or after the deadline, and in the round in which it is interrupted.\<close>

theorem resolve_terminates:
  assumes "\<forall>k < length as. start + int k * retryInterval \<le> ap_now (as ! k)"
    and "if rs_Wait s \<noteq> [] then ParseDuration (cl_round V) (rs_Wait s) = Some wait else wait = 0"
  shows "(nat (wait div retryInterval) + 1 < length as \<longrightarrow> (\<exists>w' res. resolve_Run V gp s start as w = (w', Some res))) \<and>
    (\<forall>a \<in> set as. wait \<le> 0 \<or> ap_cancelled a \<or> start + wait \<le> ap_now a \<longrightarrow> (\<exists>w' res. resolve_Run V gp s start as w = (w', Some res)))"
proof -
  obtain w' r where L: "resolve_loop gp (rs_Name s) (rs_Raw s) wait (start + wait) as w = (w', r)" by fastforce
  have run: "resolve_Run V gp s start as w = (w', r)" using assms(2) L by (auto simp: resolve_Run_def split: if_splits)
  have running: "\<forall>a \<in> set as. wait > 0 \<and> ap_now a < start + wait \<and> \<not> ap_cancelled a" if "r = None"
    using resolve_loop_running [OF L [unfolded that]] .
  have "length as \<le> nat (wait div retryInterval) + 1" if "r = None"
  proof (rule ccontr)
    let ?k = "nat (wait div retryInterval) + 1"
    assume "\<not> ?thesis"
    then have k: "?k < length as" by simp
    with running [OF that] have w: "wait > 0" "ap_now (as ! ?k) < start + wait" using nth_mem by blast+
    have "int ?k * retryInterval < wait" using assms(1) k w(2) by fastforce
    moreover have "int ?k = wait div retryInterval + 1" using w(1) by (simp add: retryInterval_def pos_imp_zdiv_nonneg_iff)
    moreover have "wait < (wait div retryInterval + 1) * retryInterval"
      by (simp add: retryInterval_def)
    ultimately show False by (metis less_asym)
  qed
  with running run show ?thesis by (cases r) fastforce+
qed

theorem resolve_terminates_witness:
  "\<exists>w' res. resolve_Run sample_cli (\<lambda>_ _. True) \<lparr>rs_Name = ''db'', rs_Raw = True, rs_Wait = ''1s''\<rparr> 0
     (map (sample_attempt (\<lambda>q w. (w, NoAnswer))) [0..<6]) () = (w', Some res)"
proof -
  let ?s = "\<lparr>rs_Name = ''db'', rs_Raw = True, rs_Wait = ''1s''\<rparr>"
  let ?as = "map (sample_attempt (\<lambda>q w. (w, NoAnswer))) [0..<6] :: unit attempt list"
  have one: "Itoa 1 = ''1''" by code_simp
  have "\<forall>k < length ?as. 0 + int k * retryInterval \<le> ap_now (?as ! k)" by (simp add: sample_attempt_def)
  moreover have "if rs_Wait ?s \<noteq> [] then ParseDuration (cl_round sample_cli) (rs_Wait ?s) = Some Second else Second = 0"
    using ParseDuration_seconds [of 1 "\<lambda>x. x"] by (simp add: sample_cli_def one)
  moreover have "nat (Second div retryInterval) + 1 < length ?as" by (simp add: retryInterval_def)
  ultimately show ?thesis using resolve_terminates [of ?as 0 ?s sample_cli Second "\<lambda>_ _. True" "()"] by blast
qed

subsection \<open>doctor\<close>

lemma doctor_loop_all:
  assumes "\<forall>rows r. gp rows r"
  shows "doctor_loop gp failed cs rows =
    (rows @ map check_row cs, if failed \<or> (\<exists>c \<in> set cs. ck_Status c = ''fail'') then Some ChecksFailed else None)"
proof (induction cs arbitrary: failed rows)
  case (Cons c cs)
  then show ?case using assms by (auto simp: AddRow_def)
qed simp

lemma mk_check_status [simp]: "ck_Status (mk_check n st det) = st"
  by (simp add: mk_check_def)

lemma probe_check:
  "(\<exists>c \<in> set (probeDockerPublication D). ck_Status c = ''fail'') \<longleftrightarrow>
     \<not> (\<exists>Q res. de_NewClient D = Inr Q \<and> snd (ProbeLoopbackPublication Q) = Inr res \<and> (pr_Skipped res \<or> pr_Supported res))"
  by (auto simp: probeDockerPublication_def split: sum.splits)

lemma doctor_Run_rows: "\<exists>d' rows err. doctor_Run V D net gp ds d = (d', Rows rows, err)"
  by (cases "runChecks D (net (Settings_Client V ds))
        (if dc_Socket ds = [] then DefaultSocketPath (cl_UserHomeDir V) (cl_TempDir V) else dc_Socket ds) d",
      cases "doctor_loop gp False (snd (runChecks D (net (Settings_Client V ds))
        (if dc_Socket ds = [] then DefaultSocketPath (cl_UserHomeDir V) (cl_TempDir V) else dc_Socket ds) d)) []")
     (simp add: doctor_Run_def Let_def)

text \<open>C40: The verdict of \<open>doctor\<close>. Run against a daemon it shows every check, and it succeeds exactly
  when Docker is disabled, or connected and the probe either found no local image or saw a
  publication confined to loopback; a loopback port could be bound; and the directory of the
  socket could be created and written to.\<close>

theorem doctor_verdict:
  assumes "\<forall>rows r. gp rows r" and "valid_utf8 (DockerStatus d)" and "doctor_Run V D (\<lambda>_. daemon_server A) gp ds d = (d', Rows rows, err)"
  shows "d' = d \<and> (\<exists>checks. rows = map check_row checks \<and> (err = None \<longleftrightarrow> (\<forall>c \<in> set checks. ck_Status c \<noteq> ''fail''))) \<and>
    (err = None \<longleftrightarrow>
      (DockerStatus d = ''disabled'' \<or>
       DockerStatus d = ''connected'' \<and>
         (\<exists>Q res. de_NewClient D = Inr Q \<and> snd (ProbeLoopbackPublication Q) = Inr res \<and> (pr_Skipped res \<or> pr_Supported res))) \<and>
      (\<exists>addr. de_loopback D = Inr addr) \<and> de_MkdirAll D = None \<and> de_CreateTemp D = None)"
proof -
  have docker: "coerce_utf8 (DockerStatus d) = DockerStatus d" using assms(2) by (simp add: valid_utf8_def)
  define socket where "socket = (if dc_Socket ds = [] then DefaultSocketPath (cl_UserHomeDir V) (cl_TempDir V) else dc_Socket ds)"
  define checks where "checks = snd (runChecks D (daemon_server A) socket d)"
  have r: "runChecks D (daemon_server A) socket d = (d, checks)"
    by (simp add: checks_def runChecks_def health_answer)
  have res: "d' = d" "rows = map check_row checks" "err = (if \<exists>c \<in> set checks. ck_Status c = ''fail'' then Some ChecksFailed else None)"
    using assms(3) by (simp_all add: doctor_Run_def Let_def socket_def [symmetric] r doctor_loop_all [OF assms(1)])
  have "(\<exists>c \<in> set checks. ck_Status c = ''fail'') \<longleftrightarrow>
      ck_Status (docker_check (DockerStatus d)) = ''fail'' \<or>
      DockerStatus d \<noteq> ''disabled'' \<and> (\<exists>c \<in> set (probeDockerPublication D). ck_Status c = ''fail'') \<or>
      (\<forall>addr. de_loopback D \<noteq> Inr addr) \<or> de_MkdirAll D \<noteq> None \<or> de_CreateTemp D \<noteq> None"
    by (auto simp: checks_def runChecks_def health_answer docker split: sum.split option.split)
  then have "(\<exists>c \<in> set checks. ck_Status c = ''fail'') \<longleftrightarrow>
      \<not> ((DockerStatus d = ''disabled'' \<or>
          DockerStatus d = ''connected'' \<and>
            (\<exists>Q res. de_NewClient D = Inr Q \<and> snd (ProbeLoopbackPublication Q) = Inr res \<and> (pr_Skipped res \<or> pr_Supported res))) \<and>
         (\<exists>addr. de_loopback D = Inr addr) \<and> de_MkdirAll D = None \<and> de_CreateTemp D = None)"
    unfolding probe_check by (auto simp: docker_check_def)
  with res show ?thesis by auto
qed

theorem doctor_verdict_witness:
  "\<exists>rows. doctor_Run sample_cli sample_doctor (\<lambda>_. daemon_server sample_api) (\<lambda>_ _. True) sample_conn
     (SetDockerStatus ''disabled'' sample_daemon) = (SetDockerStatus ''disabled'' sample_daemon, Rows rows, None)"
proof -
  let ?d = "SetDockerStatus ''disabled'' sample_daemon"
  obtain d' rows err where r: "doctor_Run sample_cli sample_doctor (\<lambda>_. daemon_server sample_api) (\<lambda>_ _. True) sample_conn ?d =
      (d', Rows rows, err)"
    using doctor_Run_rows by metis
  have s: "DockerStatus ?d = ''disabled''" by (simp add: DockerStatus_def SetDockerStatus_def)
  have "valid_utf8 (DockerStatus ?d)" by (rule valid_utf8_ascii) (simp add: s)
  from doctor_verdict [OF _ this r] s r show ?thesis by (simp add: sample_doctor_def)
qed

subsection \<open>register\<close>

lemma once_same_request:
  assumes "gs_Kind s \<noteq> []"
  shows "once_request s host port = base_request (register_options s ds) host port"
  using assms by (simp add: once_request_def base_request_def register_options_def)

text \<open>C39: \<open>register --once\<close> registers exactly as the library does. Against any server, for a name, a kind
  and a backend that are not empty, it leaves the world that \<open>Register\<close> of the library leaves
  for a manual registration with the same options; it succeeds when that does, showing the
  endpoint and the identity that the handle has, and fails when that fails.\<close>

theorem register_once_as_library:
  assumes "gs_Name s \<noteq> []" and "gs_Kind s \<noteq> []" and "gs_Backend s \<noteq> []"
  shows "case Client_Register C srv (register_options s ds) w of
      (w', Inr h) \<Rightarrow>
        \<exists>name expires. registerOnce srv s gp w = (w', one_row gp (registration_row name (Endpoint h) (rh_regID h) expires))
    | (w', Inl err) \<Rightarrow> \<exists>e. registerOnce srv s gp w = (w', fails e)"
proof -
  have opts: "op_Name (register_options s ds) \<noteq> []" "op_Backend (register_options s ds) = gs_Backend s"
    using assms(1) by (simp_all add: register_options_def)
  show ?thesis
    using assms(3) opts
    by (auto simp: Client_Register_def registerOnce_def handle_register_def fresh_handle_def adopt_def Endpoint_def
        once_same_request [OF assms(2), of _ _ ds] frontendEndpoint_def Let_def split: option.split prod.split sum.split)
qed

theorem register_once_as_library_witness:
  "\<exists>name expires. registerOnce (\<lambda>q w. (w + 1, Answer (writeJSON 201 (JObj [(''registration_id'', JStr ''r1'')])))) sample_register (\<lambda>_ _. True) (0 :: nat) =
     (1, Rows [registration_row name '':0'' ''r1'' expires], None)"
proof -
  let ?srv = "\<lambda>q w. (w + 1 :: nat, Answer (writeJSON 201 (JObj [(''registration_id'', JStr ''r1'')])))"
  let ?o = "register_options sample_register sample_conn"
  have ok: "gs_Name sample_register \<noteq> []" "gs_Kind sample_register \<noteq> []" "gs_Backend sample_register \<noteq> []"
    by (simp_all add: sample_register_def)
  have "SplitHostPort ''127.0.0.1:5432'' = Some (''127.0.0.1'', ''5432'')" "Atoi ''5432'' = Some 5432" by code_simp+
  moreover have "url_Parse_path ''/v1/registrations'' = Some ''/v1/registrations''" by code_simp
  moreover have "JoinHostPort [] (Itoa 0) = '':0''" by code_simp
  ultimately have "\<exists>h. Client_Register sample_client ?srv ?o 0 = (1, Inr h) \<and> Endpoint h = '':0'' \<and> rh_regID h = ''r1''"
    by (simp add: Client_Register_def register_options_def sample_register_def handle_register_def Do_def Client_do_def writeJSON_def
        dec_RegisterResponse_def dec_struct_def RegisterResponse_fields_def set_RegisterResponse_def adopt_def Endpoint_def
        RegisterResponse0_def frontendEndpoint_def FrontendDTO0_def)
  then obtain h where "Client_Register sample_client ?srv ?o 0 = (1, Inr h)" "Endpoint h = '':0''" "rh_regID h = ''r1''" by blast
  with register_once_as_library [OF ok, where C = sample_client and srv = ?srv and ds = sample_conn and w = 0 and gp = "\<lambda>_ _. True"] show ?thesis
    by (simp add: one_row_def AddRow_def)
qed

end
